(* ===== verification/Prelude.thy ===== *)
theory Prelude
  imports Main "HOL-Library.Char_ord" "HOL-Library.List_Lexorder" "HOL-Library.Product_Lexorder"
begin

text \<open>
  Shared material of the development: results that may be an exception, the state and
  exception monad in which operations that mutate shared objects are written, ordered
  associative containers (\<open>std::map\<close>, \<open>std::set\<close> and the case-insensitive map of the
  source's \<open>types.hpp\<close>), and the decimal printing of integers.

  An ordered container is an association list whose keys are compared through a
  normaliser \<open>f\<close>: two keys are the same key when \<open>f\<close> maps them to the same value, and the
  list is kept in increasing order of \<open>f\<close>.  \<open>std::map<std::string, T>\<close> is the instance with
  the identity, \<open>utilities::CaseInsensitiveMap<T>\<close> the one with \<open>ci_fold\<close>: of the latter,
  third-party, class only its documented behaviour is used, that it is a \<open>std::map\<close> whose
  comparison ignores the case of the letters.
\<close>

named_theorems om_simps "lookup laws of the ordered containers"
named_theorems sx_simps "evaluation rules of the state and exception monad"

subsection \<open>Results\<close>

definition bindR :: "'e + 'a \<Rightarrow> ('a \<Rightarrow> 'e + 'b) \<Rightarrow> 'e + 'b" where
  "bindR m f = (case m of Inl e \<Rightarrow> Inl e | Inr x \<Rightarrow> f x)"

lemma bindR_simps [simp]:
  "bindR (Inl e) f = Inl e"
  "bindR (Inr x) f = f x"
  by (simp_all add: bindR_def)

lemma bindR_cong [fundef_cong]: "m = m' \<Longrightarrow> (\<And>x. m' = Inr x \<Longrightarrow> f x = g x) \<Longrightarrow> bindR m f = bindR m' g"
  by (cases m') simp_all

lemma bindR_Inr_iff: "bindR m f = Inr y \<longleftrightarrow> (\<exists>x. m = Inr x \<and> f x = Inr y)"
  by (cases m) auto

lemma bindR_Inl_iff: "bindR m f = Inl e \<longleftrightarrow> m = Inl e \<or> (\<exists>x. m = Inr x \<and> f x = Inl e)"
  by (cases m) auto

lemma projr_ok: "\<not> isl r \<Longrightarrow> r = Inr (projr r)"
  by (cases r) auto

fun mapR :: "('a \<Rightarrow> 'e + 'b) \<Rightarrow> 'a list \<Rightarrow> 'e + 'b list" where
  "mapR f [] = Inr []"
| "mapR f (x # xs) = bindR (f x) (\<lambda>y. bindR (mapR f xs) (\<lambda>ys. Inr (y # ys)))"

lemma mapR_Inr_iff:
  "mapR f xs = Inr ys \<longleftrightarrow> list_all2 (\<lambda>x y. f x = Inr y) xs ys"
proof (induction xs arbitrary: ys)
  case Nil
  then show ?case by auto
next
  case (Cons x xs)
  then show ?case
    by (auto simp: bindR_Inr_iff list_all2_Cons1)
qed

lemma mapR_map_Inr [simp]: "(\<And>x. x \<in> set xs \<Longrightarrow> f x = Inr (g x)) \<Longrightarrow> mapR f xs = Inr (map g xs)"
  by (induction xs) auto

text \<open>A loop that folds an operation which may throw.\<close>

fun foldR :: "('a \<Rightarrow> 's \<Rightarrow> 'e + 's) \<Rightarrow> 'a list \<Rightarrow> 's \<Rightarrow> 'e + 's" where
  "foldR f [] s = Inr s"
| "foldR f (x # xs) s = bindR (f x s) (foldR f xs)"

lemma foldR_append: "foldR f (xs @ ys) s = bindR (foldR f xs s) (foldR f ys)"
  by (induction xs arbitrary: s) (auto simp: bindR_def split: sum.splits)

subsection \<open>State and exceptions\<close>

text \<open>
  An operation on a shared state may throw after it has changed the state, so it returns
  the outcome and the state it leaves behind.
\<close>

type_synonym ('e, 's, 'a) sx = "'s \<Rightarrow> ('e + 'a) \<times> 's"

definition retS :: "'a \<Rightarrow> ('e, 's, 'a) sx" where
  "retS x s = (Inr x, s)"

definition throwS :: "'e \<Rightarrow> ('e, 's, 'a) sx" where
  "throwS e s = (Inl e, s)"

definition bindS :: "('e, 's, 'a) sx \<Rightarrow> ('a \<Rightarrow> ('e, 's, 'b) sx) \<Rightarrow> ('e, 's, 'b) sx" where
  "bindS m f s = (case m s of (Inl e, s') \<Rightarrow> (Inl e, s') | (Inr x, s') \<Rightarrow> f x s')"

definition getS :: "('s \<Rightarrow> 'a) \<Rightarrow> ('e, 's, 'a) sx" where
  "getS g s = (Inr (g s), s)"

definition modS :: "('s \<Rightarrow> 's) \<Rightarrow> ('e, 's, unit) sx" where
  "modS g s = (Inr (), g s)"

definition liftS :: "'e + 'a \<Rightarrow> ('e, 's, 'a) sx" where
  "liftS r s = (r, s)"

lemma sx_eval [simp, sx_simps]:
  "retS x s = (Inr x, s)"
  "throwS e s = (Inl e, s)"
  "getS g s = (Inr (g s), s)"
  "modS h s = (Inr (), h s)"
  "liftS r s = (r, s)"
  by (simp_all add: retS_def throwS_def getS_def modS_def liftS_def)

lemma bindS_Inr [sx_simps]: "m s = (Inr x, s') \<Longrightarrow> bindS m f s = f x s'"
  by (simp add: bindS_def)

lemma bindS_Inl [sx_simps]: "m s = (Inl e, s') \<Longrightarrow> bindS m f s = (Inl e, s')"
  by (simp add: bindS_def)

lemma bindS_prim [simp]:
  "bindS (retS x) f1 s = f1 x s"
  "bindS (throwS e) f2 s = (Inl e, s)"
  "bindS (getS g) f3 s = f3 (g s) s"
  "bindS (modS h) f4 s = f4 () (h s)"
  "bindS (liftS (Inl e)) f5 s = (Inl e, s)"
  "bindS (liftS (Inr y)) f6 s = f6 y s"
  by (simp_all add: bindS_def)

fun forS :: "('a \<Rightarrow> ('e, 's, unit) sx) \<Rightarrow> 'a list \<Rightarrow> ('e, 's, unit) sx" where
  "forS f [] = retS ()"
| "forS f (x # xs) = bindS (f x) (\<lambda>_. forS f xs)"

fun mapS :: "('a \<Rightarrow> ('e, 's, 'b) sx) \<Rightarrow> 'a list \<Rightarrow> ('e, 's, 'b list) sx" where
  "mapS f [] = retS []"
| "mapS f (x # xs) = bindS (f x) (\<lambda>y. bindS (mapS f xs) (\<lambda>ys. retS (y # ys)))"

text \<open>A loop whose body never throws and keeps an invariant, run to its end.\<close>

lemma forS_invariant:
  assumes "I xs s"
    and "\<And>x ys s. I (x # ys) s \<Longrightarrow> \<exists>s'. f x s = (Inr (), s') \<and> I ys s'"
  shows "\<exists>s'. forS f xs s = (Inr (), s') \<and> I [] s'"
  using assms(1)
proof (induction xs arbitrary: s)
  case Nil
  then show ?case by auto
next
  case (Cons x xs)
  obtain s1 where "f x s = (Inr (), s1)" and "I xs s1"
    using assms(2) Cons.prems by blast
  then show ?case using Cons.IH by (auto simp: bindS_def)
qed

text \<open>
  What an operation may do to the state, as a preorder \<open>R\<close>: the rules that reduce a
  composed operation to its parts.
\<close>

named_theorems frames "operations that keep to a preorder of states"

definition preserves :: "('s \<Rightarrow> 's \<Rightarrow> bool) \<Rightarrow> ('e, 's, 'a) sx \<Rightarrow> bool" where
  "preserves R m \<longleftrightarrow> (\<forall>s. R s (snd (m s)))"

lemma preservesD: "preserves R m \<Longrightarrow> m s = (r, s') \<Longrightarrow> R s s'"
  unfolding preserves_def by (metis snd_conv)

lemma preserves_at: "preserves R m \<Longrightarrow> R s (snd (m s))"
  unfolding preserves_def by blast

locale frame_rule =
  fixes R :: "'s \<Rightarrow> 's \<Rightarrow> bool"
  assumes R_refl: "R s s"
    and R_trans: "R s1 s2 \<Longrightarrow> R s2 s3 \<Longrightarrow> R s1 s3"
begin

lemma preserves_query [frames]: "preserves R (\<lambda>s. (q s, s))"
  by (simp add: preserves_def R_refl)

lemma preserves_prim [frames]:
  "preserves R (retS x)" "preserves R (throwS e)" "preserves R (liftS r)" "preserves R (getS g)"
  by (simp_all add: preserves_def R_refl)

lemma preserves_bindS [frames]:
  assumes "preserves R m" and "\<And>x. preserves R (f x)"
  shows "preserves R (bindS m f)"
  unfolding preserves_def
proof
  fix s
  obtain r s1 where r: "m s = (r, s1)" by (cases "m s")
  have s1: "R s s1" by (rule preservesD [OF assms(1) r])
  show "R s (snd (bindS m f s))"
  proof (cases r)
    case (Inr x)
    have "R s1 (snd (f x s1))" using assms(2) by (simp add: preserves_def)
    with s1 show ?thesis by (simp add: bindS_def r Inr) (rule R_trans)
  qed (use s1 in \<open>simp add: bindS_def r\<close>)
qed

lemma preserves_forS [frames]: "(\<And>x. preserves R (f x)) \<Longrightarrow> preserves R (forS f xs)"
  by (induction xs) (auto intro: frames)

end

subsection \<open>Case folding and decimal printing\<close>

definition to_lower :: "char \<Rightarrow> char" where
  "to_lower c = (let n = of_char c :: nat in if 65 \<le> n \<and> n \<le> 90 then char_of (n + 32) else c)"

definition ci_fold :: "string \<Rightarrow> string" where
  "ci_fold s = map to_lower s"

lemma ci_fold_Nil [simp]: "ci_fold [] = []"
  by (simp add: ci_fold_def)

lemma ci_fold_length [simp]: "length (ci_fold s) = length s"
  by (simp add: ci_fold_def)

fun digits :: "nat \<Rightarrow> string" where
  "digits n = (if n < 10 then [char_of (48 + n)] else digits (n div 10) @ [char_of (48 + n mod 10)])"

declare digits.simps [simp del]

definition to_string :: "int \<Rightarrow> string" where
  "to_string i = (if i < 0 then CHR ''-'' # digits (nat (- i)) else digits (nat i))"

lemma digits_nonempty [simp]: "digits n \<noteq> []"
  by (subst digits.simps) simp

text \<open>The number a decimal text stands for.\<close>

definition undigits :: "string \<Rightarrow> nat" where
  "undigits s = fold (\<lambda>c n. 10 * n + (of_char c - 48)) s 0"

lemma undigits_digits: "undigits (digits n) = n"
proof (induction n rule: digits.induct)
  case (1 n)
  show ?case
  proof (cases "n < 10")
    case True
    then show ?thesis by (subst digits.simps) (simp add: undigits_def)
  next
    case False
    then have "undigits (digits n) = 10 * undigits (digits (n div 10)) + n mod 10"
      by (subst digits.simps) (simp add: undigits_def)
    then show ?thesis using 1 False by simp
  qed
qed

lemma digits_inj [simp]: "digits m = digits n \<longleftrightarrow> m = n"
  by (metis undigits_digits)

subsection \<open>Ordered containers\<close>

type_synonym ('k, 'v) omap = "('k \<times> 'v) list"

fun om_find :: "('k \<Rightarrow> 'o) \<Rightarrow> 'k \<Rightarrow> ('k, 'v) omap \<Rightarrow> 'v option" where
  "om_find f k [] = None"
| "om_find f k ((k', v) # m) = (if f k' = f k then Some v else om_find f k m)"

definition om_count :: "('k \<Rightarrow> 'o) \<Rightarrow> 'k \<Rightarrow> ('k, 'v) omap \<Rightarrow> bool" where
  "om_count f k m \<longleftrightarrow> om_find f k m \<noteq> None"

text \<open>Insertion in order, for a key that is not there yet.\<close>

fun om_ins :: "('k \<Rightarrow> 'o::linorder) \<Rightarrow> 'k \<Rightarrow> 'v \<Rightarrow> ('k, 'v) omap \<Rightarrow> ('k, 'v) omap" where
  "om_ins f k v [] = [(k, v)]"
| "om_ins f k v ((k', v') # m) =
     (if f k < f k' then (k, v) # (k', v') # m else (k', v') # om_ins f k v m)"

text \<open>\<open>m[k] = v\<close>: the value of a key that is there is overwritten, the stored key stays.\<close>

fun om_upd :: "('k \<Rightarrow> 'o) \<Rightarrow> 'k \<Rightarrow> 'v \<Rightarrow> ('k, 'v) omap \<Rightarrow> ('k, 'v) omap" where
  "om_upd f k v [] = []"
| "om_upd f k v ((k', v') # m) =
     (if f k' = f k then (k', v) # m else (k', v') # om_upd f k v m)"

definition om_set :: "('k \<Rightarrow> 'o::linorder) \<Rightarrow> 'k \<Rightarrow> 'v \<Rightarrow> ('k, 'v) omap \<Rightarrow> ('k, 'v) omap" where
  "om_set f k v m = (if om_count f k m then om_upd f k v m else om_ins f k v m)"

text \<open>\<open>m.emplace(k, v)\<close> and \<open>m.insert({k, v})\<close>: nothing happens when the key is there.\<close>

definition om_emplace :: "('k \<Rightarrow> 'o::linorder) \<Rightarrow> 'k \<Rightarrow> 'v \<Rightarrow> ('k, 'v) omap \<Rightarrow> ('k, 'v) omap" where
  "om_emplace f k v m = (if om_count f k m then m else om_ins f k v m)"

definition om_erase :: "('k \<Rightarrow> 'o) \<Rightarrow> 'k \<Rightarrow> ('k, 'v) omap \<Rightarrow> ('k, 'v) omap" where
  "om_erase f k m = filter (\<lambda>(k', _). f k' \<noteq> f k) m"

text \<open>\<open>m.insert(first, last)\<close>\<close>

definition om_insert_all :: "('k \<Rightarrow> 'o::linorder) \<Rightarrow> ('k, 'v) omap \<Rightarrow> ('k, 'v) omap \<Rightarrow> ('k, 'v) omap" where
  "om_insert_all f ins m = fold (\<lambda>(k, v). om_emplace f k v) ins m"

definition om_wf :: "('k \<Rightarrow> 'o::linorder) \<Rightarrow> ('k, 'v) omap \<Rightarrow> bool" where
  "om_wf f m \<longleftrightarrow> sorted_wrt (<) (map (\<lambda>(k, _). f k) m)"

lemma om_wf_Nil [simp]: "om_wf f []"
  by (simp add: om_wf_def)

lemma om_find_ins: "om_find f k m = None \<Longrightarrow>
    om_find f k' (om_ins f k v m) = (if f k' = f k then Some v else om_find f k' m)"
  by (induction m) (auto split: if_splits)

lemma om_find_upd: "om_find f k m \<noteq> None \<Longrightarrow>
    om_find f k' (om_upd f k v m) = (if f k' = f k then Some v else om_find f k' m)"
  by (induction m) (auto split: if_splits)

lemma om_find_set [om_simps]:
  "om_find f k' (om_set f k v m) = (if f k' = f k then Some v else om_find f k' m)"
  by (simp add: om_set_def om_count_def om_find_ins om_find_upd)

lemma om_find_cong_key: "f k = f k' \<Longrightarrow> om_find f k m = om_find f k' m"
  by (induction m) auto

lemma om_find_emplace [om_simps]:
  "om_find f k' (om_emplace f k v m) =
     (if f k' = f k \<and> om_find f k m = None then Some v else om_find f k' m)"
  by (auto simp: om_emplace_def om_count_def om_find_ins)

lemma om_find_erase [om_simps]:
  "om_find f k' (om_erase f k m) = (if f k' = f k then None else om_find f k' m)"
  by (induction m) (auto simp: om_erase_def)

lemma om_find_Some_set: "om_find f k m = Some v \<Longrightarrow> \<exists>k'. (k', v) \<in> set m \<and> f k' = f k"
  by (induction m) (auto split: if_splits)

lemma om_find_None_iff: "om_find f k m = None \<longleftrightarrow> (\<forall>(k', v) \<in> set m. f k' \<noteq> f k)"
  by (induction m) (auto split: if_splits)

lemma om_find_in_set: "(k, v) \<in> set m \<Longrightarrow> om_find f k m \<noteq> None"
  by (auto simp: om_find_None_iff)

lemma set_om_ins: "set (om_ins f k v m) = insert (k, v) (set m)"
  by (induction m) (auto split: if_splits)

lemma distinct_om_ins: "distinct (map g (om_ins f k v m)) \<longleftrightarrow> distinct (map g ((k, v) # m))"
proof (induction m)
  case (Cons p m)
  obtain k' v' where "p = (k', v')" by (cases p)
  then show ?case using Cons by (cases "f k < f k'") (auto simp: set_om_ins)
qed simp

lemma om_wf_Cons: "om_wf f ((k, v) # m) \<longleftrightarrow> (\<forall>(k', v') \<in> set m. f k < f k') \<and> om_wf f m"
  by (auto simp: om_wf_def)

lemma om_wf_ins: "om_wf f m \<Longrightarrow> om_find f k m = None \<Longrightarrow> om_wf f (om_ins f k v m)"
proof (induction m)
  case (Cons p m)
  obtain k' v' where p: "p = (k', v')" by (cases p)
  show ?case
  proof (cases "f k < f k'")
    case True
    then show ?thesis using Cons.prems by (auto simp: p om_wf_Cons intro: less_trans)
  next
    case False
    moreover have "f k' < f k" using Cons.prems False by (auto simp: p split: if_splits)
    ultimately show ?thesis
      using Cons by (auto simp: p om_wf_Cons set_om_ins split: if_splits)
  qed
qed (simp add: om_wf_def)

lemma om_keys_upd: "map fst (om_upd f k v m) = map fst m"
  by (induction m) auto

lemma set_om_upd: "(k', v') \<in> set (om_upd f k v m) \<Longrightarrow> (k', v') \<in> set m \<or> (v' = v \<and> f k' = f k)"
  by (induction m) (auto split: if_splits)

lemma om_keys_set: "fst ` set (om_set f k v m) \<subseteq> insert k (fst ` set m)"
  using arg_cong [OF om_keys_upd, of set f k v m] by (auto simp: om_set_def set_om_ins)

lemma om_wf_keys: "map fst m = map fst m' \<Longrightarrow> om_wf f m = om_wf f m'"
proof -
  assume "map fst m = map fst m'"
  then have "map (f \<circ> fst) m = map (f \<circ> fst) m'" by (metis map_map)
  then show ?thesis by (simp add: om_wf_def case_prod_unfold comp_def)
qed

lemma om_wf_set: "om_wf f m \<Longrightarrow> om_wf f (om_set f k v m)"
  by (simp add: om_set_def om_count_def om_wf_ins om_wf_keys [OF om_keys_upd])

lemma om_wf_emplace: "om_wf f m \<Longrightarrow> om_wf f (om_emplace f k v m)"
  by (simp add: om_emplace_def om_count_def om_wf_ins)

lemma om_wf_erase: "om_wf f m \<Longrightarrow> om_wf f (om_erase f k m)"
  by (induction m) (auto simp: om_wf_Cons om_erase_def split: prod.splits)

lemmas om_wf_ops = om_wf_set om_wf_emplace om_wf_erase

text \<open>In a well-formed container the pairs are exactly the bindings of the stored keys.\<close>

lemma om_find_wf: "om_wf f m \<Longrightarrow> (k, v) \<in> set m \<Longrightarrow> om_find f k m = Some v"
  by (induction m) (force simp: om_wf_Cons)+

end
