(* ===== verification/Values.thy ===== *)
theory Values
  imports Prelude
begin

text \<open>
  The data every component exchanges: run-time type information, the C++ values a field may
  hold, the text of an error message and the exceptions of the source.

  A value is tagged with its C++ class.  Values of user classes are opaque: an object is its
  class name and the number of its state, compared by state.  A Python object carries what
  pybind11, which is not part of the source, does with it: the identity that Python's
  \<open>==\<close> sees and the C++ values it converts to, by type; \<open>None\<close> is a null object.
\<close>

section \<open>Run-time type information\<close>

text \<open>
  \<open>std::type_index\<close>: the name of the type and the shared object its \<open>type_info\<close> comes from.
  Two indices of the same type from different shared objects may differ.
\<close>

record rtti =
  rt_name :: string
  rt_dso :: nat

definition rtti_equal :: "rtti \<Rightarrow> rtti \<Rightarrow> bool" where
  "rtti_equal lhs rhs \<longleftrightarrow> lhs = rhs \<or> rt_name lhs = rt_name rhs"

lemma rtti_equal_name [simp]: "rtti_equal lhs rhs \<longleftrightarrow> rt_name lhs = rt_name rhs"
  by (auto simp: rtti_equal_def)

abbreviation mk_rtti :: "string \<Rightarrow> rtti" where
  "mk_rtti n \<equiv> \<lparr>rt_name = n, rt_dso = 0\<rparr>"

section \<open>Values\<close>

datatype cval =
    CBool bool
  | CInt int
  | CStr string
  | CUuids "(string \<times> string) list"
  | CObj string nat
  | CPy "(string \<times> (string \<times> cval) list) option"

definition ty_py :: string where "ty_py = ''pluginplay::python::PythonWrapper''"
definition ty_py_object :: string where "ty_py_object = ''pybind11::object''"
definition ty_string :: string where "ty_string = ''std::string''"
definition ty_uuids :: string where "ty_uuids = ''std::map<std::string, std::string>''"

fun cval_type :: "cval \<Rightarrow> string" where
  "cval_type (CBool b) = ''bool''"
| "cval_type (CInt i) = ''int''"
| "cval_type (CStr s) = ty_string"
| "cval_type (CUuids m) = ty_uuids"
| "cval_type (CObj c n) = c"
| "cval_type (CPy p) = ty_py"

fun is_py :: "cval \<Rightarrow> bool" where
  "is_py (CPy p) = True"
| "is_py v = False"

text \<open>A user class has neither the name of a built-in type nor that of the Python wrapper.\<close>

fun cval_ok :: "cval \<Rightarrow> bool" where
  "cval_ok (CObj c n) = (c \<notin> {''bool'', ''int'', ty_string, ty_uuids, ty_py, ty_py_object})"
| "cval_ok v = True"

lemma cval_type_py: "cval_ok v \<Longrightarrow> cval_type v = ty_py \<longleftrightarrow> is_py v"
  by (cases v) (auto simp: ty_py_def ty_string_def ty_uuids_def)

section \<open>Messages and exceptions\<close>

text \<open>A message is text, in which \<open>Shown v\<close> stands for what the stream operator of \<open>v\<close> prints.\<close>

datatype frag = Lit string | Shown cval

datatype exn =
    Runtime_error "frag list"
  | Invalid_argument "frag list"
  | Out_of_range "frag list"
  | Bad_optional_access
  | User_exception string
  | Std_terminate  \<comment> \<open>an exception left a \<open>noexcept\<close> function\<close>
  | Undefined_behaviour
  | Out_of_fuel  \<comment> \<open>the model's recursion bound, not an outcome of the program\<close>

abbreviation runtime_error :: "string \<Rightarrow> exn" where
  "runtime_error s \<equiv> Runtime_error [Lit s]"
abbreviation invalid_argument :: "string \<Rightarrow> exn" where
  "invalid_argument s \<equiv> Invalid_argument [Lit s]"
abbreviation out_of_range :: "string \<Rightarrow> exn" where
  "out_of_range s \<equiv> Out_of_range [Lit s]"

type_synonym 'a res = "exn + 'a"
type_synonym ('s, 'a) op = "(exn, 's, 'a) sx"

text \<open>An exception that leaves a \<open>noexcept\<close> function ends the program.\<close>

definition noexceptR :: "'a res \<Rightarrow> 'a res" where
  "noexceptR r = (case r of Inl e \<Rightarrow> Inl (if e = Out_of_fuel then e else Std_terminate) | Inr x \<Rightarrow> Inr x)"

definition noexceptS :: "('s, 'a) op \<Rightarrow> ('s, 'a) op" where
  "noexceptS m s = (case m s of (r, s') \<Rightarrow> (noexceptR r, s'))"

lemma noexceptR_simps [simp]:
  "noexceptR (Inr x) = Inr x"
  "e \<noteq> Out_of_fuel \<Longrightarrow> noexceptR (Inl e) = Inl Std_terminate"
  "noexceptR (Inl Out_of_fuel) = Inl Out_of_fuel"
  by (simp_all add: noexceptR_def)

text \<open>\<open>std::optional<T>::value()\<close>\<close>

definition opt_value :: "'a option \<Rightarrow> 'a res" where
  "opt_value o' = (case o' of None \<Rightarrow> Inl Bad_optional_access | Some x \<Rightarrow> Inr x)"

lemma opt_value_simps [simp]:
  "opt_value None = Inl Bad_optional_access"
  "opt_value (Some x) = Inr x"
  by (simp_all add: opt_value_def)

section \<open>The containers of the source\<close>

text \<open>
  \<open>ci_\<close>: \<open>utilities::CaseInsensitiveMap\<close>, the type of the input, result and submodule maps;
  \<open>std_\<close>: \<open>std::map\<close> with the order of its key type.
\<close>

abbreviation ci_find :: "string \<Rightarrow> (string, 'v) omap \<Rightarrow> 'v option" where "ci_find \<equiv> om_find ci_fold"
abbreviation ci_count :: "string \<Rightarrow> (string, 'v) omap \<Rightarrow> bool" where "ci_count \<equiv> om_count ci_fold"
abbreviation ci_set :: "string \<Rightarrow> 'v \<Rightarrow> (string, 'v) omap \<Rightarrow> (string, 'v) omap" where "ci_set \<equiv> om_set ci_fold"
abbreviation ci_emplace :: "string \<Rightarrow> 'v \<Rightarrow> (string, 'v) omap \<Rightarrow> (string, 'v) omap" where "ci_emplace \<equiv> om_emplace ci_fold"
abbreviation ci_erase :: "string \<Rightarrow> (string, 'v) omap \<Rightarrow> (string, 'v) omap" where "ci_erase \<equiv> om_erase ci_fold"
abbreviation std_find :: "'k \<Rightarrow> ('k, 'v) omap \<Rightarrow> 'v option" where "std_find \<equiv> om_find id"
abbreviation std_count :: "'k \<Rightarrow> ('k, 'v) omap \<Rightarrow> bool" where "std_count \<equiv> om_count id"
abbreviation std_set :: "'k::linorder \<Rightarrow> 'v \<Rightarrow> ('k, 'v) omap \<Rightarrow> ('k, 'v) omap" where "std_set \<equiv> om_set id"
abbreviation std_emplace :: "'k::linorder \<Rightarrow> 'v \<Rightarrow> ('k, 'v) omap \<Rightarrow> ('k, 'v) omap" where "std_emplace \<equiv> om_emplace id"
abbreviation std_erase :: "'k \<Rightarrow> ('k, 'v) omap \<Rightarrow> ('k, 'v) omap" where "std_erase \<equiv> om_erase id"

text \<open>\<open>map.at(key)\<close>: the library's message is not modelled.\<close>

definition om_at :: "('k \<Rightarrow> 'o) \<Rightarrow> 'k \<Rightarrow> ('k, 'v) omap \<Rightarrow> 'v res" where
  "om_at f k m = (case om_find f k m of None \<Rightarrow> Inl (Out_of_range []) | Some v \<Rightarrow> Inr v)"

abbreviation ci_at :: "string \<Rightarrow> (string, 'v) omap \<Rightarrow> 'v res" where "ci_at \<equiv> om_at ci_fold"
abbreviation std_at :: "'k \<Rightarrow> ('k, 'v) omap \<Rightarrow> 'v res" where "std_at \<equiv> om_at id"

lemma om_at_Inr_iff: "om_at f k m = Inr v \<longleftrightarrow> om_find f k m = Some v"
  by (simp add: om_at_def split: option.splits)

section \<open>The interface of an associative container\<close>

text \<open>
  What every client of the maps relies on, for an equivalence \<open>same\<close> of keys: lookup after a
  store, an \<open>emplace\<close> and an \<open>erase\<close>.
\<close>

locale assoc_container =
  fixes look :: "'k \<Rightarrow> 'm \<Rightarrow> 'v option"
    and store :: "'k \<Rightarrow> 'v \<Rightarrow> 'm \<Rightarrow> 'm"
    and place :: "'k \<Rightarrow> 'v \<Rightarrow> 'm \<Rightarrow> 'm"
    and drop_key :: "'k \<Rightarrow> 'm \<Rightarrow> 'm"
    and same :: "'k \<Rightarrow> 'k \<Rightarrow> bool"
  assumes same_sym: "same k k' \<Longrightarrow> same k' k"
    and look_same: "same k k' \<Longrightarrow> look k m = look k' m"
    and look_store: "look k' (store k v m) = (if same k k' then Some v else look k' m)"
    and look_place: "look k' (place k v m) = (if same k k' \<and> look k m = None then Some v else look k' m)"
    and look_drop: "look k' (drop_key k m) = (if same k k' then None else look k' m)"
begin

lemma place_absent: "look k m = None \<Longrightarrow> look k' (place k v m) = look k' (store k v m)"
  by (simp add: look_place look_store)

lemma place_present: "look k m = Some w \<Longrightarrow> look k' (place k v m) = look k' m"
  by (auto simp: look_place dest: look_same)

lemma store_store: "same k k' \<Longrightarrow> same k' k \<Longrightarrow> look k' (store k w (store k' v m)) = Some w"
  by (simp add: look_store)

text \<open>A run of \<open>emplace\<close> over keys: a binding that is there stays.\<close>

lemma look_place_all:
  "look k m = Some v \<Longrightarrow> look k (fold (\<lambda>(k', v'). place k' v') ps m) = Some v"
proof (induction ps arbitrary: m)
  case (Cons p ps)
  obtain k' v' where p: "p = (k', v')" by (cases p)
  have "look k (place k' v' m) = Some v"
    using Cons.prems look_same [of k' k m] by (auto simp: look_place)
  then show ?case using Cons.IH by (simp add: p)
qed simp

end

interpretation ci_map: assoc_container ci_find ci_set ci_emplace ci_erase "\<lambda>k k'. ci_fold k = ci_fold k'"
  by unfold_locales (auto simp: om_simps intro: om_find_cong_key)

interpretation std_map: assoc_container std_find std_set std_emplace std_erase "(=)"
  by unfold_locales (auto simp: om_simps)

end
