(* ===== verification/Any_Field.thy ===== *)
theory Any_Field
  imports Values
begin

text \<open>
  The type-erased holder of inputs and results (\<open>any/any_field.hpp\<close> and its \<open>detail_\<close>
  classes).  \<open>AnyFieldWrapper<T>\<close> is a value and how \<open>T\<close> qualifies it; an \<open>AnyField\<close> is a
  wrapper or a null pointer.  A cast names the class asked for and how it is asked for.
  Storing a Python object goes through \<open>PythonWrapper\<close>; turning a C++ value into a Python
  object is pybind11's, the argument \<open>pycast\<close>.  References alias in C++; the model holds the
  value a reference denotes when the field is used.
\<close>

section \<open>Wrappers\<close>

datatype qual = By_value | By_const_value | By_const_ref

record any_wrapper =
  aw_qual :: qual
  aw_value :: cval

type_synonym any_field = "any_wrapper option"

datatype how = As_value | As_const_value | As_const_ref | As_mutable_ref

definition storing_const_ref' :: "any_wrapper \<Rightarrow> bool" where
  "storing_const_ref' w \<longleftrightarrow> aw_qual w = By_const_ref"

definition storing_const_value' :: "any_wrapper \<Rightarrow> bool" where
  "storing_const_value' w \<longleftrightarrow> aw_qual w = By_const_value"

definition storing_python_object' :: "any_wrapper \<Rightarrow> bool" where
  "storing_python_object' w \<longleftrightarrow> is_py (aw_value w)"

definition type' :: "any_wrapper \<Rightarrow> string" where
  "type' w = cval_type (aw_value w)"

section \<open>Python objects\<close>

fun py_has_value :: "cval \<Rightarrow> bool" where
  "py_has_value (CPy (Some p)) = True"
| "py_has_value v = False"

fun py_equal :: "cval \<Rightarrow> cval \<Rightarrow> bool" where
  "py_equal (CPy (Some (i, c))) (CPy (Some (j, d))) = (i = j)"
| "py_equal (CPy None) (CPy None) = True"
| "py_equal v w = False"

fun py_is_convertible :: "string \<Rightarrow> cval \<Rightarrow> bool" where
  "py_is_convertible T (CPy (Some (i, c))) =
     (if T = ty_py_object then True else if T = ty_py then True else map_of c T \<noteq> None)"
| "py_is_convertible T v = False"

definition py_is_convertible_const :: "string \<Rightarrow> how \<Rightarrow> cval \<Rightarrow> bool" where
  "py_is_convertible_const T q v = (if q = As_mutable_ref then False else py_is_convertible T v)"

fun py_unwrap :: "string \<Rightarrow> cval \<Rightarrow> cval res" where
  "py_unwrap T (CPy (Some (i, c))) =
     (if T = ty_py_object then Inr (CPy (Some (i, c)))
      else if T = ty_py then Inr (CPy (Some (i, c)))
      else case map_of c T of Some v \<Rightarrow> Inr v | None \<Rightarrow> Inl (User_exception ''pybind11::cast_error''))"
| "py_unwrap T v = Inl (runtime_error ''Does not hold a value to unwrap'')"

section \<open>Conversions\<close>

definition is_convertible_const :: "string \<Rightarrow> how \<Rightarrow> any_wrapper \<Rightarrow> bool" where
  "is_convertible_const T q w =
     (if storing_python_object' w then py_is_convertible_const T q (aw_value w)
      else if T = ty_py then q = As_value
      else if q \<in> {As_value, As_const_value, As_const_ref}
           then cval_type (aw_value w) = T
           else False)"

definition is_convertible_mut :: "string \<Rightarrow> how \<Rightarrow> any_wrapper \<Rightarrow> bool" where
  "is_convertible_mut T q w =
     (if storing_const_ref' w \<or> storing_const_value' w \<or> storing_python_object' w
      then is_convertible_const T q w
      else if T = ty_py then q = As_value
      else cval_type (aw_value w) = T)"

definition cast_error :: "string \<Rightarrow> any_wrapper \<Rightarrow> exn" where
  "cast_error T w = runtime_error
     (''Casting to type: '' @ T @ '' failed. AnyField contains an object of type: '' @ type' w @ ''.'')"

definition as_python_wrapper' :: "(cval \<Rightarrow> cval res) \<Rightarrow> any_wrapper \<Rightarrow> cval res" where
  "as_python_wrapper' pycast w =
     (if storing_python_object' w
      then if is_convertible_const ty_py As_value w then py_unwrap ty_py (aw_value w)
           else Inl (cast_error ty_py w)
      else pycast (aw_value w))"

definition cast_const :: "(cval \<Rightarrow> cval res) \<Rightarrow> string \<Rightarrow> how \<Rightarrow> any_wrapper \<Rightarrow> cval res" where
  "cast_const pycast T q w =
     (if \<not> is_convertible_const T q w then Inl (cast_error T w)
      else if storing_python_object' w then py_unwrap T (aw_value w)
      else if T = ty_py then as_python_wrapper' pycast w
      else Inr (aw_value w))"

definition cast_mut :: "(cval \<Rightarrow> cval res) \<Rightarrow> string \<Rightarrow> how \<Rightarrow> any_wrapper \<Rightarrow> cval res" where
  "cast_mut pycast T q w =
     (if \<not> is_convertible_mut T q w then Inl (cast_error T w)
      else if storing_python_object' w then py_unwrap T (aw_value w)
      else if T = ty_py then as_python_wrapper' pycast w
      else Inr (aw_value w))"

section \<open>Copies and comparisons\<close>

text \<open>The copy holds the value itself, however the original was qualified.\<close>

definition clone' :: "any_wrapper \<Rightarrow> any_wrapper res" where
  "clone' w =
     (if storing_python_object' w
      then bindR (as_python_wrapper' Inr w) (\<lambda>p. Inr \<lparr>aw_qual = By_value, aw_value = p\<rparr>)
      else bindR (cast_const Inr (type' w) As_const_ref w) (\<lambda>v. Inr \<lparr>aw_qual = By_value, aw_value = v\<rparr>))"

definition cxx_equal :: "cval \<Rightarrow> cval \<Rightarrow> bool" where
  "cxx_equal v w = (if is_py v \<or> is_py w then py_equal v w else v = w)"

definition value_equal' :: "any_wrapper \<Rightarrow> any_wrapper \<Rightarrow> bool res" where
  "value_equal' l r = noexceptR
     (if \<not> is_convertible_const (type' l) As_const_ref r then Inr False
      else bindR (cast_const Inr (type' l) As_const_ref l) (\<lambda>lv.
           bindR (cast_const Inr (type' l) As_const_ref r) (\<lambda>rv. Inr (cxx_equal lv rv))))"

definition are_equal' :: "any_wrapper \<Rightarrow> any_wrapper \<Rightarrow> bool res" where
  "are_equal' l r = noexceptR
     (if aw_qual l \<noteq> aw_qual r \<or> type' l \<noteq> type' r then Inr False
      else if storing_python_object' l
      then bindR (as_python_wrapper' Inr l) (\<lambda>lv. bindR (as_python_wrapper' Inr r) (\<lambda>rv. Inr (py_equal lv rv)))
      else bindR (cast_const Inr (type' l) As_const_ref l) (\<lambda>lv.
           bindR (cast_const Inr (type' l) As_const_ref r) (\<lambda>rv. Inr (cxx_equal lv rv))))"

definition are_equal_base :: "any_wrapper \<Rightarrow> any_wrapper \<Rightarrow> bool res" where
  "are_equal_base l r = bindR (are_equal' l r) (\<lambda>b. if b then are_equal' r l else Inr False)"

section \<open>AnyField\<close>

definition make_any_field :: "qual \<Rightarrow> cval \<Rightarrow> any_field" where
  "make_any_field q v = Some \<lparr>aw_qual = q, aw_value = v\<rparr>"

definition any_has_value :: "any_field \<Rightarrow> bool" where
  "any_has_value a \<longleftrightarrow> a \<noteq> None"

definition any_copy :: "any_field \<Rightarrow> any_field res" where
  "any_copy a = (case a of None \<Rightarrow> Inr None | Some w \<Rightarrow> bindR (clone' w) (\<lambda>w'. Inr (Some w')))"

definition any_swap :: "any_field \<Rightarrow> any_field \<Rightarrow> any_field \<times> any_field" where
  "any_swap a b = (b, a)"

definition any_reset :: "any_field \<Rightarrow> any_field" where
  "any_reset a = None"

definition any_type :: "any_field \<Rightarrow> string" where
  "any_type a = (case a of None \<Rightarrow> ''std::nullptr_t'' | Some w \<Rightarrow> type' w)"

definition any_equal :: "any_field \<Rightarrow> any_field \<Rightarrow> bool res" where
  "any_equal l r =
     (if any_has_value l \<noteq> any_has_value r then Inr False
      else case (l, r) of
        (Some lw, Some rw) \<Rightarrow> value_equal' lw rw
      | _ \<Rightarrow> Inr True)"

definition any_are_equal :: "any_field \<Rightarrow> any_field \<Rightarrow> bool res" where
  "any_are_equal l r =
     (if any_has_value l \<noteq> any_has_value r then Inr False
      else case (l, r) of
        (Some lw, Some rw) \<Rightarrow> are_equal_base lw rw
      | _ \<Rightarrow> Inr True)"

definition any_print :: "any_field \<Rightarrow> frag list" where
  "any_print a = (case a of None \<Rightarrow> [] | Some w \<Rightarrow> [Shown (aw_value w)])"

definition any_owns_value :: "any_field \<Rightarrow> bool" where
  "any_owns_value a = (case a of None \<Rightarrow> False | Some w \<Rightarrow> \<not> storing_const_ref' w)"

definition any_is_convertible :: "string \<Rightarrow> how \<Rightarrow> any_field \<Rightarrow> bool" where
  "any_is_convertible T q a = (case a of None \<Rightarrow> False | Some w \<Rightarrow> is_convertible_const T q w)"

definition any_cast_const :: "(cval \<Rightarrow> cval res) \<Rightarrow> string \<Rightarrow> how \<Rightarrow> any_field \<Rightarrow> cval res" where
  "any_cast_const pycast T q a =
     (case a of None \<Rightarrow> Inl (runtime_error ''Object to unwrap does not have a value.'')
      | Some w \<Rightarrow> cast_const pycast T q w)"

definition any_cast_mut :: "(cval \<Rightarrow> cval res) \<Rightarrow> string \<Rightarrow> how \<Rightarrow> any_field \<Rightarrow> cval res" where
  "any_cast_mut pycast T q a =
     (case a of None \<Rightarrow> Inl (runtime_error ''Object to unwrap does not have a value.'')
      | Some w \<Rightarrow> cast_mut pycast T q w)"

text \<open>\<open>lhs = rhs\<close>: the copy is made first, so a failure leaves the left side; an assignment to itself does nothing.\<close>

definition any_assign :: "bool \<Rightarrow> any_field \<Rightarrow> (any_field, unit) op" where
  "any_assign to_itself rhs lhs = (if to_itself then (Inr (), lhs)
     else case any_copy rhs of
       Inl e \<Rightarrow> (Inl e, lhs)
     | Inr c \<Rightarrow> (Inr (), snd (any_swap c lhs)))"

text \<open>The moves, which leave the field moved from without a value.\<close>

definition any_move :: "any_field \<Rightarrow> any_field \<times> any_field" where
  "any_move other = (other, None)"

definition any_not_equal :: "any_field \<Rightarrow> any_field \<Rightarrow> bool res" where
  "any_not_equal lhs rhs = bindR (any_equal lhs rhs) (\<lambda>b. Inr (\<not> b))"

text \<open>\<open>save\<close> and \<open>load\<close> make an exception and drop it; neither touches the archive or the field.\<close>

definition any_save :: "any_field \<Rightarrow> ('ar, unit) op" where
  "any_save a = retS ()"

definition any_load :: "('ar \<times> any_field, unit) op" where
  "any_load = retS ()"

section \<open>Without Python\<close>

text \<open>The stub of \<open>PythonWrapper\<close> in a build without Python support: no object of it can be made.\<close>

definition pws_error' :: "'a res" where
  "pws_error' = Inl (runtime_error (''PluginPlay was not configured with Pybind11 '' @ ''support''))"

definition pws_new :: "cval res" where
  "pws_new = pws_error'"

definition pws_from :: "cval \<Rightarrow> cval res" where
  "pws_from v = pws_error'"

definition pws_unwrap :: "string \<Rightarrow> cval res" where
  "pws_unwrap T = pws_error'"

definition pws_is_convertible :: "string \<Rightarrow> bool" where
  "pws_is_convertible T \<longleftrightarrow> False"

definition pws_equal :: "cval \<Rightarrow> cval \<Rightarrow> bool" where
  "pws_equal lhs rhs \<longleftrightarrow> True"

definition pws_not_equal :: "cval \<Rightarrow> cval \<Rightarrow> bool" where
  "pws_not_equal lhs rhs \<longleftrightarrow> False"

definition make_python_wrapper_stub :: "cval \<Rightarrow> cval res" where
  "make_python_wrapper_stub cxx_value = pws_new"

section \<open>Lemmas\<close>

text \<open>A field that holds a C++ value, the case the C++ API produces.\<close>

definition any_cxx :: "any_field \<Rightarrow> bool" where
  "any_cxx a = (case a of None \<Rightarrow> False | Some w \<Rightarrow> \<not> is_py (aw_value w) \<and> cval_ok (aw_value w))"

abbreviation any_val :: "any_field \<Rightarrow> cval" where
  "any_val a \<equiv> aw_value (the a)"

lemmas any_conv_defs = is_convertible_const_def is_convertible_mut_def 
  storing_const_ref'_def storing_const_value'_def type'_def

lemma storing_python_iff [simp]: "storing_python_object' w = is_py (aw_value w)"
  by (simp add: storing_python_object'_def)

lemma any_cxx_Some [simp]:
  "any_cxx (Some w) \<longleftrightarrow> \<not> is_py (aw_value w) \<and> cval_ok (aw_value w)"
  "\<not> any_cxx None"
  by (simp_all add: any_cxx_def)

lemma any_cxx_obtain:
  assumes "any_cxx a"
  obtains w where "a = Some w" "\<not> is_py (aw_value w)" "cval_ok (aw_value w)"
  using assms by (cases a) auto

lemma make_any_field_simps [simp]:
  "any_has_value (make_any_field q v)"
  "any_cxx (make_any_field q v) \<longleftrightarrow> \<not> is_py v \<and> cval_ok v"
  "any_val (make_any_field q v) = v"
  by (simp_all add: make_any_field_def any_has_value_def)

lemma convertible_cxx:
  assumes "\<not> is_py (aw_value w)" "T \<noteq> ty_py"
  shows "is_convertible_const T q w \<longleftrightarrow> q \<noteq> As_mutable_ref \<and> cval_type (aw_value w) = T"
    and "is_convertible_mut T q w \<longleftrightarrow>
           cval_type (aw_value w) = T \<and> (q = As_mutable_ref \<longrightarrow> aw_qual w = By_value)"
  using assms
  by (cases q; cases "aw_qual w"; auto simp: is_convertible_const_def is_convertible_mut_def
        storing_const_ref'_def storing_const_value'_def)+

lemma cast_const_cxx:
  assumes "\<not> is_py (aw_value w)" "cval_ok (aw_value w)" "T \<noteq> ty_py"
  shows "cast_const pycast T q w =
    (if q \<noteq> As_mutable_ref \<and> cval_type (aw_value w) = T then Inr (aw_value w) else Inl (cast_error T w))"
  using assms by (simp add: cast_const_def convertible_cxx)

lemma cast_self_cxx [simp]:
  assumes "\<not> is_py (aw_value w)" "cval_ok (aw_value w)"
  shows "cast_const pycast (type' w) As_const_ref w = Inr (aw_value w)"
  using assms cast_const_cxx [of w "type' w"] by (simp add: type'_def cval_type_py)

lemma clone_cxx: "\<not> is_py (aw_value w) \<Longrightarrow> cval_ok (aw_value w) \<Longrightarrow>
    clone' w = Inr \<lparr>aw_qual = By_value, aw_value = aw_value w\<rparr>"
  by (simp add: clone'_def)

lemma value_equal_cxx:
  assumes "\<not> is_py (aw_value l)" "cval_ok (aw_value l)" "\<not> is_py (aw_value r)" "cval_ok (aw_value r)"
  shows "value_equal' l r = Inr (aw_value l = aw_value r)"
proof (cases "type' l = type' r")
  case True
  then have "cast_const Inr (type' l) As_const_ref r = Inr (aw_value r)"
    using assms by simp
  moreover have "is_convertible_const (type' l) As_const_ref r"
    using assms True convertible_cxx(1) [of r "type' l"] by (simp add: type'_def cval_type_py)
  ultimately show ?thesis
    using assms by (simp add: value_equal'_def cxx_equal_def)
next
  case False
  then have "\<not> is_convertible_const (type' l) As_const_ref r"
    using assms convertible_cxx(1) [of r "type' l"] by (auto simp: type'_def cval_type_py)
  then show ?thesis using False by (auto simp: value_equal'_def type'_def)
qed

lemma any_equal_cxx: "any_cxx a \<Longrightarrow> any_cxx b \<Longrightarrow> any_equal a b = Inr (any_val a = any_val b)"
  by (cases a; cases b) (simp_all add: any_equal_def any_has_value_def value_equal_cxx)

lemma any_copy_cxx: "any_cxx a \<Longrightarrow> any_copy a = Inr (make_any_field By_value (any_val a))"
  by (cases a) (simp_all add: any_copy_def clone_cxx make_any_field_def)

text \<open>Assigning a C++ value makes the left side its owner; a failed assignment leaves it.\<close>

lemma any_assign_cxx:
  "any_cxx rhs \<Longrightarrow> any_assign False rhs lhs = (Inr (), make_any_field By_value (any_val rhs))"
  "fst (any_assign False rhs lhs) = Inl e \<Longrightarrow> snd (any_assign False rhs lhs) = lhs"
  by (auto simp: any_assign_def any_copy_cxx any_swap_def split: sum.splits)

section \<open>Properties\<close>

text \<open>Unwrapping an \<open>AnyField\<close> that wraps a C++ value returns exactly that value when it is
  asked for by its own class by value, const value or const reference, whatever the
  qualifiers it was wrapped with; asked for as any other class (but the Python wrapper) the
  cast throws \<open>std::runtime_error\<close>.  A cast never returns a wrong value.\<close>

theorem any_cast_exact:
  assumes "\<not> is_py v" and "cval_ok v" and "T \<noteq> ty_py" and "h \<noteq> As_mutable_ref"
  shows "any_cast_const pycast T h (make_any_field q v) =
    (if T = cval_type v then Inr v
     else Inl (runtime_error (''Casting to type: '' @ T @
            '' failed. AnyField contains an object of type: '' @ cval_type v @ ''.'')))"
  using assms by (simp add: any_cast_const_def make_any_field_def cast_const_cxx cast_error_def type'_def)

theorem any_cast_exact_witness:
  "any_cast_const Inr ''int'' As_const_ref (make_any_field By_const_ref (CInt 42)) = Inr (CInt 42)"
  using any_cast_exact [of "CInt 42" "''int''" As_const_ref Inr By_const_ref]
  by (simp add: ty_py_def)

text \<open>A modifiable reference to the wrapped C++ value is handed out exactly when the field
  is itself mutable and holds a value of that class by mutable value: never through a
  read-only field, nor to an object that is only referenced or held const.\<close>

theorem mutable_ref_iff:
  assumes "\<not> is_py v" and "cval_ok v" and "T \<noteq> ty_py"
  shows "((\<exists>x. any_cast_mut pycast T As_mutable_ref (make_any_field q v) = Inr x) \<longleftrightarrow>
           T = cval_type v \<and> q = By_value) \<and>
         \<not> (\<exists>x. any_cast_const pycast T As_mutable_ref (make_any_field q v) = Inr x)"
  using assms
  by (auto simp: any_cast_mut_def any_cast_const_def make_any_field_def cast_mut_def cast_const_cxx
        convertible_cxx split: if_splits)

theorem mutable_ref_iff_witness:
  "(\<exists>x. any_cast_mut Inr ''int'' As_mutable_ref (make_any_field By_value (CInt 1)) = Inr x) \<and>
   \<not> (\<exists>x. any_cast_mut Inr ''int'' As_mutable_ref (make_any_field By_const_ref (CInt 1)) = Inr x)"
  using mutable_ref_iff [of "CInt 1" "''int''" Inr By_value]
    mutable_ref_iff [of "CInt 1" "''int''" Inr By_const_ref]
  by (simp add: ty_py_def)



text \<open>\<open>operator==\<close> is not symmetric once Python objects are involved: the C++ integer 42 on
  the left equals a Python object that converts to the integer 42, but with the sides
  exchanged the two compare different.\<close>

theorem any_equal_not_symmetric:
  "any_equal (make_any_field By_value (CInt 42))
             (make_any_field By_value (CPy (Some (''42'', [(''int'', CInt 42)])))) = Inr True \<and>
   any_equal (make_any_field By_value (CPy (Some (''42'', [(''int'', CInt 42)]))))
             (make_any_field By_value (CInt 42)) = Inr False"
  by (simp add: any_equal_def any_has_value_def make_any_field_def value_equal'_def type'_def
      is_convertible_const_def py_is_convertible_const_def cast_const_def cxx_equal_def
      ty_py_def ty_py_object_def)

end
