(* ===== verification/Bounds_Checks.thy ===== *)
theory Bounds_Checks
  imports Any_Field
begin

text \<open>
  The predefined bounds checks (\<open>fields/bounds_checking/\<close>): \<open>CompareTo\<close>, \<open>InRange\<close> and
  \<open>TypeCheck\<close>, with the descriptions they print.  The functor of a \<open>CompareTo\<close> is one of the
  five comparison functors of the standard library or one of the developer's own.
  Descriptions are those of the integer instances, the arithmetic type modelled.
\<close>

section \<open>CompareTo\<close>

datatype 'a cmp_op = Not_equal_to | Greater | Less | Greater_equal | Less_equal | User_op "'a \<Rightarrow> 'a \<Rightarrow> bool"

record 'a compare_to =
  ct_op :: "'a cmp_op"
  ct_value :: 'a

fun cmp_call :: "'a::linorder cmp_op \<Rightarrow> 'a \<Rightarrow> 'a \<Rightarrow> bool" where
  "cmp_call Not_equal_to l r = (l \<noteq> r)"
| "cmp_call Greater l r = (l > r)"
| "cmp_call Less l r = (l < r)"
| "cmp_call Greater_equal l r = (l \<ge> r)"
| "cmp_call Less_equal l r = (l \<le> r)"
| "cmp_call (User_op f) l r = f l r"

definition compare_to_call :: "'a::linorder compare_to \<Rightarrow> 'a \<Rightarrow> bool" where
  "compare_to_call c lhs = cmp_call (ct_op c) lhs (ct_value c)"

definition compare_to_str :: "int compare_to \<Rightarrow> string" where
  "compare_to_str c =
     (case ct_op c of
        Not_equal_to \<Rightarrow> ''!=''
      | Greater \<Rightarrow> ''>''
      | Less \<Rightarrow> ''<''
      | Greater_equal \<Rightarrow> ''>=''
      | Less_equal \<Rightarrow> ''<=''
      | User_op f \<Rightarrow> ''<undefined operator> '') @ '' '' @ to_string (ct_value c)"

section \<open>InRange\<close>

record 'a in_range =
  ir_high :: 'a
  ir_low :: 'a

definition in_range_call :: "'a::linorder in_range \<Rightarrow> 'a \<Rightarrow> bool" where
  "in_range_call r rhs \<longleftrightarrow> ir_low r \<le> rhs \<and> rhs < ir_high r"

definition in_range_str :: "int in_range \<Rightarrow> string" where
  "in_range_str r = ''in ['' @ to_string (ir_low r) @ '', '' @ to_string (ir_high r) @ '')''"

section \<open>TypeCheck\<close>

text \<open>\<open>TypeCheck<T>\<close> for \<open>T\<close> a class, or the class made const.\<close>

definition type_check_call :: "string \<Rightarrow> bool \<Rightarrow> any_field \<Rightarrow> bool" where
  "type_check_call T cst a \<longleftrightarrow>
     any_is_convertible T (if cst then As_const_value else As_value) a \<or> any_is_convertible T As_const_ref a"

definition type_check_str :: "string \<Rightarrow> string" where
  "type_check_str T = ''Type == '' @ T"

lemma type_check_cxx:
  assumes "any_cxx a" "T \<noteq> ty_py"
  shows "type_check_call T cst a \<longleftrightarrow> cval_type (any_val a) = T"
proof -
  obtain w where "a = Some w" using assms by (cases a) auto
  then show ?thesis
    using assms by (auto simp: type_check_call_def any_is_convertible_def convertible_cxx)
qed

section \<open>Descriptions\<close>

datatype bounds_check =
    Check_compare "int compare_to"
  | Check_range "int in_range"
  | Check_other

fun print_bounds :: "bounds_check \<Rightarrow> string" where
  "print_bounds (Check_compare c) = compare_to_str c"
| "print_bounds (Check_range r) = in_range_str r"
| "print_bounds Check_other = ''''"

lemma print_bounds_nonempty: "print_bounds b = '''' \<longleftrightarrow> b = Check_other"
  by (cases b) (auto simp: compare_to_str_def in_range_str_def split: cmp_op.splits)

end
