(* ===== verification/Module_Input.thy ===== *)
theory Module_Input
  imports Bounds_Checks
begin

text \<open>
  An input field of a module: \<open>ModuleInputPIMPL\<close> (\<open>fields/detail_/module_input_pimpl\<close>) and
  the class users see, \<open>ModuleInput\<close> (\<open>fields/module_input\<close>).  A bounds check is any function of
  the type-erased value and may throw.  The templates are instantiated at run time here: the
  class \<open>T\<close> of a field is its \<open>rtti\<close> with a flag that says whether the field is a const
  reference, and an argument of \<open>change\<close> carries its value category.
  Setters that keep the strong guarantee return either the exception or the new object; one
  that does not (\<open>set_type\<close>) returns the outcome and the object it leaves.
\<close>

section \<open>ModuleInputPIMPL\<close>

type_synonym any_check = "any_field \<Rightarrow> bool res"

record module_input_pimpl =
  mip_value :: any_field
  mip_desc :: "string option"
  mip_optional :: bool
  mip_transparent :: bool
  mip_checks :: "(string, any_check) omap"
  mip_type :: "rtti option"

definition mip_new :: module_input_pimpl where
  "mip_new = \<lparr>mip_value = None, mip_desc = None, mip_optional = False, mip_transparent = False,
              mip_checks = [], mip_type = None\<rparr>"

definition mip_clone :: "module_input_pimpl \<Rightarrow> module_input_pimpl res" where
  "mip_clone p = bindR (any_copy (mip_value p)) (\<lambda>v. Inr (p\<lparr>mip_value := v\<rparr>))"

definition mip_has_type :: "module_input_pimpl \<Rightarrow> bool" where
  "mip_has_type p \<longleftrightarrow> mip_type p \<noteq> None"

definition mip_has_value :: "module_input_pimpl \<Rightarrow> bool" where
  "mip_has_value p \<longleftrightarrow> any_has_value (mip_value p)"

definition mip_has_description :: "module_input_pimpl \<Rightarrow> bool" where
  "mip_has_description p \<longleftrightarrow> mip_desc p \<noteq> None"

definition mip_is_optional :: "module_input_pimpl \<Rightarrow> bool" where
  "mip_is_optional p = mip_optional p"

definition mip_is_transparent :: "module_input_pimpl \<Rightarrow> bool" where
  "mip_is_transparent p = mip_transparent p"

definition mip_is_ready :: "module_input_pimpl \<Rightarrow> bool" where
  "mip_is_ready p \<longleftrightarrow> mip_is_optional p \<or> mip_has_value p"

definition mip_assert_type_set :: "module_input_pimpl \<Rightarrow> unit res" where
  "mip_assert_type_set p = (if \<not> mip_has_type p then Inl (runtime_error ''Must set type first'') else Inr ())"

definition mip_assert_value_set :: "module_input_pimpl \<Rightarrow> unit res" where
  "mip_assert_value_set p =
     (if \<not> mip_has_value p then Inl (runtime_error ''Value has not been set'') else Inr ())"

fun run_checks :: "(string, any_check) omap \<Rightarrow> any_field \<Rightarrow> bool res" where
  "run_checks [] a = Inr True"
| "run_checks ((k, v) # cs) a = bindR (v a) (\<lambda>ok. if \<not> ok then Inr False else run_checks cs a)"

definition mip_is_valid :: "module_input_pimpl \<Rightarrow> any_field \<Rightarrow> bool res" where
  "mip_is_valid p a = bindR (mip_assert_type_set p) (\<lambda>_. run_checks (mip_checks p) a)"

definition mip_set_type :: "rtti \<Rightarrow> module_input_pimpl \<Rightarrow> module_input_pimpl res" where
  "mip_set_type t p =
     (if mip_has_type p \<and> mip_has_value p \<and> mip_type p \<noteq> Some t
      then Inl (runtime_error ''Cannot change type after value is set.'')
      else Inr (p\<lparr>mip_type := Some t\<rparr>))"

text \<open>The names of the checks a value fails, for the message.\<close>

fun failed_checks :: "(string, any_check) omap \<Rightarrow> any_field \<Rightarrow> frag list res" where
  "failed_checks [] a = Inr []"
| "failed_checks ((x, y) # cs) a =
     bindR (y a) (\<lambda>ok. bindR (failed_checks cs a) (\<lambda>fs. Inr (if \<not> ok then Lit (x @ '' '') # fs else fs)))"

definition mip_set_value :: "any_field \<Rightarrow> module_input_pimpl \<Rightarrow> module_input_pimpl res" where
  "mip_set_value a p =
     bindR (mip_assert_type_set p) (\<lambda>_.
     bindR (mip_is_valid p a) (\<lambda>ok.
       if \<not> ok then
         bindR (failed_checks (mip_checks p) a) (\<lambda>fs.
           Inl (Invalid_argument
             (Lit ''Input value: \"'' # any_print a @ Lit ''\" has failed bounds checks: '' # fs)))
       else Inr (p\<lparr>mip_value := a\<rparr>)))"

definition mip_set_description :: "string \<Rightarrow> module_input_pimpl \<Rightarrow> module_input_pimpl" where
  "mip_set_description desc p = p\<lparr>mip_desc := Some desc\<rparr>"

definition mip_add_check :: "any_check \<Rightarrow> string \<Rightarrow> module_input_pimpl \<Rightarrow> module_input_pimpl res" where
  "mip_add_check check desc p =
     bindR (if mip_has_value p then check (mip_value p) else Inr True) (\<lambda>ok.
       if \<not> ok then Inl (invalid_argument desc)
       else Inr (p\<lparr>mip_checks := ci_emplace desc check (mip_checks p)\<rparr>))"

definition mip_make_optional :: "module_input_pimpl \<Rightarrow> module_input_pimpl" where
  "mip_make_optional p = p\<lparr>mip_optional := True\<rparr>"

definition mip_make_required :: "module_input_pimpl \<Rightarrow> module_input_pimpl" where
  "mip_make_required p = p\<lparr>mip_optional := False\<rparr>"

definition mip_make_opaque :: "module_input_pimpl \<Rightarrow> module_input_pimpl" where
  "mip_make_opaque p = p\<lparr>mip_transparent := False\<rparr>"

definition mip_make_transparent :: "module_input_pimpl \<Rightarrow> module_input_pimpl" where
  "mip_make_transparent p = p\<lparr>mip_transparent := True\<rparr>"

definition mip_get_type :: "module_input_pimpl \<Rightarrow> rtti res" where
  "mip_get_type p = bindR (mip_assert_type_set p) (\<lambda>_. opt_value (mip_type p))"

definition mip_get_value :: "module_input_pimpl \<Rightarrow> any_field res" where
  "mip_get_value p = bindR (mip_assert_value_set p) (\<lambda>_. Inr (mip_value p))"

definition mip_description :: "module_input_pimpl \<Rightarrow> string res" where
  "mip_description p = opt_value (mip_desc p)"

text \<open>\<open>std::set<type::description>\<close>, as its elements in order.\<close>

definition mip_check_descriptions :: "module_input_pimpl \<Rightarrow> string list" where
  "mip_check_descriptions p = fold (\<lambda>(x, _) rv. insort_insert x rv) (mip_checks p) []"

definition mip_equal :: "module_input_pimpl \<Rightarrow> module_input_pimpl \<Rightarrow> bool res" where
  "mip_equal lhs rhs = noexceptR
     (if mip_has_type lhs \<noteq> mip_has_type rhs then Inr False
      else if mip_has_value lhs \<noteq> mip_has_value rhs then Inr False
      else if mip_is_optional lhs \<noteq> mip_is_optional rhs then Inr False
      else if mip_is_transparent lhs \<noteq> mip_is_transparent rhs then Inr False
      else if mip_has_description lhs \<noteq> mip_has_description rhs then Inr False
      else if mip_has_type lhs \<and> mip_type lhs \<noteq> mip_type rhs then Inr False
      else bindR (if mip_has_value lhs then any_equal (mip_value lhs) (mip_value rhs) else Inr True) (\<lambda>same.
        if \<not> same then Inr False
        else if mip_has_description lhs \<and> mip_desc lhs \<noteq> mip_desc rhs then Inr False
        else Inr True))"

section \<open>ModuleInput\<close>

record module_input =
  mi_is_cref :: bool
  mi_is_actually_cref :: bool
  mi_pimpl :: module_input_pimpl

definition mi_new :: module_input where
  "mi_new = \<lparr>mi_is_cref = False, mi_is_actually_cref = False, mi_pimpl = mip_new\<rparr>"

definition mi_copy :: "module_input \<Rightarrow> module_input res" where
  "mi_copy rhs = bindR (mip_clone (mi_pimpl rhs)) (\<lambda>p. Inr (rhs\<lparr>mi_pimpl := p\<rparr>))"

text \<open>
  An argument that a template deduced: an \<open>AnyField\<close>, an lvalue, an rvalue or a string literal.
\<close>

datatype cxx_arg = Arg_any any_field | Arg_lvalue cval | Arg_rvalue cval | Arg_cstring string

abbreviation char_ptr :: cval where
  "char_ptr \<equiv> CObj ''char const*'' 0"

definition mi_wrap_value :: "module_input \<Rightarrow> cxx_arg \<Rightarrow> any_field res" where
  "mi_wrap_value mi new_value =
     (case new_value of
        Arg_any a \<Rightarrow> any_copy a
      | Arg_lvalue v \<Rightarrow> Inr (make_any_field (if mi_is_cref mi then By_const_ref else By_value) v)
      | Arg_rvalue v \<Rightarrow> Inr (make_any_field By_value v)
      | Arg_cstring s \<Rightarrow> Inr (make_any_field (if mi_is_cref mi then By_const_ref else By_value) char_ptr))"

definition mi_has_type :: "module_input \<Rightarrow> bool" where
  "mi_has_type mi = mip_has_type (mi_pimpl mi)"

definition mi_has_value :: "module_input \<Rightarrow> bool" where
  "mi_has_value mi = mip_has_value (mi_pimpl mi)"

definition mi_has_description :: "module_input \<Rightarrow> bool" where
  "mi_has_description mi = mip_has_description (mi_pimpl mi)"

definition mi_is_optional :: "module_input \<Rightarrow> bool" where
  "mi_is_optional mi = mip_is_optional (mi_pimpl mi)"

definition mi_is_transparent :: "module_input \<Rightarrow> bool" where
  "mi_is_transparent mi = mip_is_transparent (mi_pimpl mi)"

definition mi_ready :: "module_input \<Rightarrow> bool" where
  "mi_ready mi = mip_is_ready (mi_pimpl mi)"

definition mi_is_valid :: "module_input \<Rightarrow> cxx_arg \<Rightarrow> bool res" where
  "mi_is_valid mi new_value = bindR (mi_wrap_value mi new_value) (mip_is_valid (mi_pimpl mi))"

definition mi_get :: "module_input \<Rightarrow> any_field res" where
  "mi_get mi = mip_get_value (mi_pimpl mi)"

definition mi_value_const :: "(cval \<Rightarrow> cval res) \<Rightarrow> string \<Rightarrow> how \<Rightarrow> module_input \<Rightarrow> cval res" where
  "mi_value_const pycast T h mi = bindR (mi_get mi) (any_cast_const pycast T h)"

definition mi_value_mut :: "(cval \<Rightarrow> cval res) \<Rightarrow> string \<Rightarrow> how \<Rightarrow> module_input \<Rightarrow> cval res" where
  "mi_value_mut pycast T h mi =
     (if h = As_const_ref \<or> h = As_value then mi_value_const pycast T h mi
      else if mi_is_cref mi then
        Inl (runtime_error ''Input is a const ref, so you can't get it back as a modifiable reference.'')
      else bindR (mi_get mi) (any_cast_mut pycast T h))"

definition mi_description :: "module_input \<Rightarrow> string res" where
  "mi_description mi = mip_description (mi_pimpl mi)"

definition mi_check_descriptions :: "module_input \<Rightarrow> string list" where
  "mi_check_descriptions mi = mip_check_descriptions (mi_pimpl mi)"

definition mi_str :: "module_input \<Rightarrow> frag list res" where
  "mi_str mi = bindR (mi_get mi) (\<lambda>a. Inr (any_print a))"

definition mi_upd :: "(module_input_pimpl \<Rightarrow> module_input_pimpl) \<Rightarrow> module_input \<Rightarrow> module_input" where
  "mi_upd f mi = mi\<lparr>mi_pimpl := f (mi_pimpl mi)\<rparr>"

definition mi_set_description :: "string \<Rightarrow> module_input \<Rightarrow> module_input" where
  "mi_set_description desc = mi_upd (mip_set_description desc)"

definition mi_make_optional :: "module_input \<Rightarrow> module_input" where
  "mi_make_optional = mi_upd mip_make_optional"

definition mi_make_required :: "module_input \<Rightarrow> module_input" where
  "mi_make_required = mi_upd mip_make_required"

definition mi_make_transparent :: "module_input \<Rightarrow> module_input" where
  "mi_make_transparent = mi_upd mip_make_transparent"

definition mi_make_opaque :: "module_input \<Rightarrow> module_input" where
  "mi_make_opaque = mi_upd mip_make_opaque"

definition mi_change' :: "any_field \<Rightarrow> module_input \<Rightarrow> module_input res" where
  "mi_change' a mi = bindR (mip_set_value a (mi_pimpl mi)) (\<lambda>p. Inr (mi\<lparr>mi_pimpl := p\<rparr>))"

definition mi_change :: "cxx_arg \<Rightarrow> module_input \<Rightarrow> module_input res" where
  "mi_change new_value mi =
     (case new_value of
        Arg_cstring s \<Rightarrow> bindR (mi_wrap_value mi (Arg_rvalue (CStr s))) (\<lambda>a. mi_change' a mi)
      | _ \<Rightarrow> bindR (mi_wrap_value mi new_value) (\<lambda>a. mi_change' a mi))"

definition mi_set_default :: "cxx_arg \<Rightarrow> module_input \<Rightarrow> module_input res" where
  "mi_set_default new_value mi = mi_change new_value mi"

definition mi_add_check' :: "any_check \<Rightarrow> string \<Rightarrow> module_input \<Rightarrow> module_input res" where
  "mi_add_check' check desc mi =
     bindR (mip_add_check check desc (mi_pimpl mi)) (\<lambda>p. Inr (mi\<lparr>mi_pimpl := p\<rparr>))"

text \<open>\<open>add_check(validity_check<T>, desc)\<close>: the check sees the value unwrapped as a \<open>T\<close>.\<close>

definition typed_check :: "(cval \<Rightarrow> cval res) \<Rightarrow> string \<Rightarrow> (cval \<Rightarrow> bool res) \<Rightarrow> any_check" where
  "typed_check pycast T check = (\<lambda>new_value. bindR (any_cast_const pycast T As_value new_value) check)"

definition mi_add_check :: "(cval \<Rightarrow> cval res) \<Rightarrow> string \<Rightarrow> (cval \<Rightarrow> bool res) \<Rightarrow> string
    \<Rightarrow> module_input \<Rightarrow> module_input res" where
  "mi_add_check pycast T check desc = mi_add_check' (typed_check pycast T check) desc"

fun on_int :: "(int \<Rightarrow> bool) \<Rightarrow> cval \<Rightarrow> bool res" where
  "on_int f (CInt x) = Inr (f x)"
| "on_int f v = Inl Undefined_behaviour"

definition mi_add_compare :: "(cval \<Rightarrow> cval res) \<Rightarrow> int compare_to \<Rightarrow> string
    \<Rightarrow> module_input \<Rightarrow> module_input res" where
  "mi_add_compare pycast check desc =
     (let desc' = (if desc = '''' then print_bounds (Check_compare check) else desc)
      in mi_add_check pycast ''int'' (on_int (compare_to_call check)) desc')"

definition mi_add_range :: "(cval \<Rightarrow> cval res) \<Rightarrow> int in_range \<Rightarrow> string
    \<Rightarrow> module_input \<Rightarrow> module_input res" where
  "mi_add_range pycast check desc =
     (let desc' = (if desc = '''' then print_bounds (Check_range check) else desc)
      in mi_add_check pycast ''int'' (on_int (in_range_call check)) desc')"

definition mi_add_type_check :: "string \<Rightarrow> bool \<Rightarrow> module_input \<Rightarrow> module_input res" where
  "mi_add_type_check T cst =
     mi_add_check' (\<lambda>value. Inr (type_check_call T cst value)) (type_check_str T)"

definition mi_set_type' :: "rtti \<Rightarrow> module_input \<Rightarrow> module_input res" where
  "mi_set_type' t mi = bindR (mip_set_type t (mi_pimpl mi)) (\<lambda>p. Inr (mi\<lparr>mi_pimpl := p\<rparr>))"

text \<open>\<open>set_type<T>()\<close> for \<open>T\<close> a class (\<open>is_c_ref\<close> false) or a const reference to one.\<close>

definition mi_set_type :: "rtti \<Rightarrow> bool \<Rightarrow> (module_input, unit) op" where
  "mi_set_type t is_c_ref mi =
     (let mi1 = mi\<lparr>mi_is_cref := is_c_ref\<rparr> in
      case mi_set_type' t mi1 of
        Inl e \<Rightarrow> (Inl e, mi1)
      | Inr mi2 \<Rightarrow>
          (case mi_add_type_check (rt_name t) is_c_ref mi2 of
             Inl e \<Rightarrow> (Inl e, mi2)
           | Inr mi3 \<Rightarrow> (Inr (), mi3)))"

definition mi_equal :: "module_input \<Rightarrow> module_input \<Rightarrow> bool res" where
  "mi_equal lhs rhs = noexceptR (mip_equal (mi_pimpl lhs) (mi_pimpl rhs))"

section \<open>Lemmas\<close>

named_theorems mip_defs "unfolding of the pimpl accessors"

lemmas [mip_defs] = mip_has_type_def mip_has_value_def mip_has_description_def mip_is_optional_def
  mip_is_transparent_def mip_is_ready_def mip_assert_type_set_def mip_assert_value_set_def
lemmas mi_setter_defs = mi_set_description_def mi_make_optional_def mi_make_required_def
  mi_make_transparent_def mi_make_opaque_def mi_upd_def mip_set_description_def
  mip_make_optional_def mip_make_required_def mip_make_transparent_def mip_make_opaque_def

lemma run_checks_True_iff: "run_checks cs a = Inr True \<longleftrightarrow> (\<forall>(k, c) \<in> set cs. c a = Inr True)"
  by (induction cs) (auto simp: bindR_Inr_iff split: prod.splits)

lemma run_checks_total:
  "(\<And>k c. (k, c) \<in> set cs \<Longrightarrow> \<exists>b. c a = Inr b) \<Longrightarrow>
   run_checks cs a = Inr (\<forall>(k, c) \<in> set cs. c a = Inr True)"
proof (induction cs)
  case (Cons p cs)
  obtain k c where p: "p = (k, c)" by (cases p)
  obtain b where "c a = Inr b" using Cons.prems p by auto
  then show ?case using Cons by (auto simp: p)
qed simp

lemma failed_checks_total:
  "(\<And>k c. (k, c) \<in> set cs \<Longrightarrow> \<exists>b. c a = Inr b) \<Longrightarrow> \<exists>fs. failed_checks cs a = Inr fs"
proof (induction cs)
  case (Cons p cs)
  obtain k c where p: "p = (k, c)" by (cases p)
  obtain b where "c a = Inr b" using Cons.prems p by auto
  moreover obtain fs where "failed_checks cs a = Inr fs" using Cons by auto
  ultimately show ?case by (simp add: p)
qed simp

lemma mip_set_value_Inr_iff:
  "mip_set_value a p = Inr p' \<longleftrightarrow>
     mip_has_type p \<and> run_checks (mip_checks p) a = Inr True \<and> p' = p\<lparr>mip_value := a\<rparr>"
  by (auto simp: mip_set_value_def mip_is_valid_def mip_defs bindR_Inr_iff split: if_splits)

lemma mi_change'_Inr_iff:
  "mi_change' a mi = Inr mi' \<longleftrightarrow>
     mi_has_type mi \<and> run_checks (mip_checks (mi_pimpl mi)) a = Inr True \<and>
     mi' = mi_upd (\<lambda>p. p\<lparr>mip_value := a\<rparr>) mi"
  by (auto simp: mi_change'_def bindR_Inr_iff mip_set_value_Inr_iff mi_has_type_def mi_upd_def)

lemma mi_change_Inr_cases:
  assumes "mi_change x mi = Inr mi'"
  obtains a where "mi_change' a mi = Inr mi'"
  using assms by (auto simp: mi_change_def bindR_Inr_iff split: cxx_arg.splits)

lemma mip_add_check_Inr_iff:
  "mip_add_check c d p = Inr p' \<longleftrightarrow>
     (mip_has_value p \<longrightarrow> c (mip_value p) = Inr True) \<and>
     p' = p\<lparr>mip_checks := ci_emplace d c (mip_checks p)\<rparr>"
  by (auto simp: mip_add_check_def bindR_Inr_iff split: if_splits)

lemma mi_add_check'_Inr_iff:
  "mi_add_check' c d mi = Inr mi' \<longleftrightarrow>
     (mi_has_value mi \<longrightarrow> c (mip_value (mi_pimpl mi)) = Inr True) \<and>
     mi' = mi_upd (\<lambda>p. p\<lparr>mip_checks := ci_emplace d c (mip_checks p)\<rparr>) mi"
  by (auto simp: mi_add_check'_def bindR_Inr_iff mip_add_check_Inr_iff mi_has_value_def mi_upd_def)

lemma set_ci_emplace: "set (ci_emplace d c cs) \<subseteq> insert (d, c) (set cs)"
  by (auto simp: om_emplace_def set_om_ins)

lemma run_checks_emplace:
  assumes "run_checks cs a = Inr True" and "c a = Inr True"
  shows "run_checks (ci_emplace d c cs) a = Inr True"
proof -
  have "c' a = Inr True" if "(k, c') \<in> set (ci_emplace d c cs)" for k c'
    using that assms set_ci_emplace [of d c cs] unfolding run_checks_True_iff by blast
  then show ?thesis by (auto simp: run_checks_True_iff)
qed

section \<open>The life of an input field\<close>

text \<open>
  The steps a module developer or a user can make: \<open>mi_tweak\<close> is every public setter but
  \<open>set_type\<close>, whose steps include the ones that throw after changing the object.
\<close>

inductive mi_tweak :: "module_input \<Rightarrow> module_input \<Rightarrow> bool" where
  change: "mi_change x mi = Inr mi' \<Longrightarrow> mi_tweak mi mi'"
| set_default: "mi_set_default x mi = Inr mi' \<Longrightarrow> mi_tweak mi mi'"
| add_check: "mi_add_check' c d mi = Inr mi' \<Longrightarrow> mi_tweak mi mi'"
| description: "mi_tweak mi (mi_set_description d mi)"
| optional: "mi_tweak mi (mi_make_optional mi)"
| required: "mi_tweak mi (mi_make_required mi)"
| transparent: "mi_tweak mi (mi_make_transparent mi)"
| opaque: "mi_tweak mi (mi_make_opaque mi)"

inductive mi_reachable :: "module_input \<Rightarrow> bool" where
  new: "mi_reachable mi_new"
| tweak: "mi_reachable mi \<Longrightarrow> mi_tweak mi mi' \<Longrightarrow> mi_reachable mi'"
| set_type: "mi_reachable mi \<Longrightarrow> mi_set_type t c mi = (r, mi') \<Longrightarrow> mi_reachable mi'"

inductive_cases mi_tweakE: "mi_tweak mi mi'"

definition mip_inv :: "module_input_pimpl \<Rightarrow> bool" where
  "mip_inv p \<longleftrightarrow> (mip_has_value p \<longrightarrow> mip_has_type p \<and> run_checks (mip_checks p) (mip_value p) = Inr True)"

lemma mip_inv_tweak: "mi_tweak mi mi' \<Longrightarrow> mip_inv (mi_pimpl mi) \<Longrightarrow> mip_inv (mi_pimpl mi')"
proof (erule mi_tweakE, goal_cases)
  case (1 x)
  then show ?case
    by (auto elim!: mi_change_Inr_cases simp: mi_change'_Inr_iff mip_inv_def mi_has_type_def mi_upd_def mip_defs)
next
  case (2 x)
  then show ?case
    by (auto elim!: mi_change_Inr_cases simp: mi_set_default_def mi_change'_Inr_iff mip_inv_def
        mi_has_type_def mi_upd_def mip_defs)
next
  case (3 c d)
  then show ?case
    by (simp add: mi_add_check'_Inr_iff mip_inv_def mi_has_value_def mi_upd_def mip_defs run_checks_emplace)
qed (simp_all add: mi_setter_defs mip_inv_def mip_defs)

lemma mi_set_type_cases:
  assumes "mi_set_type t c mi = (r, mi')"
  obtains (rejected) "mip_type (mi_pimpl mi) \<noteq> Some t" "mi_has_value mi" "mi_has_type mi"
      "mi' = mi\<lparr>mi_is_cref := c\<rparr>" "r = Inl (runtime_error ''Cannot change type after value is set.'')"
  | (check_failed) e where "r = Inl e" "mi_has_value mi"
      "mi' = mi\<lparr>mi_is_cref := c, mi_pimpl := (mi_pimpl mi)\<lparr>mip_type := Some t\<rparr>\<rparr>"
      "mi_has_type mi \<and> mi_has_value mi \<longrightarrow> mip_type (mi_pimpl mi) = Some t"
  | (accepted) p where "r = Inr ()" "mi' = mi\<lparr>mi_is_cref := c, mi_pimpl := p\<rparr>"
      "mip_add_check (\<lambda>v. Inr (type_check_call (rt_name t) c v)) (type_check_str (rt_name t))
         ((mi_pimpl mi)\<lparr>mip_type := Some t\<rparr>) = Inr p"
      "mi_has_type mi \<and> mi_has_value mi \<longrightarrow> mip_type (mi_pimpl mi) = Some t"
proof (cases "mi_has_type mi \<and> mi_has_value mi \<and> mip_type (mi_pimpl mi) \<noteq> Some t")
  case True
  then show thesis
    using rejected assms
    by (simp add: mi_set_type_def mi_set_type'_def mip_set_type_def mi_has_type_def mi_has_value_def)
next
  case False
  let ?p = "(mi_pimpl mi)\<lparr>mip_type := Some t\<rparr>"
  let ?add = "mip_add_check (\<lambda>v. Inr (type_check_call (rt_name t) c v)) (type_check_str (rt_name t)) ?p"
  have eq: "mi_set_type' t (mi\<lparr>mi_is_cref := c\<rparr>) = Inr (mi\<lparr>mi_is_cref := c, mi_pimpl := ?p\<rparr>)"
    using False by (simp add: mi_set_type'_def mip_set_type_def mi_has_type_def mi_has_value_def)
  show thesis
  proof (cases ?add)
    case (Inl e)
    then have "mi_has_value mi"
      by (auto simp: mip_add_check_def mi_has_value_def mip_has_value_def split: if_splits)
    moreover have "r = Inl e" "mi' = mi\<lparr>mi_is_cref := c, mi_pimpl := ?p\<rparr>"
      using assms Inl by (simp_all add: mi_set_type_def eq mi_add_type_check_def mi_add_check'_def)
    ultimately show thesis using check_failed False by blast
  next
    case (Inr p)
    then have "r = Inr ()" "mi' = mi\<lparr>mi_is_cref := c, mi_pimpl := p\<rparr>"
      using assms by (simp_all add: mi_set_type_def eq mi_add_type_check_def mi_add_check'_def)
    then show thesis using accepted Inr False by blast
  qed
qed

lemma mip_inv_set_type:
  assumes "mi_set_type t c mi = (r, mi')" and "mip_inv (mi_pimpl mi)"
  shows "mip_inv (mi_pimpl mi')"
  using assms(1)
proof (cases rule: mi_set_type_cases)
  case (accepted p)
  have "run_checks (mip_checks (mi_pimpl mi)) (mip_value (mi_pimpl mi)) = Inr True" if "mi_has_value mi"
    using that assms(2) by (simp add: mip_inv_def mi_has_value_def)
  then show ?thesis
    using accepted by (simp add: mip_add_check_Inr_iff mip_inv_def mip_defs mi_has_value_def run_checks_emplace)
next
  case rejected
  then show ?thesis using assms(2) by simp
next
  case (check_failed e)
  then show ?thesis using assms(2) by (simp add: mip_inv_def mip_defs)
qed

lemma mi_reachable_inv: "mi_reachable mi \<Longrightarrow> mip_inv (mi_pimpl mi)"
proof (induction rule: mi_reachable.induct)
  case new
  show ?case by (simp add: mip_inv_def mi_new_def mip_new_def mip_defs any_has_value_def)
qed (blast intro: mip_inv_tweak mip_inv_set_type)+

section \<open>Properties\<close>



text \<open>The invariant of a field of declared class.\<close>

definition mi_typed :: "rtti \<Rightarrow> bool \<Rightarrow> module_input \<Rightarrow> bool" where
  "mi_typed t c mi \<longleftrightarrow> mip_inv (mi_pimpl mi) \<and> mip_type (mi_pimpl mi) = Some t \<and>
     (\<exists>k. (k, \<lambda>v. Inr (type_check_call (rt_name t) c v)) \<in> set (mip_checks (mi_pimpl mi)))"

lemma set_ci_emplace_mono: "x \<in> set cs \<Longrightarrow> x \<in> set (ci_emplace d c cs)"
  by (auto simp: om_emplace_def set_om_ins)

lemma mi_typed_tweak:
  assumes "mi_tweak mi mi'" and "mi_typed t c mi"
  shows "mi_typed t c mi'"
proof -
  have "mip_type (mi_pimpl mi') = mip_type (mi_pimpl mi) \<and>
    (\<forall>x \<in> set (mip_checks (mi_pimpl mi)). x \<in> set (mip_checks (mi_pimpl mi')))"
    using assms(1)
    by (cases rule: mi_tweakE)
      (auto elim!: mi_change_Inr_cases simp: mi_set_default_def mi_change'_Inr_iff
        mi_add_check'_Inr_iff mi_setter_defs set_ci_emplace_mono)
  then show ?thesis
    using assms mip_inv_tweak by (auto simp: mi_typed_def)
qed

lemma mi_typed_tweaks: "rtranclp mi_tweak mi mi' \<Longrightarrow> mi_typed t c mi \<Longrightarrow> mi_typed t c mi'"
  by (induction rule: rtranclp_induct) (auto intro: mi_typed_tweak)

lemma mi_typed_new:
  assumes "mi_set_type t c mi_new = (r, mi')"
  shows "mi_typed t c mi'"
  using assms
proof (cases rule: mi_set_type_cases)
  case (accepted p)
  moreover have "mip_inv (mi_pimpl mi')"
    using mip_inv_set_type [OF assms] mi_reachable_inv [OF mi_reachable.new] by simp
  ultimately show ?thesis
    by (auto simp: mi_typed_def mip_add_check_Inr_iff mi_new_def mip_new_def mip_defs
        om_emplace_def om_count_def)
qed (auto simp: mi_new_def mip_new_def mi_has_value_def mip_defs any_has_value_def)

text \<open>C16: Type safety of an input field.  After \<open>set_type<T>()\<close> on a fresh field, whatever sequence of
  other operations follows (values bound by value, by reference or as an \<open>AnyField\<close>, checks
  with any description, flags), a C++ value that ends up bound has class \<open>T\<close>, and the field
  returns it as a \<open>T\<close> by copy and by const reference.\<close>

theorem input_type_safe:
  assumes "mi_set_type t c mi_new = (r, mi)" and "rtranclp mi_tweak mi mi'"
    and "any_cxx (mip_value (mi_pimpl mi'))" and "rt_name t \<noteq> ty_py"
  shows "cval_type (any_val (mip_value (mi_pimpl mi'))) = rt_name t \<and>
    mi_value_const pycast (rt_name t) As_const_ref mi' = Inr (any_val (mip_value (mi_pimpl mi'))) \<and>
    mi_value_const pycast (rt_name t) As_value mi' = Inr (any_val (mip_value (mi_pimpl mi')))"
proof -
  let ?a = "mip_value (mi_pimpl mi')"
  have typed: "mi_typed t c mi'"
    using mi_typed_tweaks [OF assms(2)] mi_typed_new [OF assms(1)] by blast
  have has: "mip_has_value (mi_pimpl mi')"
    using any_cxx_obtain [OF assms(3)] by (auto simp: mip_has_value_def any_has_value_def)
  obtain w where w: "?a = Some w" "\<not> is_py (aw_value w)" "cval_ok (aw_value w)"
    using any_cxx_obtain [OF assms(3)] by blast
  have "type_check_call (rt_name t) c ?a"
    using typed has by (auto simp: mi_typed_def mip_inv_def run_checks_True_iff)
  then have "cval_type (aw_value w) = rt_name t"
    using type_check_cxx [OF assms(3,4)] w by simp
  then show ?thesis
    using w has assms(4)
    by (simp add: mi_value_const_def mi_get_def mip_get_value_def mip_assert_value_set_def
        any_cast_const_def cast_const_cxx)
qed


theorem input_type_safe_witness:
  "mi_value_const Inr ''int'' As_const_ref
     (projr (mi_change (Arg_lvalue (CInt 7)) (snd (mi_set_type (mk_rtti ''int'') True mi_new))))
   = Inr (CInt 7)"
proof -
  let ?mi = "snd (mi_set_type (mk_rtti ''int'') True mi_new)"
  let ?mi' = "projr (mi_change (Arg_lvalue (CInt 7)) ?mi)"
  have ok: "\<not> isl (mi_change (Arg_lvalue (CInt 7)) ?mi)"
    and v: "any_cxx (mip_value (mi_pimpl ?mi'))" "any_val (mip_value (mi_pimpl ?mi')) = CInt 7"
    by code_simp+
  have "rtranclp mi_tweak ?mi ?mi'"
    by (rule r_into_rtranclp [of mi_tweak, OF mi_tweak.change [OF projr_ok [OF ok]]])
  then show ?thesis
    using input_type_safe [OF surjective_pairing _ v(1), of "mk_rtti ''int''" True Inr] v(2)
    by (simp add: ty_py_def)
qed

text \<open>The checks a value fails, when none of them throws.\<close>

definition failing :: "any_field \<Rightarrow> (string, any_check) omap \<Rightarrow> string list" where
  "failing a cs = map fst (filter (\<lambda>(k, c). c a = Inr False) cs)"

definition checks_total :: "any_field \<Rightarrow> (string, any_check) omap \<Rightarrow> bool" where
  "checks_total a cs \<longleftrightarrow> list_all (\<lambda>(k, c). \<not> isl (c a)) cs"

lemma checks_total_Cons:
  "checks_total a ((k, c) # cs) \<longleftrightarrow> (\<exists>b. c a = Inr b) \<and> checks_total a cs"
  by (cases "c a") (auto simp: checks_total_def)

lemma failing_Nil [simp]: "failing a [] = []"
  by (simp add: failing_def)

lemma failing_Cons: "c a = Inr b \<Longrightarrow>
    failing a ((k, c) # cs) = (if b then failing a cs else k # failing a cs)"
  by (auto simp: failing_def)

lemma run_checks_failing: "checks_total a cs \<Longrightarrow> run_checks cs a = Inr (failing a cs = [])"
  by (induction cs) (auto simp: checks_total_Cons failing_Cons)

lemma failed_checks_failing: "checks_total a cs \<Longrightarrow>
    failed_checks cs a = Inr (map (\<lambda>k. Lit (k @ '' '')) (failing a cs))"
  by (induction cs) (auto simp: checks_total_Cons failing_Cons)

text \<open>C31: Binding a value.  Once the type is set, and as long as no check throws, \<open>change\<close>
  either binds the value and touches nothing else, when every check passes, or throws
  \<open>std::invalid_argument\<close> with a message that lists exactly the failing checks in order;
  \<open>is_valid\<close> predicts which.  (A string literal is excluded: \<open>change\<close> converts it first.)\<close>

theorem change_outcome:
  assumes "mi_has_type mi" and "mi_wrap_value mi x = Inr a" and "\<forall>s. x \<noteq> Arg_cstring s"
    and "checks_total a (mip_checks (mi_pimpl mi))"
  shows "let bad = failing a (mip_checks (mi_pimpl mi)) in
    mi_is_valid mi x = Inr (bad = []) \<and>
    mi_change x mi =
      (if bad = [] then Inr (mi_upd (\<lambda>p. p\<lparr>mip_value := a\<rparr>) mi)
       else Inl (Invalid_argument
         (Lit ''Input value: \"'' # any_print a @ Lit ''\" has failed bounds checks: '' #
          map (\<lambda>k. Lit (k @ '' '')) bad)))"
proof -
  have "mi_change x mi = bindR (mi_wrap_value mi x) (\<lambda>a. mi_change' a mi)"
    using assms(3) by (cases x) (simp_all add: mi_change_def)
  then show ?thesis
    using assms(1,2,4)
    by (simp add: Let_def mi_is_valid_def mip_is_valid_def mi_change'_def mip_set_value_def mi_upd_def
        mi_has_type_def mip_assert_type_set_def run_checks_failing failed_checks_failing)
qed

theorem change_outcome_witness:
  "let mi = projr (mi_add_range Inr \<lparr>ir_high = 10, ir_low = 0\<rparr> ''''
              (snd (mi_set_type (mk_rtti ''int'') False mi_new)))
   in mi_change (Arg_rvalue (CInt 12)) mi = Inl (Invalid_argument
        [Lit ''Input value: \"'', Shown (CInt 12), Lit ''\" has failed bounds checks: '', Lit ''in [0, 10) ''])"
proof -
  let ?mi = "projr (mi_add_range Inr \<lparr>ir_high = 10, ir_low = 0\<rparr> ''''
              (snd (mi_set_type (mk_rtti ''int'') False mi_new)))"
  let ?a = "make_any_field By_value (CInt 12)"
  have "mi_has_type ?mi" "\<not> isl (mi_wrap_value ?mi (Arg_rvalue (CInt 12)))"
    "checks_total ?a (mip_checks (mi_pimpl ?mi))"
    "failing ?a (mip_checks (mi_pimpl ?mi)) = [''in [0, 10)'']"
    by code_simp+
  moreover have "mi_wrap_value ?mi (Arg_rvalue (CInt 12)) = Inr ?a" "any_print ?a = [Shown (CInt 12)]"
    by (simp_all add: mi_wrap_value_def any_print_def make_any_field_def)
  ultimately show ?thesis using change_outcome [of ?mi "Arg_rvalue (CInt 12)" ?a] by simp
qed

text \<open>Checks are stored under their description, compared without regard to case: once a
  check has been added, adding any other under the same description (the default is the
  empty one) reports success and changes nothing, so the second check is never run.\<close>

theorem duplicate_check_dropped:
  assumes "mi_add_check' c d mi = Inr mi1" and "ci_fold d = ci_fold d'" and "\<not> mi_has_value mi"
  shows "mi_add_check' c' d' mi1 = Inr mi1"
proof -
  have "ci_find d' (ci_emplace d c (mip_checks (mi_pimpl mi))) \<noteq> None"
    using assms(2) om_find_cong_key [of ci_fold d d' "mip_checks (mi_pimpl mi)"] by (auto simp: om_simps)
  then show ?thesis
    using assms(1,3)
    by (auto simp: mi_add_check'_Inr_iff mi_has_value_def mip_has_value_def mi_upd_def
        om_emplace_def [of ci_fold d'] om_count_def)
qed

theorem duplicate_check_dropped_witness:
  "let m1 = projr (mi_add_check' (\<lambda>_. Inr True) ''Positive'' mi_new)
   in mi_add_check' (\<lambda>_. Inr False) ''positive'' m1 = Inr m1"
proof -
  have "\<not> isl (mi_add_check' (\<lambda>_. Inr True) ''Positive'' mi_new)" "\<not> mi_has_value mi_new"
    "ci_fold ''Positive'' = ci_fold ''positive''"
    by code_simp+
  then show ?thesis
    using duplicate_check_dropped [OF projr_ok, of "\<lambda>_. Inr True" "''Positive''" mi_new "''positive''"]
    by simp
qed



end
