(* ===== verification/Module_Result.thy ===== *)
theory Module_Result
  imports Module_Input
begin

text \<open>
  A result field of a module: \<open>ModuleResultPIMPL\<close> (\<open>fields/detail_/module_result_pimpl.hpp\<close>)
  and \<open>ModuleResult\<close> (\<open>fields/module_result\<close>).  The value is a shared pointer to an immutable
  \<open>AnyField\<close>, so only whether it is null and what it points to matter.  The facade's pointer
  to its PIMPL is null once the object has been moved from; dereferencing it is undefined.
\<close>

section \<open>ModuleResultPIMPL\<close>

type_synonym shared_any = "any_field option"

record module_result_pimpl =
  mrp_value :: shared_any
  mrp_desc :: "string option"
  mrp_type :: "rtti option"
  mrp_type_check :: "(any_field \<Rightarrow> bool) option"

definition mrp_new :: module_result_pimpl where
  "mrp_new = \<lparr>mrp_value = None, mrp_desc = None, mrp_type = None, mrp_type_check = None\<rparr>"

definition mrp_has_type :: "module_result_pimpl \<Rightarrow> bool" where
  "mrp_has_type p \<longleftrightarrow> mrp_type p \<noteq> None"

definition mrp_has_value :: "module_result_pimpl \<Rightarrow> bool" where
  "mrp_has_value p \<longleftrightarrow> mrp_value p \<noteq> None"

definition mrp_has_description :: "module_result_pimpl \<Rightarrow> bool" where
  "mrp_has_description p \<longleftrightarrow> mrp_desc p \<noteq> None"

definition mrp_set_type_check :: "(any_field \<Rightarrow> bool) \<Rightarrow> module_result_pimpl \<Rightarrow> module_result_pimpl" where
  "mrp_set_type_check fxn p = p\<lparr>mrp_type_check := Some fxn\<rparr>"

definition mrp_get_type :: "module_result_pimpl \<Rightarrow> rtti res" where
  "mrp_get_type p = opt_value (mrp_type p)"

definition mrp_description :: "module_result_pimpl \<Rightarrow> string res" where
  "mrp_description p = opt_value (mrp_desc p)"

definition mrp_set_type :: "rtti \<Rightarrow> module_result_pimpl \<Rightarrow> module_result_pimpl res" where
  "mrp_set_type new_type p =
     bindR (if mrp_has_value p then bindR (mrp_get_type p) (\<lambda>t. Inr (t \<noteq> new_type)) else Inr False) (\<lambda>bad.
       if bad then Inl (runtime_error ''Can't change type after value is set'')
       else Inr (p\<lparr>mrp_type := Some new_type\<rparr>))"

definition mrp_set_value :: "shared_any \<Rightarrow> module_result_pimpl \<Rightarrow> module_result_pimpl res" where
  "mrp_set_value new_value p =
     bindR (mrp_get_type p) (\<lambda>t.
       case (mrp_type_check p, new_value) of
         (Some check, Some a) \<Rightarrow>
           if \<not> check a then Inl (invalid_argument (''Value is not of type: '' @ rt_name t))
           else Inr (p\<lparr>mrp_value := new_value\<rparr>)
       | _ \<Rightarrow> Inl Undefined_behaviour)"

definition mrp_set_description :: "string \<Rightarrow> module_result_pimpl \<Rightarrow> module_result_pimpl" where
  "mrp_set_description desc p = p\<lparr>mrp_desc := Some desc\<rparr>"

definition mrp_get_value :: "module_result_pimpl \<Rightarrow> shared_any res" where
  "mrp_get_value p =
     (if mrp_has_value p then Inr (mrp_value p)
      else Inl (runtime_error ''Result does not have a bound value''))"

definition mrp_equal :: "module_result_pimpl \<Rightarrow> module_result_pimpl \<Rightarrow> bool res" where
  "mrp_equal lhs rhs =
     (if mrp_has_type lhs \<noteq> mrp_has_type rhs then Inr False
      else if mrp_has_value lhs \<noteq> mrp_has_value rhs then Inr False
      else if mrp_has_description lhs \<noteq> mrp_has_description rhs then Inr False
      else if mrp_has_type lhs \<and> mrp_type lhs \<noteq> mrp_type rhs then Inr False
      else bindR (if mrp_has_value lhs then any_equal (the (mrp_value lhs)) (the (mrp_value rhs)) else Inr True)
        (\<lambda>same. if \<not> same then Inr False
          else if mrp_has_description lhs \<and> mrp_desc lhs \<noteq> mrp_desc rhs then Inr False
          else Inr True))"

definition mrp_not_equal :: "module_result_pimpl \<Rightarrow> module_result_pimpl \<Rightarrow> bool res" where
  "mrp_not_equal lhs rhs = bindR (mrp_equal lhs rhs) (\<lambda>b. Inr (\<not> b))"

section \<open>ModuleResult\<close>

type_synonym module_result = "module_result_pimpl option"

definition mr_new :: module_result where
  "mr_new = Some mrp_new"

text \<open>\<open>m_pimpl_->\<close> on a pointer that may be null.\<close>

definition deref :: "'a option \<Rightarrow> 'a res" where
  "deref p = (case p of None \<Rightarrow> Inl Undefined_behaviour | Some x \<Rightarrow> Inr x)"

lemma deref_simps [simp]: "deref (Some x) = Inr x" "deref None = Inl Undefined_behaviour"
  by (simp_all add: deref_def)

definition mr_copy :: "module_result \<Rightarrow> module_result res" where
  "mr_copy rhs = bindR (deref rhs) (\<lambda>p. Inr (Some p))"

definition mr_has_pimpl' :: "module_result \<Rightarrow> bool" where
  "mr_has_pimpl' mr \<longleftrightarrow> mr \<noteq> None"

definition mr_has_type :: "module_result \<Rightarrow> bool" where
  "mr_has_type mr \<longleftrightarrow> mr_has_pimpl' mr \<and> mrp_has_type (the mr)"

definition mr_has_value :: "module_result \<Rightarrow> bool res" where
  "mr_has_value mr = bindR (deref mr) (\<lambda>p. Inr (mrp_has_value p))"

definition mr_has_description :: "module_result \<Rightarrow> bool res" where
  "mr_has_description mr = bindR (deref mr) (\<lambda>p. Inr (mrp_has_description p))"

definition mr_set_description :: "string \<Rightarrow> module_result \<Rightarrow> module_result res" where
  "mr_set_description desc mr = bindR (deref mr) (\<lambda>p. Inr (Some (mrp_set_description desc p)))"

definition mr_type :: "module_result \<Rightarrow> rtti res" where
  "mr_type mr = bindR (deref mr) mrp_get_type"

definition mr_description :: "module_result \<Rightarrow> string res" where
  "mr_description mr = bindR (deref mr) mrp_description"

definition mr_assert_type_set' :: "module_result \<Rightarrow> unit res" where
  "mr_assert_type_set' mr = (if mr_has_type mr then Inr () else Inl (runtime_error ''Type has not been set''))"

definition mr_pimpl' :: "module_result \<Rightarrow> module_result_pimpl" where
  "mr_pimpl' mr = (case mr of None \<Rightarrow> mrp_new | Some p \<Rightarrow> p)"

text \<open>\<open>set_type<T>()\<close>: the type check is replaced before the type, which may throw.\<close>

definition mr_set_type :: "rtti \<Rightarrow> (module_result, unit) op" where
  "mr_set_type t mr =
     (let mr1 = Some (mrp_set_type_check (type_check_call (rt_name t) False) (mr_pimpl' mr)) in
      case bindR (deref mr1) (mrp_set_type t) of
        Inl e \<Rightarrow> (Inl e, mr1)
      | Inr p \<Rightarrow> (Inr (), Some p))"

text \<open>
  The argument of \<open>change\<close>: a shared pointer, an \<open>AnyField\<close> (moved from or copied), any other
  value or a string literal.  \<open>wrap_value_\<close> is called with the last three only.
\<close>

datatype result_arg =
  Res_shared shared_any | Res_any any_field | Res_any_lvalue any_field | Res_value cval | Res_cstring string

definition mr_wrap_value' :: "result_arg \<Rightarrow> any_field res" where
  "mr_wrap_value' x = (case x of
      Res_any a \<Rightarrow> Inr a
    | Res_any_lvalue a \<Rightarrow> any_copy a
    | Res_value v \<Rightarrow> Inr (make_any_field By_value v)
    | Res_cstring s \<Rightarrow> Inr (make_any_field By_value char_ptr)
    | Res_shared s \<Rightarrow> Inl Undefined_behaviour)"

definition mr_change' :: "shared_any \<Rightarrow> module_result \<Rightarrow> module_result res" where
  "mr_change' new_value mr =
     bindR (mr_assert_type_set' mr) (\<lambda>_. bindR (deref mr) (\<lambda>p.
     bindR (mrp_set_value new_value p) (\<lambda>p'. Inr (Some p'))))"

definition mr_change :: "result_arg \<Rightarrow> module_result \<Rightarrow> module_result res" where
  "mr_change x mr = (case x of
      Res_shared s \<Rightarrow> mr_change' s mr
    | Res_cstring s \<Rightarrow> bindR (mr_wrap_value' (Res_value (CStr s))) (\<lambda>a. mr_change' (Some a) mr)
    | _ \<Rightarrow> bindR (mr_wrap_value' x) (\<lambda>a. mr_change' (Some a) mr))"

definition mr_at' :: "module_result \<Rightarrow> shared_any res" where
  "mr_at' mr = bindR (deref mr) mrp_get_value"

text \<open>\<open>value<T>()\<close>; for \<open>std::shared_ptr<const T>\<close> the value is that of \<open>const T&\<close>.\<close>

definition mr_value :: "(cval \<Rightarrow> cval res) \<Rightarrow> string \<Rightarrow> how \<Rightarrow> module_result \<Rightarrow> cval res" where
  "mr_value pycast T h mr =
     bindR (mr_at' mr) (\<lambda>s. bindR (deref s) (any_cast_const pycast T h))"

definition mr_equal :: "module_result \<Rightarrow> module_result \<Rightarrow> bool res" where
  "mr_equal lhs rhs = bindR (deref lhs) (\<lambda>l. bindR (deref rhs) (\<lambda>r. mrp_equal l r))"

section \<open>Lemmas\<close>

lemmas mr_defs = mrp_has_value_def mrp_get_type_def mr_has_type_def mr_has_pimpl'_def mr_pimpl'_def
  mr_assert_type_set'_def mrp_has_type_def

text \<open>The steps of a field whose type is \<open>t\<close>: everything but a change of type.\<close>

inductive mr_tweak :: "rtti \<Rightarrow> module_result \<Rightarrow> module_result \<Rightarrow> bool" for t where
  change: "mr_change x mr = Inr mr' \<Longrightarrow> mr_tweak t mr mr'"
| description: "mr_set_description d mr = Inr mr' \<Longrightarrow> mr_tweak t mr mr'"
| retype: "mr_set_type t mr = (r, mr') \<Longrightarrow> mr_tweak t mr mr'"

definition mr_inv :: "rtti \<Rightarrow> module_result \<Rightarrow> bool" where
  "mr_inv t mr \<longleftrightarrow> (\<exists>p. mr = Some p \<and> mrp_type p = Some t \<and>
     mrp_type_check p = Some (type_check_call (rt_name t) False) \<and>
     (\<forall>s. mrp_value p = Some s \<longrightarrow> type_check_call (rt_name t) False s))"

lemma mr_change'_Inr_iff:
  "mr_change' s mr = Inr mr' \<longleftrightarrow>
    (\<exists>p c a. mr = Some p \<and> mrp_has_type p \<and> mrp_type_check p = Some c \<and> s = Some a \<and> c a \<and>
       mr' = Some (p\<lparr>mrp_value := s\<rparr>))"
proof (cases mr)
  case (Some p)
  then show ?thesis
    by (cases "mrp_type p"; cases "mrp_type_check p"; cases s)
      (auto simp: mr_change'_def mr_defs mrp_set_value_def)
qed (simp add: mr_change'_def mr_defs)

lemma mr_change_Inr_cases:
  assumes "mr_change x mr = Inr mr'"
  obtains s where "mr_change' s mr = Inr mr'"
  using assms by (auto simp: mr_change_def bindR_Inr_iff split: result_arg.splits)

lemma mr_inv_tweak: "mr_tweak t mr mr' \<Longrightarrow> mr_inv t mr \<Longrightarrow> mr_inv t mr'"
proof (induction rule: mr_tweak.induct)
  case (change x mr mr')
  then show ?case by (elim mr_change_Inr_cases) (auto simp: mr_inv_def mr_change'_Inr_iff)
next
  case (description d mr mr')
  then show ?case by (auto simp: mr_inv_def mr_set_description_def mrp_set_description_def)
next
  case (retype mr r mr')
  then obtain p where "mr = Some p" and p: "mrp_type p = Some t"
    "mrp_type_check p = Some (type_check_call (rt_name t) False)"
    "\<forall>s. mrp_value p = Some s \<longrightarrow> type_check_call (rt_name t) False s"
    by (auto simp: mr_inv_def)
  then show ?case
    using retype(1)
    by (cases "mrp_value p") (auto simp: mr_inv_def mr_set_type_def mrp_set_type_check_def mrp_set_type_def mr_defs)
qed

lemma mr_inv_tweaks: "rtranclp (mr_tweak t) mr mr' \<Longrightarrow> mr_inv t mr \<Longrightarrow> mr_inv t mr'"
  by (induction rule: rtranclp_induct) (auto intro: mr_inv_tweak)

lemma mr_inv_new: "mr_set_type t mr_new = (r, mr) \<Longrightarrow> mr_inv t mr"
  by (auto simp: mr_inv_def mr_set_type_def mr_new_def mrp_new_def mrp_set_type_check_def
      mrp_set_type_def mr_defs)

section \<open>Properties\<close>

text \<open>C33: Type safety of a result field.  Once \<open>set_type<T>()\<close> has been called on a fresh result,
  whatever is bound to it afterwards and however, a C++ value it returns has class \<open>T\<close> and
  is returned as a \<open>T\<close> by copy and by const reference.\<close>

theorem result_type_safe:
  assumes "mr_set_type t mr_new = (r, mr)" and "rtranclp (mr_tweak t) mr mr'"
    and "mr_at' mr' = Inr (Some a)" and "any_cxx a" and "rt_name t \<noteq> ty_py"
  shows "cval_type (any_val a) = rt_name t \<and>
    mr_value pycast (rt_name t) As_const_ref mr' = Inr (any_val a) \<and>
    mr_value pycast (rt_name t) As_value mr' = Inr (any_val a)"
proof -
  obtain w where w: "a = Some w" "\<not> is_py (aw_value w)" "cval_ok (aw_value w)"
    using any_cxx_obtain [OF assms(4)] by blast
  have "mr_inv t mr'" using mr_inv_tweaks [OF assms(2)] mr_inv_new [OF assms(1)] by blast
  then have "type_check_call (rt_name t) False a"
    using assms(3) by (auto simp: mr_inv_def mr_at'_def mrp_get_value_def split: if_splits)
  then have "cval_type (aw_value w) = rt_name t"
    using type_check_cxx [OF assms(4,5)] w by simp
  then show ?thesis
    using w assms(3,5) by (simp add: mr_value_def any_cast_const_def cast_const_cxx)
qed

theorem result_type_safe_witness:
  "mr_value Inr ''int'' As_value
     (projr (mr_change (Res_value (CInt 42)) (snd (mr_set_type (mk_rtti ''int'') mr_new)))) = Inr (CInt 42)"
proof -
  let ?mr = "snd (mr_set_type (mk_rtti ''int'') mr_new)"
  let ?mr' = "projr (mr_change (Res_value (CInt 42)) ?mr)"
  have ok: "\<not> isl (mr_change (Res_value (CInt 42)) ?mr)" "\<not> isl (mr_at' ?mr')" by code_simp+
  have v: "mr_at' ?mr' = Inr (Some (make_any_field By_value (CInt 42)))"
    by (simp add: mr_set_type_def mr_new_def mrp_new_def mrp_set_type_check_def mrp_set_type_def
        mr_defs mr_change_def mr_wrap_value'_def mr_change'_def mrp_set_value_def type_check_cxx
        ty_py_def mr_at'_def mrp_get_value_def)
  have step: "rtranclp (mr_tweak (mk_rtti ''int'')) ?mr ?mr'"
    by (rule r_into_rtranclp [of "mr_tweak (mk_rtti ''int'')", OF mr_tweak.change [OF projr_ok [OF ok(1)]]])
  show ?thesis
    using result_type_safe [OF surjective_pairing step v, of Inr] by (simp add: ty_py_def)
qed

text \<open>\<open>ModuleResult::set_type\<close> installs the new type check before it finds out that the type
  may not change: for a result of type \<open>T\<close> with a bound value, \<open>set_type<U>()\<close> throws and
  \<open>type()\<close> still answers \<open>T\<close>, but from then on the result rejects every \<open>T\<close> and accepts every \<open>U\<close>.\<close>

theorem result_set_type_not_strong:
  assumes "mr = Some p" and "mrp_type p = Some t" and "mrp_has_value p"
    and "rt_name u \<noteq> rt_name t" and "rt_name u \<noteq> ty_py"
    and "\<not> is_py x" "cval_ok x" "cval_type x = rt_name u"
    and "\<not> is_py y" "cval_ok y" "cval_type y = rt_name t"
  shows "\<exists>mr'. mr_set_type u mr = (Inl (runtime_error ''Can't change type after value is set''), mr') \<and>
    mr_type mr' = Inr t \<and>
    (\<exists>mr''. mr_change (Res_value x) mr' = Inr mr'' \<and> mr_value pycast (rt_name u) As_value mr'' = Inr x) \<and>
    mr_change (Res_value y) mr' = Inl (invalid_argument (''Value is not of type: '' @ rt_name t))"
proof -
  let ?p = "mrp_set_type_check (type_check_call (rt_name u) False) p"
  have "mr_set_type u mr = (Inl (runtime_error ''Can't change type after value is set''), Some ?p)"
    using assms by (auto simp: mr_set_type_def mr_defs mrp_set_type_def mrp_set_type_check_def)
  moreover have "type_check_call (rt_name u) False (make_any_field By_value x)"
    "\<not> type_check_call (rt_name u) False (make_any_field By_value y)"
    using assms by (simp_all add: type_check_cxx)
  moreover have "any_cast_const pycast (rt_name u) As_value (make_any_field By_value x) = Inr x"
    using assms by (simp add: any_cast_const_def make_any_field_def cast_const_cxx)
  ultimately show ?thesis
    using assms by (simp add: mr_type_def mr_change_def mr_change'_def mr_wrap_value'_def mr_defs
        mrp_set_type_check_def mrp_set_value_def mr_value_def mr_at'_def mrp_get_value_def)
qed

theorem result_set_type_not_strong_witness:
  "let mr = projr (mr_change (Res_value (CInt 1)) (snd (mr_set_type (mk_rtti ''int'') mr_new)))
   in \<exists>mr'. mr_set_type (mk_rtti ''bool'') mr =
          (Inl (runtime_error ''Can't change type after value is set''), mr') \<and> mr_type mr' = Inr (mk_rtti ''int'')"
proof -
  let ?mr = "projr (mr_change (Res_value (CInt 1)) (snd (mr_set_type (mk_rtti ''int'') mr_new)))"
  have "?mr \<noteq> None" "mrp_type (the ?mr) = Some (mk_rtti ''int'')" "mrp_has_value (the ?mr)"
    by code_simp+
  then have m: "?mr = Some (the ?mr)" "mrp_type (the ?mr) = Some (mk_rtti ''int'')" "mrp_has_value (the ?mr)"
    by simp_all
  show ?thesis
    using result_set_type_not_strong [OF m, of "mk_rtti ''bool''" "CBool True" "CInt 1"]
    by (auto simp: ty_py_def Let_def)
qed

end
