(* ===== verification/Property_Type.thy ===== *)
theory Property_Type
  imports Module_Result
begin

text \<open>
  Property types, the APIs modules satisfy (\<open>property_type/\<close>): \<open>FieldTuple\<close>, the
  ordered fields of an API, \<open>PropertyType\<close>, its inheritance and the wrapping of arguments
  into maps of fields, and \<open>PythonOnlyPropertyType\<close>.  The compile-time list of types of a
  tuple is part of the model's value; \<open>new_elem\<close> makes an \<open>ElementType\<close> with a type set.
\<close>

type_synonym input_map = "(string, module_input) omap"
type_synonym result_map = "(string, module_result) omap"

section \<open>FieldTuple\<close>

text \<open>A class, or a const reference to it.\<close>

record field_type =
  fty_rtti :: rtti
  fty_cref :: bool

record 'e field_tuple =
  ft_types :: "field_type list"
  ft_values :: "(string \<times> 'e) list"

definition ft_empty :: "'e field_tuple" where
  "ft_empty = \<lparr>ft_types = [], ft_values = []\<rparr>"

definition ft_size :: "'e field_tuple \<Rightarrow> nat" where
  "ft_size ft = length (ft_types ft)"

definition ft_count :: "string \<Rightarrow> 'e field_tuple \<Rightarrow> nat" where
  "ft_count key ft = (if list_ex (\<lambda>(k, v). k = key) (ft_values ft) then 1 else 0)"

fun position_loop :: "string \<Rightarrow> nat \<Rightarrow> (string \<times> 'e) list \<Rightarrow> nat res" where
  "position_loop key i [] = Inl (out_of_range (''Key '' @ key @ '' not found.''))"
| "position_loop key i ((k, v) # vs) = (if k = key then Inr i else position_loop key (Suc i) vs)"

definition ft_position' :: "string \<Rightarrow> 'e field_tuple \<Rightarrow> nat res" where
  "ft_position' key ft = position_loop key 0 (ft_values ft)"

definition ft_at :: "string \<Rightarrow> 'e field_tuple \<Rightarrow> 'e res" where
  "ft_at key ft = bindR (ft_position' key ft) (\<lambda>i.
     if i < length (ft_values ft) then Inr (snd (ft_values ft ! i)) else Inl (Out_of_range []))"

definition ft_add_field' :: "string \<Rightarrow> 'e \<Rightarrow> 'e field_tuple \<Rightarrow> (string \<times> 'e) list" where
  "ft_add_field' key val ft = ft_values ft @ [(key, val)]"

definition ft_add_field :: "(field_type \<Rightarrow> 'e res) \<Rightarrow> field_type \<Rightarrow> string \<Rightarrow> 'e field_tuple \<Rightarrow> 'e field_tuple res" where
  "ft_add_field new_elem T key ft =
     (if ft_count key ft > 0 then Inl (invalid_argument (''Key: '' @ key @ '' already exists.''))
      else bindR (new_elem T) (\<lambda>elem.
        Inr \<lparr>ft_types = ft_types ft @ [T], ft_values = ft_add_field' key elem ft\<rparr>))"

text \<open>\<open>set_default\<close> on the last field; it does not compile for a tuple without fields.\<close>

definition ft_set_default :: "cxx_arg \<Rightarrow> module_input field_tuple \<Rightarrow> module_input field_tuple res" where
  "ft_set_default val ft =
     (case rev (ft_values ft) of
        [] \<Rightarrow> Inl Undefined_behaviour
      | (k, e) # rest \<Rightarrow> bindR (mi_set_default val e) (\<lambda>e'. Inr (ft\<lparr>ft_values := rev rest @ [(k, e')]\<rparr>)))"

definition ft_add_field_default :: "(field_type \<Rightarrow> module_input res) \<Rightarrow> field_type \<Rightarrow> string \<Rightarrow> cxx_arg
    \<Rightarrow> module_input field_tuple \<Rightarrow> module_input field_tuple res" where
  "ft_add_field_default new_elem T key val ft =
     bindR (ft_add_field new_elem T key ft) (ft_set_default val)"

definition new_input :: "field_type \<Rightarrow> module_input res" where
  "new_input T = (case mi_set_type (fty_rtti T) (fty_cref T) mi_new of (Inl e, i) \<Rightarrow> Inl e | (Inr _, i) \<Rightarrow> Inr i)"

definition new_result :: "field_type \<Rightarrow> module_result res" where
  "new_result T = (case mr_set_type (fty_rtti T) mr_new of (Inl e, r) \<Rightarrow> Inl e | (Inr _, r) \<Rightarrow> Inr r)"

text \<open>\<open>v.value<T>()\<close> passed on: a const reference is an lvalue, a copy an rvalue.\<close>

definition as_arg :: "field_type \<Rightarrow> cval \<Rightarrow> cxx_arg" where
  "as_arg T v = (if fty_cref T then Arg_lvalue v else Arg_rvalue v)"

definition value_how :: "field_type \<Rightarrow> how" where
  "value_how T = (if fty_cref T then As_const_ref else As_value)"

fun union_guts_input :: "(cval \<Rightarrow> cval res) \<Rightarrow> module_input field_tuple
    \<Rightarrow> field_type list \<Rightarrow> (string \<times> module_input) list \<Rightarrow> module_input field_tuple res" where
  "union_guts_input pycast lhs (T # Ts) ((k, v) # vs) =
     bindR (ft_add_field new_input T k lhs) (\<lambda>rv.
     bindR (if mi_has_value v
            then bindR (mi_value_const pycast (rt_name (fty_rtti T)) (value_how T) v) (\<lambda>x. ft_set_default (as_arg T x) rv)
            else Inr rv) (\<lambda>rv'.
     union_guts_input pycast rv' Ts vs))"
| "union_guts_input pycast lhs Ts vs = Inr lhs"

fun union_guts_result :: "module_result field_tuple \<Rightarrow> field_type list \<Rightarrow> (string \<times> module_result) list
    \<Rightarrow> module_result field_tuple res" where
  "union_guts_result lhs (T # Ts) ((k, v) # vs) =
     bindR (ft_add_field new_result T k lhs) (\<lambda>rv. union_guts_result rv Ts vs)"
| "union_guts_result lhs Ts vs = Inr lhs"

definition ft_plus_input :: "(cval \<Rightarrow> cval res) \<Rightarrow> module_input field_tuple \<Rightarrow> module_input field_tuple
    \<Rightarrow> module_input field_tuple res" where
  "ft_plus_input pycast lhs rhs = union_guts_input pycast lhs (ft_types rhs) (ft_values rhs)"

definition ft_plus_result :: "module_result field_tuple \<Rightarrow> module_result field_tuple \<Rightarrow> module_result field_tuple res" where
  "ft_plus_result lhs rhs = union_guts_result lhs (ft_types rhs) (ft_values rhs)"

text \<open>\<open>std::equal\<close> over the pairs; tuples of other types are different.\<close>

fun pairs_equal :: "('e \<Rightarrow> 'e \<Rightarrow> bool res) \<Rightarrow> (string \<times> 'e) list \<Rightarrow> (string \<times> 'e) list \<Rightarrow> bool res" where
  "pairs_equal eq ((k, v) # xs) ((k', v') # ys) =
     bindR (if k = k' then eq v v' else Inr False) (\<lambda>b. if b then pairs_equal eq xs ys else Inr False)"
| "pairs_equal eq xs ys = Inr True"

definition ft_equal :: "('e \<Rightarrow> 'e \<Rightarrow> bool res) \<Rightarrow> 'e field_tuple \<Rightarrow> 'e field_tuple \<Rightarrow> bool res" where
  "ft_equal eq lhs rhs =
     (if ft_types lhs \<noteq> ft_types rhs then Inr False else pairs_equal eq (ft_values lhs) (ft_values rhs))"

definition ft_not_equal :: "('e \<Rightarrow> 'e \<Rightarrow> bool res) \<Rightarrow> 'e field_tuple \<Rightarrow> 'e field_tuple \<Rightarrow> bool res" where
  "ft_not_equal eq lhs rhs = bindR (ft_equal eq lhs rhs) (\<lambda>b. Inr (\<not> b))"

section \<open>PropertyType\<close>

text \<open>A property type: its RTTI, what the two hooks return, and the property type it derives from.\<close>

datatype property_type =
  Property_type (pt_rtti: rtti) (pt_inputs': "module_input field_tuple") (pt_results': "module_result field_tuple")
    (pt_base: "property_type option")

fun pt_bases :: "property_type \<Rightarrow> rtti list" where
  "pt_bases (Property_type t i r None) = []"
| "pt_bases (Property_type t i r (Some b)) = pt_rtti b # pt_bases b"

fun pt_inputs :: "(cval \<Rightarrow> cval res) \<Rightarrow> property_type \<Rightarrow> module_input field_tuple res" where
  "pt_inputs pycast (Property_type t i r None) = Inr i"
| "pt_inputs pycast (Property_type t i r (Some b)) = bindR (pt_inputs pycast b) (ft_plus_input pycast i)"

fun pt_results :: "property_type \<Rightarrow> module_result field_tuple res" where
  "pt_results (Property_type t i r None) = Inr r"
| "pt_results (Property_type t i r (Some b)) = bindR (pt_results b) (ft_plus_result r)"

text \<open>
  An argument of \<open>wrap_inputs\<close>: an \<open>AnyField\<close>, or a value after the conversion to the type of
  the field at its position (the compiler refuses one that does not convert, and more
  arguments than fields).
\<close>

datatype pt_arg = Pa_any any_field | Pa_value cval

definition pt_cxx_arg :: "field_type \<Rightarrow> pt_arg \<Rightarrow> cxx_arg" where
  "pt_cxx_arg T a = (case a of Pa_any f \<Rightarrow> Arg_any f | Pa_value v \<Rightarrow> as_arg T v)"

definition pt_result_arg :: "pt_arg \<Rightarrow> result_arg" where
  "pt_result_arg a = (case a of Pa_any f \<Rightarrow> Res_any f | Pa_value v \<Rightarrow> Res_value v)"

definition im_change :: "string \<Rightarrow> cxx_arg \<Rightarrow> input_map \<Rightarrow> input_map res" where
  "im_change key x im = bindR (ci_at key im) (\<lambda>i. bindR (mi_change x i) (\<lambda>i'. Inr (ci_set key i' im)))"

definition rm_change :: "string \<Rightarrow> result_arg \<Rightarrow> result_map \<Rightarrow> result_map res" where
  "rm_change key x rm = bindR (ci_at key rm) (\<lambda>r. bindR (mr_change x r) (\<lambda>r'. Inr (ci_set key r' rm)))"

fun wrap_guts_input :: "field_type list \<Rightarrow> (string \<times> module_input) list \<Rightarrow> pt_arg list
    \<Rightarrow> input_map \<Rightarrow> input_map res" where
  "wrap_guts_input (T # Ts) ((key, v) # vs) (a # args) rv =
     bindR (im_change key (pt_cxx_arg T a) rv) (wrap_guts_input Ts vs args)"
| "wrap_guts_input Ts vs args rv = Inr rv"

fun wrap_guts_result :: "field_type list \<Rightarrow> (string \<times> module_result) list \<Rightarrow> pt_arg list
    \<Rightarrow> result_map \<Rightarrow> result_map res" where
  "wrap_guts_result (T # Ts) ((key, v) # vs) (a # args) rv =
     bindR (rm_change key (pt_result_arg a) rv) (wrap_guts_result Ts vs args)"
| "wrap_guts_result Ts vs args rv = Inr rv"

definition pt_wrap_inputs :: "(cval \<Rightarrow> cval res) \<Rightarrow> property_type \<Rightarrow> input_map \<Rightarrow> pt_arg list \<Rightarrow> input_map res" where
  "pt_wrap_inputs pycast pt rv args =
     bindR (pt_inputs pycast pt) (\<lambda>ft. wrap_guts_input (ft_types ft) (ft_values ft) args rv)"

definition pt_wrap_results :: "property_type \<Rightarrow> result_map \<Rightarrow> pt_arg list \<Rightarrow> result_map res" where
  "pt_wrap_results pt rv args =
     bindR (pt_results pt) (\<lambda>ft. wrap_guts_result (ft_types ft) (ft_values ft) args rv)"

fun unwrap_guts_input :: "(cval \<Rightarrow> cval res) \<Rightarrow> field_type list \<Rightarrow> (string \<times> module_input) list
    \<Rightarrow> input_map \<Rightarrow> cval list res" where
  "unwrap_guts_input pycast (T # Ts) ((key, v) # vs) rv =
     bindR (ci_at key rv) (\<lambda>i.
     bindR (mi_value_const pycast (rt_name (fty_rtti T)) (value_how T) i) (\<lambda>x.
     bindR (unwrap_guts_input pycast Ts vs rv) (\<lambda>xs. Inr (x # xs))))"
| "unwrap_guts_input pycast Ts vs rv = Inr []"

fun unwrap_guts_result :: "(cval \<Rightarrow> cval res) \<Rightarrow> field_type list \<Rightarrow> (string \<times> module_result) list
    \<Rightarrow> result_map \<Rightarrow> cval list res" where
  "unwrap_guts_result pycast (T # Ts) ((key, v) # vs) rv =
     bindR (ci_at key rv) (\<lambda>r.
     bindR (mr_value pycast (rt_name (fty_rtti T)) (value_how T) r) (\<lambda>x.
     bindR (unwrap_guts_result pycast Ts vs rv) (\<lambda>xs. Inr (x # xs))))"
| "unwrap_guts_result pycast Ts vs rv = Inr []"

definition pt_unwrap_inputs :: "(cval \<Rightarrow> cval res) \<Rightarrow> property_type \<Rightarrow> input_map \<Rightarrow> cval list res" where
  "pt_unwrap_inputs pycast pt rv =
     bindR (pt_inputs pycast pt) (\<lambda>ft. unwrap_guts_input pycast (ft_types ft) (ft_values ft) rv)"

definition pt_unwrap_results :: "(cval \<Rightarrow> cval res) \<Rightarrow> property_type \<Rightarrow> result_map \<Rightarrow> cval list res" where
  "pt_unwrap_results pycast pt rv =
     bindR (pt_results pt) (\<lambda>ft. unwrap_guts_result pycast (ft_types ft) (ft_values ft) rv)"

section \<open>PythonOnlyPropertyType\<close>

record py_property_type =
  ppt_name :: string
  ppt_inputs :: input_map
  ppt_results :: result_map
  ppt_input_order :: "string list"
  ppt_result_order :: "string list"

definition ppt_new :: "string \<Rightarrow> py_property_type" where
  "ppt_new name = \<lparr>ppt_name = name, ppt_inputs = [], ppt_results = [], ppt_input_order = [], ppt_result_order = []\<rparr>"

definition ppt_declare_input :: "string \<Rightarrow> py_property_type \<Rightarrow> py_property_type res" where
  "ppt_declare_input key p =
     (let i0 = (case ci_find key (ppt_inputs p) of None \<Rightarrow> mi_new | Some i \<Rightarrow> i) in
      case mi_set_type (mk_rtti ty_py) False i0 of
        (Inl e, i) \<Rightarrow> Inl e
      | (Inr _, i) \<Rightarrow>
          Inr (p\<lparr>ppt_inputs := ci_set key i (ppt_inputs p), ppt_input_order := ppt_input_order p @ [key]\<rparr>))"

definition ppt_declare_result :: "string \<Rightarrow> py_property_type \<Rightarrow> py_property_type res" where
  "ppt_declare_result key p =
     (let r0 = (case ci_find key (ppt_results p) of None \<Rightarrow> mr_new | Some r \<Rightarrow> r) in
      case mr_set_type (mk_rtti ty_py) r0 of
        (Inl e, r) \<Rightarrow> Inl e
      | (Inr _, r) \<Rightarrow>
          Inr (p\<lparr>ppt_results := ci_set key r (ppt_results p), ppt_result_order := ppt_result_order p @ [key]\<rparr>))"

text \<open>The arguments are Python objects.\<close>

definition ppt_wrap_inputs :: "py_property_type \<Rightarrow> input_map \<Rightarrow> cval list \<Rightarrow> input_map res" where
  "ppt_wrap_inputs p rv args =
     (if length args \<noteq> length (ppt_input_order p)
      then Inl (runtime_error (''PythonOnlyPropertyType \"'' @ ppt_name p @ ''\": wrong number of positional inputs''))
      else foldR (\<lambda>(key, a). im_change key (Arg_rvalue a)) (zip (ppt_input_order p) args) rv)"

definition ppt_wrap_results :: "py_property_type \<Rightarrow> result_map \<Rightarrow> cval list \<Rightarrow> result_map res" where
  "ppt_wrap_results p rv args =
     (if length args \<noteq> length (ppt_result_order p)
      then Inl (runtime_error (''PythonOnlyPropertyType \"'' @ ppt_name p @ ''\": wrong number of positional results''))
      else foldR (\<lambda>(key, a). rm_change key (Res_value a)) (zip (ppt_result_order p) args) rv)"

definition ppt_unwrap_inputs :: "(cval \<Rightarrow> cval res) \<Rightarrow> py_property_type \<Rightarrow> input_map \<Rightarrow> cval list res" where
  "ppt_unwrap_inputs pycast p im =
     mapR (\<lambda>key. bindR (ci_at key im) (mi_value_const pycast ty_py As_value)) (ppt_input_order p)"

definition ppt_unwrap_results :: "(cval \<Rightarrow> cval res) \<Rightarrow> py_property_type \<Rightarrow> result_map \<Rightarrow> cval list res" where
  "ppt_unwrap_results pycast p rm =
     mapR (\<lambda>key. bindR (ci_at key rm) (mr_value pycast ty_py As_value)) (ppt_result_order p)"

section \<open>Lemmas\<close>

definition fresh_input :: "field_type \<Rightarrow> module_input" where
  "fresh_input T = \<lparr>mi_is_cref = fty_cref T, mi_is_actually_cref = False,
     mi_pimpl = mip_new\<lparr>mip_type := Some (fty_rtti T), mip_checks :=
       [(type_check_str (rt_name (fty_rtti T)),
         \<lambda>v. Inr (type_check_call (rt_name (fty_rtti T)) (fty_cref T) v))]\<rparr>\<rparr>"

lemma new_input_eq: "new_input T = Inr (fresh_input T)"
  by (simp add: new_input_def fresh_input_def mi_set_type_def mi_set_type'_def mip_set_type_def mi_new_def
      mip_new_def mi_add_type_check_def mi_add_check'_def mip_add_check_def mip_defs om_emplace_def
      om_count_def any_has_value_def)

definition arg_qual :: "field_type \<Rightarrow> qual" where
  "arg_qual T = (if fty_cref T then By_const_ref else By_value)"

lemma fresh_input_change:
  assumes "\<not> is_py x" "cval_ok x" "cval_type x = rt_name (fty_rtti T)"
  shows "mi_change (as_arg T x) (fresh_input T) =
    Inr (mi_upd (\<lambda>p. p\<lparr>mip_value := make_any_field (arg_qual T) x\<rparr>) (fresh_input T))"
proof -
  have "cval_type x \<noteq> ty_py" using assms(1,2) cval_type_py [of x] by blast
  then have "type_check_call (rt_name (fty_rtti T)) cst (make_any_field q x)" for cst q
    using assms by (simp add: type_check_cxx)
  then show ?thesis
    by (simp add: as_arg_def mi_change_def mi_wrap_value_def arg_qual_def fresh_input_def mi_change'_def
        mip_set_value_def mip_defs mip_is_valid_def mi_upd_def)
qed

lemma mi_value_const_cxx:
  assumes "mip_value (mi_pimpl i) = make_any_field q x" "\<not> is_py x" "cval_ok x" "cval_type x = T"
  shows "mi_value_const pycast T (value_how ty) i = Inr x"
proof -
  have "T \<noteq> ty_py" using assms by (metis cval_type_py)
  then show ?thesis
    using assms by (simp add: mi_value_const_def mi_get_def mip_get_value_def mip_defs any_cast_const_def
        make_any_field_def any_has_value_def cast_const_cxx value_how_def)
qed

text \<open>A field whose default, when it has one, is a C++ value of the field's class.\<close>

definition default_ok :: "field_type \<Rightarrow> module_input \<Rightarrow> bool" where
  "default_ok T v \<longleftrightarrow> (mi_has_value v \<longrightarrow> (\<exists>q x. mip_value (mi_pimpl v) = make_any_field q x \<and>
     \<not> is_py x \<and> cval_ok x \<and> cval_type x = rt_name (fty_rtti T)))"

text \<open>What a field of the right-hand side becomes in a union.\<close>

definition rebuilt :: "field_type \<Rightarrow> module_input \<Rightarrow> module_input" where
  "rebuilt T v = (if mi_has_value v
     then mi_upd (\<lambda>p. p\<lparr>mip_value := make_any_field (arg_qual T) (any_val (mip_value (mi_pimpl v)))\<rparr>) (fresh_input T)
     else fresh_input T)"

lemma ft_count_eq: "ft_count key ft = (if key \<in> fst ` set (ft_values ft) then 1 else 0)"
  by (force simp: ft_count_def list_ex_iff)

lemma union_step:
  assumes "default_ok T v" "k \<notin> fst ` set (ft_values lhs)"
  shows "union_guts_input pycast lhs (T # Ts) ((k, v) # vs) =
    union_guts_input pycast \<lparr>ft_types = ft_types lhs @ [T], ft_values = ft_values lhs @ [(k, rebuilt T v)]\<rparr> Ts vs"
proof -
  let ?rv = "\<lparr>ft_types = ft_types lhs @ [T], ft_values = ft_values lhs @ [(k, fresh_input T)]\<rparr>"
  have add: "ft_add_field new_input T k lhs = Inr ?rv"
    using assms(2) by (simp add: ft_add_field_def ft_count_eq new_input_eq ft_add_field'_def)
  show ?thesis
  proof (cases "mi_has_value v")
    case True
    then obtain q x where v: "mip_value (mi_pimpl v) = make_any_field q x" "\<not> is_py x" "cval_ok x"
        "cval_type x = rt_name (fty_rtti T)"
      using assms(1) by (auto simp: default_ok_def)
    have "mi_value_const pycast (rt_name (fty_rtti T)) (value_how T) v = Inr x"
      using mi_value_const_cxx [OF v] .
    moreover have "ft_set_default (as_arg T x) ?rv =
        Inr \<lparr>ft_types = ft_types lhs @ [T], ft_values = ft_values lhs @ [(k, rebuilt T v)]\<rparr>"
      using fresh_input_change [OF v(2-4)] v(1) True
      by (simp add: ft_set_default_def mi_set_default_def rebuilt_def)
    ultimately show ?thesis using True add by simp
  qed (simp add: add rebuilt_def)
qed

lemma union_guts_input_ok:
  "\<lbrakk>list_all2 (\<lambda>T (k, v). default_ok T v) Ts vs; distinct (map fst vs);
    fst ` set (ft_values lhs) \<inter> fst ` set vs = {}\<rbrakk> \<Longrightarrow>
   union_guts_input pycast lhs Ts vs = Inr \<lparr>ft_types = ft_types lhs @ Ts,
     ft_values = ft_values lhs @ map2 (\<lambda>T (k, v). (k, rebuilt T v)) Ts vs\<rparr>"
proof (induction Ts arbitrary: vs lhs)
  case (Cons T Ts)
  obtain k v vs' where vs: "vs = (k, v) # vs'" using Cons.prems(1) by (cases vs) auto
  have "default_ok T v" "k \<notin> fst ` set (ft_values lhs)" using Cons.prems vs by auto
  then show ?case
    using Cons.prems Cons.IH [of vs' "\<lparr>ft_types = ft_types lhs @ [T], ft_values = ft_values lhs @ [(k, rebuilt T v)]\<rparr>"]
    by (auto simp: vs union_step simp del: union_guts_input.simps)
qed simp

lemma union_guts_input_clash:
  "\<lbrakk>list_all2 (\<lambda>T (k, v). default_ok T v) Ts vs;
    \<not> distinct (map fst vs) \<or> fst ` set (ft_values lhs) \<inter> fst ` set vs \<noteq> {}\<rbrakk> \<Longrightarrow>
   \<exists>k \<in> fst ` set vs. union_guts_input pycast lhs Ts vs = Inl (invalid_argument (''Key: '' @ k @ '' already exists.''))"
proof (induction Ts arbitrary: vs lhs)
  case (Cons T Ts)
  obtain k v vs' where vs: "vs = (k, v) # vs'" using Cons.prems(1) by (cases vs) auto
  show ?case
  proof (cases "k \<in> fst ` set (ft_values lhs)")
    case True
    then show ?thesis by (simp add: vs ft_add_field_def ft_count_eq)
  next
    case False
    let ?l = "\<lparr>ft_types = ft_types lhs @ [T], ft_values = ft_values lhs @ [(k, rebuilt T v)]\<rparr>"
    have "\<exists>k \<in> fst ` set vs'. union_guts_input pycast ?l Ts vs' = Inl (invalid_argument (''Key: '' @ k @ '' already exists.''))"
      using Cons.prems vs False by (intro Cons.IH) auto
    moreover have "default_ok T v" using Cons.prems(1) vs by simp
    ultimately show ?thesis using False by (auto simp: vs union_step simp del: union_guts_input.simps)
  qed
qed simp

section \<open>Properties\<close>


definition int_type :: field_type where
  "int_type = \<lparr>fty_rtti = mk_rtti ''int'', fty_cref = False\<rparr>"

definition example_tuple :: "string \<Rightarrow> module_input field_tuple" where
  "example_tuple k = \<lparr>ft_types = [int_type], ft_values = [(k, mi_make_optional (fresh_input int_type))]\<rparr>"

definition example_pt :: property_type where
  "example_pt = Property_type (mk_rtti ''Derived'') (example_tuple ''a'') ft_empty
     (Some (Property_type (mk_rtti ''Base'') (example_tuple ''b'') ft_empty None))"

lemma example_default_ok: "default_ok T (mi_make_optional (fresh_input T))"
  by (simp add: default_ok_def mi_has_value_def mip_has_value_def fresh_input_def mip_new_def
      mi_setter_defs any_has_value_def)


lemma mi_change_value:
  assumes "mi_change (as_arg T x) i = Inr i'"
  shows "\<exists>q. mip_value (mi_pimpl i') = make_any_field q x"
  using assms by (auto simp: as_arg_def mi_change_def mi_wrap_value_def mi_change'_Inr_iff mi_upd_def split: if_splits)

lemma im_change_find:
  assumes "im_change key (as_arg T x) rv = Inr rv'"
  shows "\<exists>i q. ci_find key rv' = Some i \<and> mip_value (mi_pimpl i) = make_any_field q x"
    and "ci_fold k \<noteq> ci_fold key \<Longrightarrow> ci_find k rv' = ci_find k rv"
  using assms by (auto simp: im_change_def bindR_Inr_iff om_simps dest: mi_change_value)

lemma wrap_guts_input_find:
  "\<lbrakk>wrap_guts_input Ts vs (map Pa_value xs) rv = Inr rv'; length Ts = length vs; length xs = length vs;
    distinct (map (\<lambda>(k, v). ci_fold k) vs)\<rbrakk> \<Longrightarrow>
   list_all2 (\<lambda>(k, v) x. \<exists>i q. ci_find k rv' = Some i \<and> mip_value (mi_pimpl i) = make_any_field q x) vs xs \<and>
   (\<forall>k. ci_fold k \<notin> (\<lambda>(k, v). ci_fold k) ` set vs \<longrightarrow> ci_find k rv' = ci_find k rv)"
proof (induction vs arbitrary: Ts xs rv)
  case (Cons kv vs)
  obtain k v where kv: "kv = (k, v)" by (cases kv)
  obtain T Ts' where Ts: "Ts = T # Ts'" using Cons.prems(2) by (cases Ts) auto
  obtain x xs' where xs: "xs = x # xs'" using Cons.prems(3) by (cases xs) auto
  obtain rv1 where rv1: "im_change k (as_arg T x) rv = Inr rv1" "wrap_guts_input Ts' vs (map Pa_value xs') rv1 = Inr rv'"
    using Cons.prems(1) by (auto simp: kv Ts xs bindR_Inr_iff pt_cxx_arg_def)
  have rest: "list_all2 (\<lambda>(k, v) x. \<exists>i q. ci_find k rv' = Some i \<and> mip_value (mi_pimpl i) = make_any_field q x) vs xs'"
      "\<forall>k. ci_fold k \<notin> (\<lambda>(k, v). ci_fold k) ` set vs \<longrightarrow> ci_find k rv' = ci_find k rv1"
    using Cons.IH [OF rv1(2)] Cons.prems Ts xs kv by auto
  have "ci_fold k \<notin> (\<lambda>(k, v). ci_fold k) ` set vs" using Cons.prems(4) kv by simp
  then show ?case
    using im_change_find [OF rv1(1)] rest by (auto simp: kv xs)
qed simp

lemma unwrap_guts_input_values:
  "\<lbrakk>list_all2 (\<lambda>(k, v) x. \<exists>i q. ci_find k rv = Some i \<and> mip_value (mi_pimpl i) = make_any_field q x) vs xs;
    list_all2 (\<lambda>T x. \<not> is_py x \<and> cval_ok x \<and> cval_type x = rt_name (fty_rtti T)) Ts xs\<rbrakk> \<Longrightarrow>
   unwrap_guts_input pycast Ts vs rv = Inr xs"
proof (induction vs arbitrary: Ts xs)
  case Nil
  then show ?case by (cases Ts) auto
next
  case (Cons kv vs)
  obtain k v where kv: "kv = (k, v)" by (cases kv)
  obtain x xs' where xs: "xs = x # xs'" using Cons.prems(1) by (cases xs) auto
  obtain T Ts' where Ts: "Ts = T # Ts'" using Cons.prems(2) xs by (cases Ts) auto
  obtain i q where i: "ci_find k rv = Some i" "mip_value (mi_pimpl i) = make_any_field q x"
    using Cons.prems(1) kv xs by auto
  have "mi_value_const pycast (rt_name (fty_rtti T)) (value_how T) i = Inr x"
    using Cons.prems(2) Ts xs by (intro mi_value_const_cxx [OF i(2)]) auto
  then show ?case
    using Cons.IH [of xs' Ts'] Cons.prems i(1) by (simp add: kv xs Ts om_at_def)
qed

text \<open>C26: Arguments survive the way through a map of inputs: when \<open>wrap_inputs\<close> succeeds with one
  C++ argument per field, each of the field's class, \<open>unwrap_inputs\<close> returns exactly the
  arguments in order, and the fields of the map that are not part of the API are untouched.
  No two keys of the API may differ in case only.\<close>

theorem wrap_unwrap_inputs:
  assumes "pt_inputs pycast pt = Inr ft" and "length (ft_types ft) = length (ft_values ft)"
    and "distinct (map (\<lambda>(k, v). ci_fold k) (ft_values ft))"
    and "list_all2 (\<lambda>T x. \<not> is_py x \<and> cval_ok x \<and> cval_type x = rt_name (fty_rtti T)) (ft_types ft) args"
    and "pt_wrap_inputs pycast pt rv (map Pa_value args) = Inr rv'"
  shows "pt_unwrap_inputs pycast pt rv' = Inr args \<and>
    (\<forall>k. ci_fold k \<notin> (\<lambda>(k, v). ci_fold k) ` set (ft_values ft) \<longrightarrow> ci_find k rv' = ci_find k rv)"
proof -
  have "wrap_guts_input (ft_types ft) (ft_values ft) (map Pa_value args) rv = Inr rv'"
    using assms(1,5) by (simp add: pt_wrap_inputs_def)
  then show ?thesis
    using wrap_guts_input_find [of "ft_types ft" "ft_values ft" args rv rv'] assms
      unwrap_guts_input_values [of rv' "ft_values ft" args "ft_types ft" pycast]
    by (simp add: pt_unwrap_inputs_def list_all2_lengthD)
qed

theorem wrap_unwrap_inputs_witness:
  "\<exists>rv'. pt_wrap_inputs Inr example_pt [(''a'', fresh_input int_type), (''b'', fresh_input int_type)]
           [Pa_value (CInt 1), Pa_value (CInt 2)] = Inr rv' \<and>
     pt_unwrap_inputs Inr example_pt rv' = Inr [CInt 1, CInt 2]"
proof -
  let ?rv = "[(''a'', fresh_input int_type), (''b'', fresh_input int_type)]"
  have ok: "\<not> isl (pt_wrap_inputs Inr example_pt ?rv (map Pa_value [CInt 1, CInt 2]))"
    and ft: "\<not> isl (pt_inputs Inr example_pt)"
    and "length (ft_types (projr (pt_inputs Inr example_pt))) = length (ft_values (projr (pt_inputs Inr example_pt)))"
    and "distinct (map (\<lambda>(k, v). ci_fold k) (ft_values (projr (pt_inputs Inr example_pt))))"
    and "list_all2 (\<lambda>T x. \<not> is_py x \<and> cval_ok x \<and> cval_type x = rt_name (fty_rtti T))
      (ft_types (projr (pt_inputs Inr example_pt))) [CInt 1, CInt 2]"
    by code_simp+
  from wrap_unwrap_inputs [OF projr_ok [OF ft] this(3-5) projr_ok [OF ok]]
  show ?thesis using projr_ok [OF ok] by auto
qed

end
