(* ===== verification/Database.thy ===== *)
theory Database
  imports Property_Type
begin

text \<open>
  The databases of the cache (\<open>cache/database/\<close>).  A \<open>DatabaseAPI\<close> is its table of virtual
  functions over a memory of type \<open>'w\<close>: the const members read it, the others change it and
  may throw.  The members of a class are parts of the memory, reached through references, so
  that two layers that hold the same \<open>shared_ptr\<close> see each other's changes.  Every layer is
  a function from the databases it wraps to a new table.
\<close>



type_synonym uuid = string
type_synonym proxy_map = "(string \<times> uuid) list"

section \<open>Memory\<close>

record ('w, 'a) ref =
  rd :: "'w \<Rightarrow> 'a"
  wr :: "('a \<Rightarrow> 'a) \<Rightarrow> 'w \<Rightarrow> 'w"

definition ref_ok :: "('w, 'a) ref \<Rightarrow> bool" where
  "ref_ok r \<longleftrightarrow> (\<forall>f w. rd r (wr r f w) = f (rd r w))"

definition modR :: "('w, 'a) ref \<Rightarrow> ('a \<Rightarrow> 'a) \<Rightarrow> ('w, unit) op" where
  "modR r f = modS (wr r f)"

lemma modR_eval [simp]: "modR r f w = (Inr (), wr r f w)"
  by (simp add: modR_def)

lemma bindS_modR [simp]: "bindS (modR r h) g w = g () (wr r h w)"
  by (simp add: modR_def)

section \<open>DBValue\<close>

text \<open>A value that is owned, or an alias (here: of the object found at the address) or null.\<close>

record 'a db_value =
  dbv_value :: "'a option"
  dbv_ptr :: "'a option"

definition dbv_own :: "'a \<Rightarrow> 'a db_value" where
  "dbv_own v = \<lparr>dbv_value = Some v, dbv_ptr = None\<rparr>"

definition dbv_alias :: "'a option \<Rightarrow> 'a db_value" where
  "dbv_alias p = \<lparr>dbv_value = None, dbv_ptr = p\<rparr>"

definition dbv_has_value :: "'a db_value \<Rightarrow> bool" where
  "dbv_has_value d \<longleftrightarrow> dbv_value d \<noteq> None \<or> dbv_ptr d \<noteq> None"

definition dbv_get :: "'a db_value \<Rightarrow> 'a res" where
  "dbv_get d = (case dbv_value d of Some v \<Rightarrow> Inr v | None \<Rightarrow> deref (dbv_ptr d))"

lemma dbv_get_simps [simp]:
  "dbv_get (dbv_own v) = Inr v"
  "dbv_get (dbv_alias (Some u)) = Inr u"
  "dbv_get (dbv_alias None) = Inl Undefined_behaviour"
  by (simp_all add: dbv_get_def dbv_own_def dbv_alias_def)

section \<open>DatabaseAPI\<close>

record ('w, 'k, 'v) db_ops =
  op_keys :: "'w \<Rightarrow> 'k list res"
  op_count :: "'k \<Rightarrow> 'w \<Rightarrow> bool res"
  op_insert :: "'k \<Rightarrow> 'v \<Rightarrow> ('w, unit) op"
  op_free :: "'k \<Rightarrow> ('w, unit) op"
  op_at :: "'k \<Rightarrow> 'w \<Rightarrow> 'v db_value res"
  op_backup :: "('w, unit) op"
  op_dump :: "('w, unit) op"

definition db_keys :: "('w, 'k, 'v) db_ops \<Rightarrow> 'w \<Rightarrow> 'k list res" where
  "db_keys d = op_keys d"

definition db_count :: "('w, 'k, 'v) db_ops \<Rightarrow> 'k \<Rightarrow> 'w \<Rightarrow> bool res" where
  "db_count d key w = noexceptR (op_count d key w)"

definition db_insert :: "('w, 'k, 'v) db_ops \<Rightarrow> 'k \<Rightarrow> 'v \<Rightarrow> ('w, unit) op" where
  "db_insert d key val = op_insert d key val"

definition db_free :: "('w, 'k, 'v) db_ops \<Rightarrow> 'k \<Rightarrow> ('w, unit) op" where
  "db_free d key = op_free d key"

definition db_at :: "('w, 'k, 'v) db_ops \<Rightarrow> 'k \<Rightarrow> 'w \<Rightarrow> 'v db_value res" where
  "db_at d key w = bindR (db_count d key w) (\<lambda>c.
     if c then op_at d key w else Inl (out_of_range ''Key was not found in the database''))"

definition db_index :: "('w, 'k, 'v) db_ops \<Rightarrow> 'k \<Rightarrow> 'w \<Rightarrow> 'v db_value res" where
  "db_index d key w = op_at d key w"

definition db_backup :: "('w, 'k, 'v) db_ops \<Rightarrow> ('w, unit) op" where
  "db_backup d = op_backup d"

definition db_dump :: "('w, 'k, 'v) db_ops \<Rightarrow> ('w, unit) op" where
  "db_dump d = op_dump d"

text \<open>\<open>db->at(key).get()\<close>\<close>

definition db_get :: "('w, 'k, 'v) db_ops \<Rightarrow> 'k \<Rightarrow> 'w \<Rightarrow> 'v res" where
  "db_get d key w = bindR (db_at d key w) dbv_get"

lemmas db_api_defs = db_keys_def db_count_def db_insert_def db_free_def db_at_def db_index_def
  db_backup_def db_dump_def db_get_def

text \<open>A layer that passes a key on, under another name, answers as the database it wraps.\<close>

lemma noexceptR_idem [simp]: "noexceptR (noexceptR x) = noexceptR x"
  by (cases x) (simp_all add: noexceptR_def)

lemma db_forward:
  assumes "op_count d' k' w = noexceptR (db_count d k w)" and "op_at d' k' w = db_at d k w"
  shows "db_count d' k' w = db_count d k w" and "db_get d' k' w = db_get d k w"
proof -
  show "db_count d' k' w = db_count d k w" using assms by (simp add: db_count_def)
  then have "db_at d' k' w = db_at d k w"
    using assms(2) by (cases "db_count d k w") (simp_all add: db_at_def)
  then show "db_get d' k' w = db_get d k w" by (simp add: db_get_def)
qed

section \<open>Native\<close>

definition native_keys :: "('w, ('k, 'v) omap) ref \<Rightarrow> 'w \<Rightarrow> 'k list res" where
  "native_keys r w = Inr (map fst (rd r w))"

definition native_count :: "('w, ('k, 'v) omap) ref \<Rightarrow> 'k \<Rightarrow> 'w \<Rightarrow> bool res" where
  "native_count r key w = Inr (std_count key (rd r w))"

definition native_insert :: "('w, ('k::linorder, 'v) omap) ref \<Rightarrow> 'k \<Rightarrow> 'v \<Rightarrow> ('w, unit) op" where
  "native_insert r key val = modR r (std_set key val)"

definition native_free :: "('w, ('k, 'v) omap) ref \<Rightarrow> 'k \<Rightarrow> ('w, unit) op" where
  "native_free r key = modR r (std_erase key)"

definition native_at :: "('w, ('k, 'v) omap) ref \<Rightarrow> 'k \<Rightarrow> 'w \<Rightarrow> 'v db_value res" where
  "native_at r key w = bindR (std_at key (rd r w)) (\<lambda>v. Inr (dbv_alias (Some v)))"

definition native_backup :: "('w, ('k, 'v) omap) ref \<Rightarrow> ('w, 'k, 'v) db_ops option \<Rightarrow> ('w, unit) op" where
  "native_backup r backup = (case backup of
      None \<Rightarrow> retS ()
    | Some b \<Rightarrow> bindS (getS (rd r)) (forS (\<lambda>(k, v). db_insert b k v)))"

definition native_dump :: "('w, ('k, 'v) omap) ref \<Rightarrow> ('w, 'k, 'v) db_ops option \<Rightarrow> ('w, unit) op" where
  "native_dump r backup = bindS (native_backup r backup) (\<lambda>_. modR r (\<lambda>_. []))"

definition native_db :: "('w, ('k::linorder, 'v) omap) ref \<Rightarrow> ('w, 'k, 'v) db_ops option
    \<Rightarrow> ('w, 'k, 'v) db_ops" where
  "native_db r backup = \<lparr>op_keys = native_keys r, op_count = native_count r, op_insert = native_insert r,
     op_free = native_free r, op_at = native_at r, op_backup = native_backup r backup,
     op_dump = native_dump r backup\<rparr>"

lemma native_api [simp]:
  "db_count (native_db r b) k w = Inr (std_count k (rd r w))"
  "db_insert (native_db r b) k v w = (Inr (), wr r (std_set k v) w)"
  "db_free (native_db r b) k w = (Inr (), wr r (std_erase k) w)"
  "db_backup (native_db r None) w = (Inr (), w)"
  "db_dump (native_db r None) w = (Inr (), wr r (\<lambda>_. []) w)"
  "db_keys (native_db r b) w = Inr (map fst (rd r w))"
  by (simp_all add: db_api_defs native_db_def native_count_def native_insert_def native_free_def
      native_backup_def native_dump_def native_keys_def)

lemma native_get: "db_get (native_db r b) k w =
    (case std_find k (rd r w) of None \<Rightarrow> Inl (out_of_range ''Key was not found in the database'')
     | Some v \<Rightarrow> Inr v)"
  by (simp add: db_get_def db_at_def om_count_def split: option.splits)
    (simp add: native_db_def native_at_def om_at_def)

section \<open>Transposer\<close>

text \<open>
  \<open>keys\<close> is the member \<open>m_keys_\<close>, a \<open>std::set\<close>; \<open>eq\<close> is the \<open>operator==\<close> of the keys.  The
  loops of \<open>count_\<close>, \<open>free_\<close> and \<open>at_\<close> look for the first value of the set that is mapped to
  the key.
\<close>

fun transposer_find :: "('k \<Rightarrow> 'k \<Rightarrow> bool res) \<Rightarrow> ('w, 'v, 'k) db_ops \<Rightarrow> 'k \<Rightarrow> 'v list \<Rightarrow> 'w \<Rightarrow> 'v option res" where
  "transposer_find eq d key [] w = Inr None"
| "transposer_find eq d key (val # vals) w =
     bindR (db_get d val w) (\<lambda>k. bindR (eq k key) (\<lambda>same.
       if same then Inr (Some val) else transposer_find eq d key vals w))"

definition transposer_keys :: "('w, 'v list) ref \<Rightarrow> ('w, 'v, 'k) db_ops \<Rightarrow> 'w \<Rightarrow> 'k list res" where
  "transposer_keys keys d w = mapR (\<lambda>val. db_get d val w) (rd keys w)"

definition transposer_count :: "('k \<Rightarrow> 'k \<Rightarrow> bool res) \<Rightarrow> ('w, 'v list) ref \<Rightarrow> ('w, 'v, 'k) db_ops
    \<Rightarrow> 'k \<Rightarrow> 'w \<Rightarrow> bool res" where
  "transposer_count eq keys d key w =
     noexceptR (bindR (transposer_find eq d key (rd keys w) w) (\<lambda>found. Inr (found \<noteq> None)))"

definition transposer_insert :: "('w, 'v::linorder list) ref \<Rightarrow> ('w, 'v, 'k) db_ops
    \<Rightarrow> 'k \<Rightarrow> 'v \<Rightarrow> ('w, unit) op" where
  "transposer_insert keys d key val = bindS (modR keys (insort_insert val)) (\<lambda>_. db_insert d val key)"

definition transposer_free :: "('k \<Rightarrow> 'k \<Rightarrow> bool res) \<Rightarrow> ('w, 'v list) ref \<Rightarrow> ('w, 'v, 'k) db_ops
    \<Rightarrow> 'k \<Rightarrow> ('w, unit) op" where
  "transposer_free eq keys d key =
     bindS (\<lambda>w. (transposer_find eq d key (rd keys w) w, w)) (\<lambda>found.
       case found of
         None \<Rightarrow> retS ()
       | Some val \<Rightarrow> bindS (db_free d val) (\<lambda>_. modR keys (remove1 val)))"

definition transposer_at :: "('k \<Rightarrow> 'k \<Rightarrow> bool res) \<Rightarrow> ('w, 'v list) ref \<Rightarrow> ('w, 'v, 'k) db_ops
    \<Rightarrow> 'k \<Rightarrow> 'w \<Rightarrow> 'v db_value res" where
  "transposer_at eq keys d key w =
     bindR (transposer_find eq d key (rd keys w) w) (\<lambda>found.
       case found of
         None \<Rightarrow> Inl (out_of_range ''Key not found'')
       | Some val \<Rightarrow> Inr (dbv_alias (Some val)))"

definition transposer_dump :: "('w, 'v list) ref \<Rightarrow> ('w, 'v, 'k) db_ops \<Rightarrow> ('w, unit) op" where
  "transposer_dump keys d = bindS (db_dump d) (\<lambda>_. modR keys (\<lambda>_. []))"

definition transposer_db :: "('k \<Rightarrow> 'k \<Rightarrow> bool res) \<Rightarrow> ('w, 'v::linorder list) ref
    \<Rightarrow> ('w, 'v, 'k) db_ops \<Rightarrow> ('w, 'k, 'v) db_ops" where
  "transposer_db eq keys d = \<lparr>op_keys = transposer_keys keys d, op_count = transposer_count eq keys d,
     op_insert = transposer_insert keys d, op_free = transposer_free eq keys d,
     op_at = transposer_at eq keys d, op_backup = db_backup d, op_dump = transposer_dump keys d\<rparr>"

section \<open>TypeEraser\<close>

text \<open>
  \<open>conv\<close> is \<open>MakeAny<KeyType>::convert\<close>, \<open>uncast\<close> is \<open>any_cast<KeyType>\<close>.
\<close>

definition eraser_keys :: "(any_field \<Rightarrow> 'k res) \<Rightarrow> ('w, any_field, 'v) db_ops \<Rightarrow> 'w \<Rightarrow> 'k list res" where
  "eraser_keys uncast d w = bindR (db_keys d w) (mapR uncast)"

definition eraser_count :: "('k \<Rightarrow> any_field res) \<Rightarrow> ('w, any_field, 'v) db_ops \<Rightarrow> 'k \<Rightarrow> 'w \<Rightarrow> bool res" where
  "eraser_count conv d key w = noexceptR (bindR (conv key) (\<lambda>a. db_count d a w))"

definition eraser_insert :: "('k \<Rightarrow> any_field res) \<Rightarrow> ('w, any_field, 'v) db_ops
    \<Rightarrow> 'k \<Rightarrow> 'v \<Rightarrow> ('w, unit) op" where
  "eraser_insert conv d key val = bindS (liftS (conv key)) (\<lambda>a. db_insert d a val)"

definition eraser_free :: "('k \<Rightarrow> any_field res) \<Rightarrow> ('w, any_field, 'v) db_ops \<Rightarrow> 'k \<Rightarrow> ('w, unit) op" where
  "eraser_free conv d key = bindS (liftS (conv key)) (db_free d)"

definition eraser_at :: "('k \<Rightarrow> any_field res) \<Rightarrow> ('w, any_field, 'v) db_ops \<Rightarrow> 'k \<Rightarrow> 'w \<Rightarrow> 'v db_value res" where
  "eraser_at conv d key w = bindR (conv key) (\<lambda>a. db_at d a w)"

definition eraser_db :: "('k \<Rightarrow> any_field res) \<Rightarrow> (any_field \<Rightarrow> 'k res) \<Rightarrow> ('w, any_field, 'v) db_ops
    \<Rightarrow> ('w, 'k, 'v) db_ops" where
  "eraser_db conv uncast d = \<lparr>op_keys = eraser_keys uncast d, op_count = eraser_count conv d,
     op_insert = eraser_insert conv d, op_free = eraser_free conv d, op_at = eraser_at conv d,
     op_backup = db_backup d, op_dump = db_dump d\<rparr>"

definition make_any_input :: "module_input \<Rightarrow> any_field res" where
  "make_any_input v = bindR (mi_get v) any_copy"

definition make_any_result :: "module_result \<Rightarrow> any_field res" where
  "make_any_result v = bindR (mr_at' v) (\<lambda>s. bindR (deref s) any_copy)"

section \<open>KeyInjector\<close>

definition injector_inject :: "string \<Rightarrow> 'u \<Rightarrow> (string, 'u) omap \<Rightarrow> (string, 'u) omap" where
  "injector_inject ik iv key = ci_emplace ik iv key"

definition injector_keys :: "string \<Rightarrow> ('w, (string, 'u) omap, 'v) db_ops \<Rightarrow> 'w \<Rightarrow> (string, 'u) omap list res" where
  "injector_keys ik d w = bindR (db_keys d w) (\<lambda>ks. Inr (map (ci_erase ik) ks))"

definition injector_count :: "string \<Rightarrow> 'u \<Rightarrow> ('w, (string, 'u) omap, 'v) db_ops
    \<Rightarrow> (string, 'u) omap \<Rightarrow> 'w \<Rightarrow> bool res" where
  "injector_count ik iv d key w = noexceptR (db_count d (injector_inject ik iv key) w)"

definition injector_insert :: "string \<Rightarrow> 'u \<Rightarrow> ('w, (string, 'u) omap, 'v) db_ops
    \<Rightarrow> (string, 'u) omap \<Rightarrow> 'v \<Rightarrow> ('w, unit) op" where
  "injector_insert ik iv d key val = db_insert d (injector_inject ik iv key) val"

definition injector_free :: "string \<Rightarrow> 'u \<Rightarrow> ('w, (string, 'u) omap, 'v) db_ops
    \<Rightarrow> (string, 'u) omap \<Rightarrow> ('w, unit) op" where
  "injector_free ik iv d key = db_free d (injector_inject ik iv key)"

definition injector_at :: "string \<Rightarrow> 'u \<Rightarrow> ('w, (string, 'u) omap, 'v) db_ops
    \<Rightarrow> (string, 'u) omap \<Rightarrow> 'w \<Rightarrow> 'v db_value res" where
  "injector_at ik iv d key w = db_at d (injector_inject ik iv key) w"

definition injector_db :: "string \<Rightarrow> 'u \<Rightarrow> ('w, (string, 'u) omap, 'v) db_ops
    \<Rightarrow> ('w, (string, 'u) omap, 'v) db_ops" where
  "injector_db ik iv d = \<lparr>op_keys = injector_keys ik d, op_count = injector_count ik iv d,
     op_insert = injector_insert ik iv d, op_free = injector_free ik iv d,
     op_at = injector_at ik iv d, op_backup = db_backup d, op_dump = db_dump d\<rparr>"

section \<open>Serialized\<close>

text \<open>
  The archives of cereal are third-party: \<open>ser_\<close> and \<open>des_\<close> are what they make of a key and
  of a value; both may throw.
\<close>

definition serialized_keys :: "(string \<Rightarrow> 'k res) \<Rightarrow> ('w, string, string) db_ops \<Rightarrow> 'w \<Rightarrow> 'k list res" where
  "serialized_keys des_key d w = bindR (db_keys d w) (mapR des_key)"

definition serialized_count :: "('k \<Rightarrow> string res) \<Rightarrow> ('w, string, string) db_ops \<Rightarrow> 'k \<Rightarrow> 'w \<Rightarrow> bool res" where
  "serialized_count ser_key d key w =
     (case bindR (ser_key key) (\<lambda>sk. db_count d sk w) of
        Inl e \<Rightarrow> if e = Std_terminate \<or> e = Undefined_behaviour \<or> e = Out_of_fuel then Inl e else Inr False
      | Inr b \<Rightarrow> Inr b)"

definition serialized_insert :: "('k \<Rightarrow> string res) \<Rightarrow> ('v \<Rightarrow> string res) \<Rightarrow> ('w, string, string) db_ops
    \<Rightarrow> 'k \<Rightarrow> 'v \<Rightarrow> ('w, unit) op" where
  "serialized_insert ser_key ser_val d key val =
     bindS (liftS (ser_key key)) (\<lambda>skey. bindS (liftS (ser_val val)) (\<lambda>sval. db_insert d skey sval))"

definition serialized_free :: "('k \<Rightarrow> string res) \<Rightarrow> ('w, string, string) db_ops \<Rightarrow> 'k \<Rightarrow> ('w, unit) op" where
  "serialized_free ser_key d key = bindS (liftS (ser_key key)) (db_free d)"

definition serialized_at :: "('k \<Rightarrow> string res) \<Rightarrow> (string \<Rightarrow> 'v res) \<Rightarrow> ('w, string, string) db_ops
    \<Rightarrow> 'k \<Rightarrow> 'w \<Rightarrow> 'v db_value res" where
  "serialized_at ser_key des_val d key w =
     bindR (ser_key key) (\<lambda>skey. bindR (db_at d skey w) (\<lambda>sval. bindR (dbv_get sval) (\<lambda>s.
     bindR (des_val s) (\<lambda>rv. Inr (dbv_own rv)))))"

record ('k, 'v) archive =
  ser_key :: "'k \<Rightarrow> string res"
  des_key :: "string \<Rightarrow> 'k res"
  ser_val :: "'v \<Rightarrow> string res"
  des_val :: "string \<Rightarrow> 'v res"

definition serialized_db :: "('k, 'v) archive \<Rightarrow> ('w, string, string) db_ops \<Rightarrow> ('w, 'k, 'v) db_ops" where
  "serialized_db ar d = \<lparr>op_keys = serialized_keys (des_key ar) d,
     op_count = serialized_count (ser_key ar) d,
     op_insert = serialized_insert (ser_key ar) (ser_val ar) d,
     op_free = serialized_free (ser_key ar) d,
     op_at = serialized_at (ser_key ar) (des_val ar) d,
     op_backup = db_backup d, op_dump = db_dump d\<rparr>"

section \<open>The memory of a process\<close>

text \<open>
  The members of the databases in one process: the UUIDs the generator draws (Boost's, so a
  parameter) and how many it has drawn, the map of
  the \<open>Native\<close> and the set of the \<open>Transposer\<close> behind \<open>m_any2uuid_\<close>, and, by the number of the
  database they belong to, the buffers of the \<open>ProxyMapMaker\<close>s and the maps of the results.
  \<open>cw_disk\<close> is what is outside of the process.
\<close>

record 'd cache_world =
  cw_gen :: "nat \<Rightarrow> uuid"
  cw_next_uuid :: nat
  cw_uuid2any :: "(uuid, any_field) omap"
  cw_uuids :: "uuid list"
  cw_input_buffers :: "nat \<Rightarrow> (proxy_map, input_map) omap"
  cw_result_buffers :: "nat \<Rightarrow> (proxy_map, result_map) omap"
  cw_results :: "nat \<Rightarrow> (proxy_map, result_map) omap"
  cw_next_db :: nat
  cw_disk :: 'd

definition cw_init :: "(nat \<Rightarrow> uuid) \<Rightarrow> 'd \<Rightarrow> 'd cache_world" where
  "cw_init gen d = \<lparr>cw_gen = gen, cw_next_uuid = 0, cw_uuid2any = [], cw_uuids = [], cw_input_buffers = (\<lambda>_. []),
     cw_result_buffers = (\<lambda>_. []), cw_results = (\<lambda>_. []), cw_next_db = 0, cw_disk = d\<rparr>"

definition generate_uuid :: "('d cache_world, uuid) op" where
  "generate_uuid w = (Inr (cw_gen w (cw_next_uuid w)), w\<lparr>cw_next_uuid := Suc (cw_next_uuid w)\<rparr>)"

definition r_uuid2any :: "('d cache_world, (uuid, any_field) omap) ref" where
  "r_uuid2any = \<lparr>rd = cw_uuid2any, wr = cw_uuid2any_update\<rparr>"

definition r_uuids :: "('d cache_world, uuid list) ref" where
  "r_uuids = \<lparr>rd = cw_uuids, wr = cw_uuids_update\<rparr>"

definition upd_at :: "nat \<Rightarrow> ('a \<Rightarrow> 'a) \<Rightarrow> (nat \<Rightarrow> 'a) \<Rightarrow> nat \<Rightarrow> 'a" where
  "upd_at n f g = g(n := f (g n))"

lemma upd_at_simps [simp]: "upd_at n f g n = f (g n)" "m \<noteq> n \<Longrightarrow> upd_at n f h m = h m"
  by (simp_all add: upd_at_def)

definition r_input_buffer :: "nat \<Rightarrow> ('d cache_world, (proxy_map, input_map) omap) ref" where
  "r_input_buffer n = \<lparr>rd = (\<lambda>w. cw_input_buffers w n), wr = (\<lambda>f. cw_input_buffers_update (upd_at n f))\<rparr>"

definition r_result_buffer :: "nat \<Rightarrow> ('d cache_world, (proxy_map, result_map) omap) ref" where
  "r_result_buffer n = \<lparr>rd = (\<lambda>w. cw_result_buffers w n), wr = (\<lambda>f. cw_result_buffers_update (upd_at n f))\<rparr>"

definition r_results :: "nat \<Rightarrow> ('d cache_world, (proxy_map, result_map) omap) ref" where
  "r_results n = \<lparr>rd = (\<lambda>w. cw_results w n), wr = (\<lambda>f. cw_results_update (upd_at n f))\<rparr>"

lemmas r_defs = r_uuid2any_def r_uuids_def r_input_buffer_def r_result_buffer_def r_results_def

text \<open>\<open>set_type_eraser_backend()\<close>: the in-memory database behind \<open>m_any2uuid_\<close>.\<close>

definition any2uuid_db :: "('d cache_world, uuid, any_field) db_ops option
    \<Rightarrow> ('d cache_world, any_field, uuid) db_ops" where
  "any2uuid_db backup = transposer_db any_equal r_uuids (native_db r_uuid2any backup)"

section \<open>The contract of a database\<close>

text \<open>
  \<open>look\<close> is the finite map a database stands for, over the keys that are \<open>ok\<close> and up to
  \<open>same\<close>; \<open>rest\<close> is the part of the memory it does not touch.  A new key may be inserted with
  any value that is \<open>fresh\<close>; nothing is promised about overwriting.
\<close>

locale database =
  fixes db :: "('w, 'k, 'v) db_ops"
    and good :: "'w \<Rightarrow> bool"
    and ok :: "'k \<Rightarrow> bool"
    and fresh :: "'w \<Rightarrow> 'v \<Rightarrow> bool"
    and same :: "'k \<Rightarrow> 'k \<Rightarrow> bool"
    and look :: "'w \<Rightarrow> 'k \<Rightarrow> 'v option"
    and rest :: "'w \<Rightarrow> 'r"
  assumes count_law: "good w \<Longrightarrow> ok k \<Longrightarrow> db_count db k w = Inr (look w k \<noteq> None)"
    and get_law: "good w \<Longrightarrow> ok k \<Longrightarrow> look w k = Some v \<Longrightarrow> db_get db k w = Inr v"
    and insert_law: "good w \<Longrightarrow> ok k \<Longrightarrow> look w k = None \<Longrightarrow> fresh w v \<Longrightarrow>
      \<exists>w'. db_insert db k v w = (Inr (), w') \<and> good w' \<and> rest w' = rest w \<and>
        (\<forall>k'. ok k' \<longrightarrow> look w' k' = (if same k k' then Some v else look w k'))"
    and same_refl: "ok k \<Longrightarrow> same k k"
begin

lemma get_absent: "good w \<Longrightarrow> ok k \<Longrightarrow> look w k = None \<Longrightarrow>
    db_get db k w = Inl (out_of_range ''Key was not found in the database'')"
  using count_law by (simp add: db_get_def db_at_def)

lemma get_outcome: "good w \<Longrightarrow> ok k \<Longrightarrow> db_get db k w =
    (case look w k of None \<Rightarrow> Inl (out_of_range ''Key was not found in the database'') | Some v \<Rightarrow> Inr v)"
  by (simp add: get_absent get_law split: option.splits)

lemma get_after_insert:
  assumes "good w" "ok k" "look w k = None" "fresh w v" "db_insert db k v w = (r, w')"
  shows "db_get db k w' = Inr v \<and> db_count db k w' = Inr True"
  using insert_law [OF assms(1-4)] assms(2,5) count_law get_law same_refl by auto

end

text \<open>An in-memory \<open>Native\<close> over a member of the process.\<close>

lemma native_database:
  assumes "ref_ok r" and "\<And>f w. rest (wr r f w) = rest w"
  shows "database (native_db r None) (\<lambda>_. True) (\<lambda>_. True) (\<lambda>_ _. True) (=) (\<lambda>w k. std_find k (rd r w)) rest"
  using assms by unfold_locales (simp_all add: native_get om_count_def ref_ok_def om_simps split: option.splits)

lemma ref_ok_world [simp]:
  "ref_ok r_uuid2any" "ref_ok r_uuids" "ref_ok (r_input_buffer n)"
  "ref_ok (r_result_buffer n)" "ref_ok (r_results n)"
  by (simp_all add: ref_ok_def r_defs)

interpretation uuid2any: database "native_db r_uuid2any None" "\<lambda>_. True" "\<lambda>_. True" "\<lambda>_ _. True" "(=)"
    "\<lambda>w k. std_find k (cw_uuid2any w)" "\<lambda>w. (cw_uuids w, cw_next_uuid w, cw_gen w, cw_results w)"
  using native_database [of r_uuid2any "\<lambda>w. (cw_uuids w, cw_next_uuid w, cw_gen w, cw_results w)"]
  by (simp add: r_defs ref_ok_def)

section \<open>The transposed database of values and UUIDs\<close>

text \<open>
  The invariant of the in-memory \<open>m_any2uuid_\<close>: the set of the \<open>Transposer\<close> is the key set of
  the map below, every value is a C++ value and no value has two UUIDs.
\<close>

definition a2u_good :: "'d cache_world \<Rightarrow> bool" where
  "a2u_good w \<longleftrightarrow> om_wf id (cw_uuid2any w) \<and> cw_uuids w = map fst (cw_uuid2any w) \<and>
     list_all (\<lambda>(u, a). any_cxx a) (cw_uuid2any w) \<and>
     distinct (map (\<lambda>(u, a). any_val a) (cw_uuid2any w))"

definition a2u_look :: "'d cache_world \<Rightarrow> any_field \<Rightarrow> uuid option" where
  "a2u_look w a = map_of (map (\<lambda>(u, b). (any_val b, u)) (cw_uuid2any w)) (any_val a)"

abbreviation same_any :: "any_field \<Rightarrow> any_field \<Rightarrow> bool" where
  "same_any a b \<equiv> any_val a = any_val b"

lemma map_fst_om_ins: "om_find id k m = None \<Longrightarrow> map fst (om_ins id k v m) = insort k (map fst m)"
  by (induction m) (auto split: if_splits)

abbreviation flip_any :: "(uuid, any_field) omap \<Rightarrow> (cval \<times> uuid) list" where
  "flip_any m \<equiv> map (\<lambda>(u, b). (any_val b, u)) m"

lemma map_of_flip_ins: "any_val b \<notin> fst ` set (flip_any m) \<Longrightarrow>
    map_of (flip_any (om_ins f u b m)) x = (if x = any_val b then Some u else map_of (flip_any m) x)"
  by (induction m) (auto split: if_splits)

lemma transposer_find_any:
  assumes "any_cxx a" and "\<forall>(u, b) \<in> set m. db_get d u w = Inr b \<and> any_cxx b"
  shows "transposer_find any_equal d a (map fst m) w = Inr (map_of (flip_any m) (any_val a))"
  using assms(2)
proof (induction m)
  case (Cons p m)
  obtain u b where "p = (u, b)" by (cases p)
  then show ?case using Cons assms(1) by (simp add: any_equal_cxx)
qed simp

lemma a2u_goodD:
  assumes "a2u_good w"
  shows "\<forall>(u, b) \<in> set (cw_uuid2any w). db_get (native_db r_uuid2any bk) u w = Inr b \<and> any_cxx b"
    and "cw_uuids w = map fst (cw_uuid2any w)" and "om_wf id (cw_uuid2any w)"
  using assms om_find_wf [of id "cw_uuid2any w"]
  by (auto simp: a2u_good_def list_all_iff native_get r_uuid2any_def split: option.splits)

lemma a2u_find:
  assumes "a2u_good w" and "any_cxx a"
  shows "transposer_find any_equal (native_db r_uuid2any bk) a (cw_uuids w) w = Inr (a2u_look w a)"
  using transposer_find_any [OF assms(2) a2u_goodD(1) [OF assms(1)]] a2u_goodD(2) [OF assms(1)]
  by (simp add: a2u_look_def)

lemma rd_uuids [simp]: "rd r_uuids w = cw_uuids w" "rd r_uuid2any w' = cw_uuid2any w'"
  by (simp_all add: r_defs)

lemma a2u_count: "a2u_good w \<Longrightarrow> any_cxx a \<Longrightarrow>
    db_count (any2uuid_db bk) a w = Inr (a2u_look w a \<noteq> None)"
  by (simp add: any2uuid_db_def db_count_def transposer_db_def transposer_count_def a2u_find)

lemma a2u_get: "a2u_good w \<Longrightarrow> any_cxx a \<Longrightarrow> a2u_look w a = Some u \<Longrightarrow>
    db_get (any2uuid_db bk) a w = Inr u"
  by (simp add: db_get_def db_at_def a2u_count)
    (simp add: any2uuid_db_def transposer_db_def transposer_at_def a2u_find)

definition a2u_add :: "uuid \<Rightarrow> any_field \<Rightarrow> 'd cache_world \<Rightarrow> 'd cache_world" where
  "a2u_add u a w = w\<lparr>cw_uuids := insort u (cw_uuids w), cw_uuid2any := om_ins id u a (cw_uuid2any w)\<rparr>"

lemma a2u_insert:
  assumes "a2u_good w" and "u \<notin> set (cw_uuids w)"
  shows "db_insert (any2uuid_db bk) a u w = (Inr (), a2u_add u a w)"
proof -
  have "om_find id u (cw_uuid2any w) = None"
    using assms by (fastforce simp: a2u_good_def om_find_None_iff image_iff)
  then show ?thesis
    using assms(2)
    by (simp add: any2uuid_db_def db_insert_def transposer_db_def transposer_insert_def native_db_def
        native_insert_def r_defs insort_insert_key_def om_set_def om_count_def a2u_add_def)
qed

lemma a2u_add_good:
  assumes "a2u_good w" and "u \<notin> set (cw_uuids w)" and "any_cxx a" and "a2u_look w a = None"
  shows "a2u_good (a2u_add u a w)"
    and "a2u_look (a2u_add u a w) b = (if same_any a b then Some u else a2u_look w b)"
proof -
  have none: "om_find id u (cw_uuid2any w) = None"
    using assms by (fastforce simp: a2u_good_def om_find_None_iff image_iff)
  have new: "any_val a \<notin> fst ` set (flip_any (cw_uuid2any w))"
    using assms(4) by (simp add: a2u_look_def map_of_eq_None_iff image_image case_prod_unfold)
  then show "a2u_look (a2u_add u a w) b = (if same_any a b then Some u else a2u_look w b)"
    by (auto simp: a2u_look_def a2u_add_def map_of_flip_ins)
  show "a2u_good (a2u_add u a w)"
    using assms none new
    by (auto simp: a2u_good_def a2u_add_def om_wf_ins map_fst_om_ins list_all_iff set_om_ins
        distinct_om_ins image_iff)
qed

interpretation any2uuid: database "any2uuid_db None" a2u_good any_cxx "\<lambda>w u. u \<notin> set (cw_uuids w)"
    same_any a2u_look "\<lambda>w. (cw_next_uuid w, cw_gen w, cw_results w)"
proof (unfold_locales, goal_cases)
  case (3 w k v)
  then show ?case
    using a2u_insert [of w v None k] a2u_add_good [of w v k] by (simp add: a2u_add_def)
qed (simp_all add: a2u_count a2u_get)

section \<open>Properties\<close>

lemma map_of_flip_ins_least:
  assumes "om_wf id m" and "map_of (flip_any m) (any_val a) = Some u" and "om_find id v m = None"
  shows "map_of (flip_any (om_ins id v a m)) (any_val a) = Some (min u v)"
  using assms
proof (induction m)
  case (Cons p m)
  obtain u' b where p: "p = (u', b)" by (cases p)
  have le: "u' \<le> u"
    using Cons.prems(1,2) by (force simp: p om_wf_Cons split: if_splits dest!: map_of_SomeD)
  show ?case
  proof (cases "v < u'")
    case True
    then have "v < u" using le by (rule less_le_trans)
    then show ?thesis using True by (auto simp: p min_def dest: leD)
  next
    case False
    moreover have "u' \<noteq> v" using Cons.prems(3) by (simp add: p split: if_splits)
    ultimately show ?thesis
      using Cons p by (auto simp: om_wf_Cons min_def split: if_splits)
  qed
qed simp

lemma a2u_find_wf:
  assumes "om_wf id (cw_uuid2any w)" "cw_uuids w = map fst (cw_uuid2any w)"
    "list_all (\<lambda>(u, a). any_cxx a) (cw_uuid2any w)" "any_cxx a"
    "map_of (flip_any (cw_uuid2any w)) (any_val a) = Some u"
  shows "db_get (any2uuid_db bk) a w = Inr u"
proof -
  have "\<forall>(u, b) \<in> set (cw_uuid2any w). db_get (native_db r_uuid2any bk) u w = Inr b \<and> any_cxx b"
    using assms(1,3) om_find_wf [of id "cw_uuid2any w"]
    by (auto simp: list_all_iff native_get split: option.splits)
  then have "transposer_find any_equal (native_db r_uuid2any bk) a (map fst (cw_uuid2any w)) w = Inr (Some u)"
    by (simp add: transposer_find_any [OF assms(4)] assms(5))
  then show ?thesis
    by (simp add: any2uuid_db_def db_get_def db_at_def db_count_def transposer_db_def
        transposer_count_def transposer_at_def assms(2))
qed

text \<open>The database interface promises that inserting under a key that is there overwrites its
  value.  The \<open>Transposer\<close> does not: after inserting a value twice, under UUIDs \<open>u\<close> and \<open>v\<close>,
  the value has both and reading it back gives the smaller one, whichever came last.\<close>

theorem transposer_insert_no_overwrite:
  assumes "a2u_good w" and "any_cxx a" and "a2u_look w a = None"
    and "u \<notin> set (cw_uuids w)" and "v \<notin> set (cw_uuids w)" and "u \<noteq> v"
  shows "\<exists>w1 w2. db_insert (any2uuid_db None) a u w = (Inr (), w1) \<and>
    db_insert (any2uuid_db None) a v w1 = (Inr (), w2) \<and>
    db_get (any2uuid_db None) a w1 = Inr u \<and> db_get (any2uuid_db None) a w2 = Inr (min u v)"
proof -
  let ?w1 = "a2u_add u a w"
  let ?w2 = "a2u_add v a ?w1"
  have g1: "a2u_good ?w1" "a2u_look ?w1 a = Some u"
    using a2u_add_good [OF assms(1,4,2,3)] by simp_all
  have v: "v \<notin> set (cw_uuids ?w1)" using assms(5,6) by (simp add: a2u_add_def set_insort_key)
  then have none: "om_find id v (cw_uuid2any ?w1) = None"
    using g1(1) by (fastforce simp: a2u_good_def om_find_None_iff image_iff)
  have "db_get (any2uuid_db None) a ?w2 = Inr (min u v)"
  proof (rule a2u_find_wf)
    show "map_of (flip_any (cw_uuid2any ?w2)) (any_val a) = Some (min u v)"
      using map_of_flip_ins_least [OF a2u_goodD(3) [OF g1(1)] _ none, of a u] g1
      by (simp add: a2u_look_def a2u_add_def [of v])
  qed (use g1 assms(2) none in \<open>auto simp: a2u_add_def [of v] a2u_good_def om_wf_ins map_fst_om_ins
        list_all_iff set_om_ins\<close>)
  moreover have "db_get (any2uuid_db None) a ?w1 = Inr u"
    using any2uuid.get_law [OF g1(1) assms(2) g1(2)] .
  ultimately show ?thesis
    using a2u_insert [OF assms(1,4)] a2u_insert [OF g1(1) v] by blast
qed

theorem transposer_insert_no_overwrite_witness:
  "\<exists>w1 w2. db_insert (any2uuid_db None) (make_any_field By_value (CInt 1)) ''b'' (cw_init digits ()) = (Inr (), w1) \<and>
     db_insert (any2uuid_db None) (make_any_field By_value (CInt 1)) ''a'' w1 = (Inr (), w2) \<and>
     db_get (any2uuid_db None) (make_any_field By_value (CInt 1)) w2 = Inr ''a''"
proof -
  have "min ''b'' ''a'' = ''a''" by code_simp
  then show ?thesis
    using transposer_insert_no_overwrite [of "cw_init digits ()" "make_any_field By_value (CInt 1)" "''b''" "''a''"]
    by (auto simp: a2u_good_def a2u_look_def cw_init_def)
qed

lemma om_erase_ins: "om_find f k m = None \<Longrightarrow> om_erase f k (om_ins f k v m) = m"
proof -
  assume none: "om_find f k m = None"
  then have "om_erase f k m = m"
    by (auto simp: om_erase_def filter_id_conv om_find_None_iff)
  moreover have "om_erase f k (om_ins f k v m) = om_erase f k m"
    by (induction m) (auto simp: om_erase_def)
  ultimately show ?thesis by simp
qed

lemma inject_inj:
  assumes "ci_find ik k1 = None" "ci_find ik k2 = None"
  shows "injector_inject ik u k1 = injector_inject ik v k2 \<longleftrightarrow> u = v \<and> k1 = k2"
proof
  assume eq: "injector_inject ik u k1 = injector_inject ik v k2"
  then have "ci_find ik (injector_inject ik u k1) = ci_find ik (injector_inject ik v k2)" by simp
  moreover have "om_ins ci_fold ik u k1 = om_ins ci_fold ik v k2"
    using eq assms by (simp add: injector_inject_def om_emplace_def om_count_def)
  then have "k1 = k2" by (metis assms om_erase_ins)
  ultimately show "u = v \<and> k1 = k2" using assms by (simp add: injector_inject_def om_simps)
qed simp


definition example_ref :: "((proxy_map, nat) omap, (proxy_map, nat) omap) ref" where
  "example_ref = \<lparr>rd = id, wr = id\<rparr>"


end
