(* ===== verification/Proxy_Maps.thy ===== *)
theory Proxy_Maps
  imports Database
begin

text \<open>
  The layers that replace values by UUIDs: \<open>UUIDMapper\<close> (\<open>cache/uuid_mapper\<close>),
  \<open>ProxyMapMaker\<close> (\<open>cache/proxy_map_maker\<close>), \<open>KeyProxyMapper\<close> and \<open>ValueProxyMapper\<close>
  (\<open>cache/database/\<close>).  \<open>um_draw\<close> is \<open>utility::generate_uuid\<close>.  The copies a map undergoes on its way through the layers keep its values.
\<close>

section \<open>UUIDMapper\<close>

record ('w, 'k) uuid_mapper =
  um_db :: "('w, 'k, uuid) db_ops"
  um_draw :: "('w, uuid) op"

definition um_uuid :: "('w, 'k) uuid_mapper \<Rightarrow> ('w, uuid) op" where
  "um_uuid um = um_draw um"

definition um_count :: "('w, 'k) uuid_mapper \<Rightarrow> 'k \<Rightarrow> 'w \<Rightarrow> bool res" where
  "um_count um key w = noexceptR (db_count (um_db um) key w)"

definition um_insert :: "('w, 'k) uuid_mapper \<Rightarrow> 'k \<Rightarrow> ('w, unit) op" where
  "um_insert um key = bindS (\<lambda>w. (um_count um key w, w)) (\<lambda>found.
     if found then retS ()
     else bindS (um_uuid um) (\<lambda>u. db_insert (um_db um) key u))"

definition um_keys :: "('w, 'k) uuid_mapper \<Rightarrow> 'w \<Rightarrow> 'k list res" where
  "um_keys um = db_keys (um_db um)"

definition um_free :: "('w, 'k) uuid_mapper \<Rightarrow> 'k \<Rightarrow> ('w, unit) op" where
  "um_free um key = db_free (um_db um) key"

definition um_at :: "('w, 'k) uuid_mapper \<Rightarrow> 'k \<Rightarrow> 'w \<Rightarrow> uuid db_value res" where
  "um_at um key w = db_at (um_db um) key w"

definition um_backup :: "('w, 'k) uuid_mapper \<Rightarrow> ('w, unit) op" where
  "um_backup um = db_backup (um_db um)"

definition um_dump :: "('w, 'k) uuid_mapper \<Rightarrow> ('w, unit) op" where
  "um_dump um = db_dump (um_db um)"

section \<open>ProxyMapMaker\<close>

record ('w, 'x) proxy_map_maker =
  pmm_buffer :: "('w, (proxy_map, (string, 'x) omap) omap) ref"
  pmm_db :: "('w, 'x) uuid_mapper"

definition pmm_keys :: "('w, 'x) proxy_map_maker \<Rightarrow> 'w \<Rightarrow> (string, 'x) omap list res" where
  "pmm_keys p w = Inr (map snd (rd (pmm_buffer p) w))"

fun pmm_count :: "('w, 'x) proxy_map_maker \<Rightarrow> (string, 'x) omap \<Rightarrow> 'w \<Rightarrow> bool res" where
  "pmm_count p [] w = Inr True"
| "pmm_count p ((k, v) # key) w =
     bindR (um_count (pmm_db p) v w) (\<lambda>c. if \<not> c then Inr False else pmm_count p key w)"

text \<open>The loop of \<open>at\<close>; \<open>rv\<close> is the map under construction.\<close>

fun pmm_at_loop :: "('w, 'x) proxy_map_maker \<Rightarrow> (string, 'x) omap \<Rightarrow> proxy_map \<Rightarrow> 'w \<Rightarrow> proxy_map res" where
  "pmm_at_loop p [] rv w = Inr rv"
| "pmm_at_loop p ((k, v) # key) rv w =
     bindR (bindR (um_at (pmm_db p) v w) dbv_get) (\<lambda>u. pmm_at_loop p key (ci_emplace k u rv) w)"

definition pmm_at :: "('w, 'x) proxy_map_maker \<Rightarrow> (string, 'x) omap \<Rightarrow> 'w \<Rightarrow> proxy_map res" where
  "pmm_at p key w = pmm_at_loop p key [] w"

definition pmm_insert :: "('w, 'x) proxy_map_maker \<Rightarrow> (string, 'x) omap \<Rightarrow> ('w, unit) op" where
  "pmm_insert p key =
     bindS (forS (\<lambda>(k, v). um_insert (pmm_db p) v) key) (\<lambda>_.
     bindS (\<lambda>w. (pmm_at p key w, w)) (\<lambda>proxy. modR (pmm_buffer p) (std_emplace proxy key)))"

definition pmm_free :: "('w, 'x) proxy_map_maker \<Rightarrow> (string, 'x) omap \<Rightarrow> ('w, unit) op" where
  "pmm_free p key = forS (\<lambda>(k, v). um_free (pmm_db p) v) key"

definition pmm_un_proxy :: "('w, 'x) proxy_map_maker \<Rightarrow> proxy_map \<Rightarrow> 'w \<Rightarrow> (string, 'x) omap res" where
  "pmm_un_proxy p val w = std_at val (rd (pmm_buffer p) w)"

definition pmm_backup :: "('w, 'x) proxy_map_maker \<Rightarrow> ('w, unit) op" where
  "pmm_backup p = um_backup (pmm_db p)"

definition pmm_dump :: "('w, 'x) proxy_map_maker \<Rightarrow> ('w, unit) op" where
  "pmm_dump p = um_dump (pmm_db p)"

section \<open>KeyProxyMapper\<close>

definition kpm_count :: "('w, 'x) proxy_map_maker \<Rightarrow> ('w, proxy_map, 'v) db_ops
    \<Rightarrow> (string, 'x) omap \<Rightarrow> 'w \<Rightarrow> bool res" where
  "kpm_count p sub key w = noexceptR
     (bindR (pmm_count p key w) (\<lambda>c.
        if \<not> c then Inr False
        else bindR (pmm_at p key w) (\<lambda>proxy. db_count sub proxy w)))"

definition kpm_insert :: "('w, 'x) proxy_map_maker \<Rightarrow> ('w, proxy_map, 'v) db_ops
    \<Rightarrow> (string, 'x) omap \<Rightarrow> 'v \<Rightarrow> ('w, unit) op" where
  "kpm_insert p sub key val =
     bindS (pmm_insert p key) (\<lambda>_.
     bindS (\<lambda>w. (pmm_at p key w, w)) (\<lambda>proxy. db_insert sub proxy val))"

definition kpm_free :: "('w, 'x) proxy_map_maker \<Rightarrow> ('w, proxy_map, 'v) db_ops
    \<Rightarrow> (string, 'x) omap \<Rightarrow> ('w, unit) op" where
  "kpm_free p sub key = bindS (\<lambda>w. (pmm_at p key w, w)) (\<lambda>proxy. db_free sub proxy)"

definition kpm_at :: "('w, 'x) proxy_map_maker \<Rightarrow> ('w, proxy_map, 'v) db_ops
    \<Rightarrow> (string, 'x) omap \<Rightarrow> 'w \<Rightarrow> 'v db_value res" where
  "kpm_at p sub key w = bindR (pmm_at p key w) (\<lambda>proxy. db_at sub proxy w)"

definition kpm_backup :: "('w, 'x) proxy_map_maker \<Rightarrow> ('w, proxy_map, 'v) db_ops \<Rightarrow> ('w, unit) op" where
  "kpm_backup p sub = bindS (pmm_backup p) (\<lambda>_. db_backup sub)"

definition kpm_dump :: "('w, 'x) proxy_map_maker \<Rightarrow> ('w, proxy_map, 'v) db_ops \<Rightarrow> ('w, unit) op" where
  "kpm_dump p sub = bindS (pmm_backup p) (\<lambda>_. db_dump sub)"

definition key_proxy_mapper_db :: "('w, 'x) proxy_map_maker \<Rightarrow> ('w, proxy_map, 'v) db_ops
    \<Rightarrow> ('w, (string, 'x) omap, 'v) db_ops" where
  "key_proxy_mapper_db p sub = \<lparr>op_keys = pmm_keys p, op_count = kpm_count p sub,
     op_insert = kpm_insert p sub, op_free = kpm_free p sub, op_at = kpm_at p sub,
     op_backup = kpm_backup p sub, op_dump = kpm_dump p sub\<rparr>"

section \<open>ValueProxyMapper\<close>

definition vpm_count :: "('w, 'k, proxy_map) db_ops \<Rightarrow> 'k \<Rightarrow> 'w \<Rightarrow> bool res" where
  "vpm_count sub key w = noexceptR (db_count sub key w)"

definition vpm_insert :: "('w, 'x) proxy_map_maker \<Rightarrow> ('w, 'k, proxy_map) db_ops
    \<Rightarrow> 'k \<Rightarrow> (string, 'x) omap \<Rightarrow> ('w, unit) op" where
  "vpm_insert p sub key val =
     bindS (pmm_insert p val) (\<lambda>_.
     bindS (\<lambda>w. (pmm_at p val w, w)) (\<lambda>proxy. db_insert sub key proxy))"

definition vpm_free :: "('w, 'k, proxy_map) db_ops \<Rightarrow> 'k \<Rightarrow> ('w, unit) op" where
  "vpm_free sub key = db_free sub key"

definition vpm_at :: "('w, 'x) proxy_map_maker \<Rightarrow> ('w, 'k, proxy_map) db_ops
    \<Rightarrow> 'k \<Rightarrow> 'w \<Rightarrow> (string, 'x) omap db_value res" where
  "vpm_at p sub key w =
     bindR (db_get sub key w) (\<lambda>proxy. bindR (pmm_un_proxy p proxy w) (\<lambda>v. Inr (dbv_own v)))"

definition vpm_backup :: "('w, 'x) proxy_map_maker \<Rightarrow> ('w, 'k, proxy_map) db_ops \<Rightarrow> ('w, unit) op" where
  "vpm_backup p sub = bindS (pmm_backup p) (\<lambda>_. db_backup sub)"

definition vpm_dump :: "('w, 'x) proxy_map_maker \<Rightarrow> ('w, 'k, proxy_map) db_ops \<Rightarrow> ('w, unit) op" where
  "vpm_dump p sub = bindS (pmm_backup p) (\<lambda>_. db_dump sub)"

definition value_proxy_mapper_db :: "('w, 'x) proxy_map_maker \<Rightarrow> ('w, 'k, proxy_map) db_ops
    \<Rightarrow> ('w, 'k, (string, 'x) omap) db_ops" where
  "value_proxy_mapper_db p sub = \<lparr>op_keys = db_keys sub, op_count = vpm_count sub,
     op_insert = vpm_insert p sub, op_free = vpm_free sub, op_at = vpm_at p sub,
     op_backup = vpm_backup p sub, op_dump = vpm_dump p sub\<rparr>"

section \<open>Maps and their proxies\<close>

definition map_ok :: "('k \<Rightarrow> bool) \<Rightarrow> (string, 'k) omap \<Rightarrow> bool" where
  "map_ok ok m \<longleftrightarrow> om_wf ci_fold m \<and> (\<forall>(k, v) \<in> set m. ok v)"

text \<open>Maps with the same keys, case included, and the same values.\<close>

definition same_map :: "('k \<Rightarrow> 'k \<Rightarrow> bool) \<Rightarrow> (string, 'k) omap \<Rightarrow> (string, 'k) omap \<Rightarrow> bool" where
  "same_map same m m' \<longleftrightarrow> list_all2 (\<lambda>(k, v) (k', v'). k = k' \<and> same v v') m m'"

definition proxied :: "('k \<Rightarrow> uuid option) \<Rightarrow> (string, 'k) omap \<Rightarrow> bool" where
  "proxied u m \<longleftrightarrow> (\<forall>(k, v) \<in> set m. u v \<noteq> None)"

definition proxy :: "('k \<Rightarrow> uuid option) \<Rightarrow> (string, 'k) omap \<Rightarrow> proxy_map" where
  "proxy u m = map (\<lambda>(k, v). (k, the (u v))) m"

lemma proxy_Cons [simp]: "proxy u [] = []" "proxy u ((k, v) # m) = (k, the (u v)) # proxy u m"
  by (simp_all add: proxy_def)

text \<open>Emplacing the pairs of a well-formed map in order builds the map.\<close>

lemma om_ins_last: "\<forall>(k', v') \<in> set m. f k' < f k \<Longrightarrow> om_ins f k v m = m @ [(k, v)]"
  by (induction m) (auto dest: less_asym)

lemma ci_emplace_last:
  assumes "\<forall>(k', v') \<in> set m. ci_fold k' < ci_fold k"
  shows "ci_emplace k v m = m @ [(k, v)]"
proof -
  have "ci_find k m = None" using assms by (auto simp: om_find_None_iff)
  then show ?thesis using assms by (simp add: om_emplace_def om_count_def om_ins_last)
qed

section \<open>The contract of a UUID mapper\<close>

text \<open>
  \<open>uid\<close> is the UUID a key has; \<open>known\<close> the UUIDs in use.  Keys have one UUID each, different
  keys different ones; giving a UUID to a key keeps those of the others, and takes a new one.
\<close>

locale uuid_source =
  fixes um :: "('w, 'k) uuid_mapper"
    and good :: "'w \<Rightarrow> bool"
    and ok :: "'k \<Rightarrow> bool"
    and same :: "'k \<Rightarrow> 'k \<Rightarrow> bool"
    and uid :: "'w \<Rightarrow> 'k \<Rightarrow> uuid option"
    and known :: "'w \<Rightarrow> uuid set"
    and rest :: "'w \<Rightarrow> 'r"
  assumes count_law: "good w \<Longrightarrow> ok k \<Longrightarrow> um_count um k w = Inr (uid w k \<noteq> None)"
    and at_law: "good w \<Longrightarrow> ok k \<Longrightarrow> uid w k = Some u \<Longrightarrow> bindR (um_at um k w) dbv_get = Inr u"
    and insert_law: "good w \<Longrightarrow> ok k \<Longrightarrow>
      \<exists>w'. um_insert um k w = (Inr (), w') \<and> good w' \<and> rest w' = rest w \<and> known w \<subseteq> known w' \<and>
        uid w' k \<noteq> None \<and>
        (\<forall>k'. ok k' \<longrightarrow> (uid w k' \<noteq> None \<longrightarrow> uid w' k' = uid w k') \<and>
           (\<forall>u. uid w k' = None \<longrightarrow> uid w' k' = Some u \<longrightarrow> u \<notin> known w))"
    and known_law: "good w \<Longrightarrow> ok k \<Longrightarrow> uid w k = Some u \<Longrightarrow> u \<in> known w"
    and inj_law: "good w \<Longrightarrow> ok k \<Longrightarrow> ok k' \<Longrightarrow> uid w k = Some u \<Longrightarrow> uid w k' = Some u \<Longrightarrow> same k k'"
    and same_law: "good w \<Longrightarrow> ok k \<Longrightarrow> ok k' \<Longrightarrow> same k k' \<Longrightarrow> uid w k = uid w k'"
begin

definition grows :: "'w \<Rightarrow> 'w \<Rightarrow> bool" where
  "grows w w' \<longleftrightarrow> good w' \<and> rest w' = rest w \<and> known w \<subseteq> known w' \<and>
     (\<forall>k'. ok k' \<longrightarrow> (uid w k' \<noteq> None \<longrightarrow> uid w' k' = uid w k') \<and>
        (\<forall>u. uid w k' = None \<longrightarrow> uid w' k' = Some u \<longrightarrow> u \<notin> known w))"

lemma grows_refl: "good w \<Longrightarrow> grows w w"
  by (auto simp: grows_def)

lemma grows_trans: "grows w1 w2 \<Longrightarrow> grows w2 w3 \<Longrightarrow> grows w1 w3"
  unfolding grows_def by (metis (no_types, lifting) not_None_eq subset_iff)

lemma insert_grows:
  "good w \<Longrightarrow> ok k \<Longrightarrow> \<exists>w'. um_insert um k w = (Inr (), w') \<and> grows w w' \<and> uid w' k \<noteq> None"
  using insert_law by (fastforce simp: grows_def)

lemma insert_all:
  assumes "good w" and "\<forall>(k, v) \<in> set m. ok v"
  shows "\<exists>w'. forS (\<lambda>(k, v). um_insert um v) m w = (Inr (), w') \<and> grows w w' \<and>
    (\<forall>(k, v) \<in> set m. uid w' v \<noteq> None)"
  using assms
proof (induction m arbitrary: w)
  case Nil
  then show ?case by (auto intro: grows_refl)
next
  case (Cons p m)
  obtain k v where p: "p = (k, v)" by (cases p)
  obtain w1 where w1: "um_insert um v w = (Inr (), w1)" "grows w w1" "uid w1 v \<noteq> None"
    using insert_grows Cons.prems p by fastforce
  moreover obtain w2 where "forS (\<lambda>(k, v). um_insert um v) m w1 = (Inr (), w2)" "grows w1 w2"
      "\<forall>(k, v) \<in> set m. uid w2 v \<noteq> None"
    using Cons.IH [of w1] Cons.prems w1(2) by (auto simp: grows_def)
  moreover from calculation have "uid w2 v \<noteq> None"
    using Cons.prems p by (auto simp: grows_def)
  ultimately show ?case
    by (auto simp: p bindS_def intro: grows_trans)
qed

lemma proxy_grows:
  assumes "grows w w'" and "map_ok ok m" and "proxied (uid w) m"
  shows "proxied (uid w') m" and "proxy (uid w') m = proxy (uid w) m"
  using assms by (fastforce simp: grows_def map_ok_def proxied_def proxy_def)+

lemma proxy_inj:
  assumes "good w"
  shows "\<lbrakk>\<forall>(k, v) \<in> set m. ok v; \<forall>(k, v) \<in> set m'. ok v; proxied (uid w) m; proxied (uid w) m'\<rbrakk> \<Longrightarrow>
    proxy (uid w) m = proxy (uid w) m' \<longleftrightarrow> same_map same m m'"
proof (induction m arbitrary: m')
  case Nil
  then show ?case by (auto simp: proxy_def same_map_def)
next
  case (Cons p m)
  obtain k v where p: "p = (k, v)" by (cases p)
  show ?case
  proof (cases m')
    case (Cons p' n)
    obtain k' v' where p': "p' = (k', v')" by (cases p')
    have "the (uid w v) = the (uid w v') \<longleftrightarrow> same v v'"
      using Cons.prems Cons p p' inj_law [OF assms, of v v'] same_law [OF assms, of v v']
      by (auto simp: proxied_def)
    then show ?thesis
      using Cons.IH [of n] Cons.prems Cons p p' by (auto simp: same_map_def proxied_def)
  qed (simp add: p same_map_def)
qed

lemma same_map_proxied:
  assumes "good w" "\<forall>(k, v) \<in> set m. ok v" "\<forall>(k, v) \<in> set m'. ok v" "same_map same m m'" "proxied (uid w) m"
  shows "proxied (uid w) m'"
  using assms(4,2,3,5) unfolding same_map_def
proof (induction rule: list_all2_induct)
  case (Cons x xs y ys)
  then show ?case using same_law [OF assms(1)] by (auto simp: proxied_def)
qed (simp add: proxied_def)

end

text \<open>A \<open>ProxyMapMaker\<close> whose buffer is its own.\<close>

locale proxy_maker = uuid_source um good ok same uid known rest
  for um :: "('w, 'x) uuid_mapper"
    and good :: "'w \<Rightarrow> bool"
    and ok :: "'x \<Rightarrow> bool"
    and same :: "'x \<Rightarrow> 'x \<Rightarrow> bool"
    and uid :: "'w \<Rightarrow> 'x \<Rightarrow> uuid option"
    and known :: "'w \<Rightarrow> uuid set"
    and rest :: "'w \<Rightarrow> 'r" +
  fixes p :: "('w, 'x) proxy_map_maker"
  assumes db_is [simp]: "pmm_db p = um"
    and buffer_own: "good (wr (pmm_buffer p) f w) = good w" "uid (wr (pmm_buffer p) f w) = uid w"
      "known (wr (pmm_buffer p) f w) = known w" "rest (wr (pmm_buffer p) f w) = rest w"
begin

lemma pmm_count_law:
  "good w \<Longrightarrow> \<forall>(k, v) \<in> set m. ok v \<Longrightarrow> pmm_count p m w = Inr (proxied (uid w) m)"
  by (induction m) (auto simp: count_law proxied_def)

lemma pmm_at_loop_law:
  "\<lbrakk>good w; \<forall>(k, v) \<in> set m. ok v; proxied (uid w) m; om_wf ci_fold m;
    \<forall>(k', v') \<in> set rv. \<forall>(k, v) \<in> set m. ci_fold k' < ci_fold k\<rbrakk> \<Longrightarrow>
   pmm_at_loop p m rv w = Inr (rv @ proxy (uid w) m)"
proof (induction m arbitrary: rv)
  case (Cons x m)
  obtain k v where x: "x = (k, v)" by (cases x)
  obtain u where u: "uid w v = Some u" using Cons.prems(3) x by (auto simp: proxied_def)
  have at: "bindR (um_at um v w) dbv_get = Inr u"
    using at_law [OF Cons.prems(1) _ u] Cons.prems(2) x by auto
  have emp: "ci_emplace k u rv = rv @ [(k, u)]"
    using Cons.prems(5) x by (intro ci_emplace_last) auto
  have "pmm_at_loop p m (rv @ [(k, u)]) w = Inr ((rv @ [(k, u)]) @ proxy (uid w) m)"
    using Cons.prems x by (intro Cons.IH) (auto simp: proxied_def om_wf_Cons)
  then show ?case by (simp add: x at emp u)
qed (simp add: proxy_def)

lemma pmm_at_law:
  "good w \<Longrightarrow> map_ok ok m \<Longrightarrow> proxied (uid w) m \<Longrightarrow> pmm_at p m w = Inr (proxy (uid w) m)"
  by (simp add: pmm_at_def pmm_at_loop_law map_ok_def)

lemma pmm_insert_law:
  assumes "good w" and "map_ok ok m"
  shows "\<exists>w'. pmm_insert p m w = (Inr (), w') \<and> grows w w' \<and> proxied (uid w') m"
proof -
  obtain w1 where w1: "forS (\<lambda>(k, v). um_insert um v) m w = (Inr (), w1)" "grows w w1"
      "proxied (uid w1) m"
    using insert_all [OF assms(1), of m] assms(2) unfolding map_ok_def proxied_def by blast
  then have "pmm_at p m w1 = Inr (proxy (uid w1) m)"
    using assms(2) by (intro pmm_at_law) (auto simp: grows_def)
  then show ?thesis
    using w1 by (auto simp: pmm_insert_def bindS_def grows_def buffer_own)
qed

end

text \<open>
  A \<open>KeyProxyMapper\<close> over an in-memory \<open>Native\<close>: it is a map whose keys are maps of values.
  Here a second insertion overwrites the first.
\<close>

locale key_proxies = proxy_maker um good ok same uid known rest p
  for um :: "('w, 'x) uuid_mapper"
    and good :: "'w \<Rightarrow> bool"
    and ok :: "'x \<Rightarrow> bool"
    and same :: "'x \<Rightarrow> 'x \<Rightarrow> bool"
    and uid :: "'w \<Rightarrow> 'x \<Rightarrow> uuid option"
    and known :: "'w \<Rightarrow> uuid set"
    and rest :: "'w \<Rightarrow> 'r"
    and p :: "('w, 'x) proxy_map_maker" +
  fixes r :: "('w, (proxy_map, 'v) omap) ref"
  assumes results_ok: "ref_ok r"
    and results_rest: "rest w' = rest w \<Longrightarrow> rd r w' = rd r w"
    and results_own: "good (wr r f w) = good w" "uid (wr r f w) = uid w" "known (wr r f w) = known w"
begin

abbreviation kdb :: "('w, (string, 'x) omap, 'v) db_ops" where
  "kdb \<equiv> key_proxy_mapper_db p (native_db r None)"

definition kgood :: "'w \<Rightarrow> bool" where
  "kgood w \<longleftrightarrow> good w \<and> (\<forall>(pm, v) \<in> set (rd r w). snd ` set pm \<subseteq> known w)"

definition klook :: "'w \<Rightarrow> (string, 'x) omap \<Rightarrow> 'v option" where
  "klook w m = (if proxied (uid w) m then std_find (proxy (uid w) m) (rd r w) else None)"

lemma kcount_law: "good w \<Longrightarrow> map_ok ok m \<Longrightarrow> db_count kdb m w = Inr (klook w m \<noteq> None)"
proof -
  assume "good w" "map_ok ok m"
  then have "op_count kdb m w = Inr (klook w m \<noteq> None)"
    by (auto simp: key_proxy_mapper_db_def kpm_count_def pmm_count_law map_ok_def
        pmm_at_law [unfolded map_ok_def] klook_def om_count_def)
  then show ?thesis by (simp add: db_count_def)
qed

lemma kget_law:
  assumes "good w" "map_ok ok m" "klook w m = Some v"
  shows "db_get kdb m w = Inr v"
proof -
  have p: "proxied (uid w) m" "std_find (proxy (uid w) m) (rd r w) = Some v"
    using assms(3) by (simp_all add: klook_def split: if_splits)
  have "op_at kdb m w = db_at (native_db r None) (proxy (uid w) m) w"
    using pmm_at_law [OF assms(1,2) p(1)] by (simp add: key_proxy_mapper_db_def kpm_at_def)
  then have "db_at kdb m w = db_at (native_db r None) (proxy (uid w) m) w"
    using kcount_law [OF assms(1,2)] assms(3) by (simp add: db_at_def [of kdb])
  then show ?thesis
    using native_get [of r None "proxy (uid w) m" w] p(2) by (simp add: db_get_def)
qed

lemma proxy_known:
  assumes "good w" "\<forall>(k, v) \<in> set m. ok v" "proxied (uid w) m"
  shows "snd ` set (proxy (uid w) m) \<subseteq> known w"
proof -
  have "the (uid w v) \<in> known w" if "(k, v) \<in> set m" for k v
    using that assms known_law [of w v] by (fastforce simp: proxied_def)
  then show ?thesis by (auto simp: proxy_def)
qed

text \<open>A map with a value that had no UUID before is no key of the results.\<close>

lemma fresh_proxy_absent:
  assumes "kgood w" "grows w w'" "map_ok ok m" "proxied (uid w') m" "\<not> proxied (uid w) m"
  shows "std_find (proxy (uid w') m) (rd r w) = None"
proof -
  obtain k v where kv: "(k, v) \<in> set m" "uid w v = None" using assms(5) by (auto simp: proxied_def)
  obtain u where u: "uid w' v = Some u" using assms(4) kv by (auto simp: proxied_def)
  have "u \<notin> known w" using assms(2,3) kv u by (auto simp: grows_def map_ok_def)
  moreover have "u \<in> snd ` set (proxy (uid w') m)" using kv u by (force simp: proxy_def)
  ultimately show ?thesis
    using assms(1) by (fastforce simp: kgood_def om_find_None_iff)
qed

text \<open>UUIDs given to other values change nothing.\<close>

lemma kgood_grows:
  assumes "kgood w" "grows w w'"
  shows "kgood w'"
proof -
  have rd: "rd r w' = rd r w" using assms(2) by (intro results_rest) (simp add: grows_def)
  have kn: "known w \<subseteq> known w'" "good w'" using assms(2) by (simp_all add: grows_def)
  have "\<forall>x \<in> set (rd r w). snd ` set (fst x) \<subseteq> known w"
    using assms(1) by (simp add: kgood_def case_prod_unfold)
  then have "\<forall>x \<in> set (rd r w). snd ` set (fst x) \<subseteq> known w'" using kn(1) by (meson order_trans)
  then show ?thesis using kn(2) by (simp add: kgood_def rd case_prod_unfold)
qed

lemma klook_grows:
  assumes "kgood w" "grows w w'" "map_ok ok m"
  shows "klook w' m = klook w m"
proof -
  have rd: "rd r w' = rd r w" using assms(2) by (intro results_rest) (simp add: grows_def)
  show ?thesis
  proof (cases "proxied (uid w) m")
    case True
    then show ?thesis using proxy_grows [OF assms(2,3) True] by (simp add: klook_def rd)
  next
    case False
    then show ?thesis
      using fresh_proxy_absent [OF assms] by (simp add: klook_def rd)
  qed
qed

text \<open>Writing under the proxies of a map keeps the databases good.\<close>

lemma kgood_write:
  assumes "kgood w" "grows w w1" "map_ok ok m" "proxied (uid w1) m"
  shows "kgood (wr r (std_set (proxy (uid w1) m) v) w1)"
proof -
  have g1: "good w1" and kn: "known w \<subseteq> known w1" using assms(2) by (simp_all add: grows_def)
  have rd1: "rd r w1 = rd r w" using assms(2) by (intro results_rest) (simp add: grows_def)
  have "snd ` set pm \<subseteq> known w1" if "(pm, x) \<in> set (std_set (proxy (uid w1) m) v (rd r w))" for pm x
  proof -
    have "pm \<in> fst ` set (std_set (proxy (uid w1) m) v (rd r w))" using that by (rule image_eqI [rotated]) simp
    then consider "pm = proxy (uid w1) m" | y where "(pm, y) \<in> set (rd r w)"
      using om_keys_set [of id "proxy (uid w1) m" v "rd r w"] by auto
    then show ?thesis
    proof cases
      case 1
      then show ?thesis using proxy_known [OF g1 _ assms(4)] assms(3) by (simp add: map_ok_def)
    next
      case 2
      then have "snd ` set pm \<subseteq> known w" using assms(1) unfolding kgood_def by blast
      then show ?thesis using kn by blast
    qed
  qed
  then show ?thesis using g1 results_ok rd1 by (auto simp: kgood_def results_own ref_ok_def)
qed

text \<open>What is then found is the value under the same map, and what was there under every other one.\<close>

lemma klook_write:
  assumes w: "kgood w" "grows w w1" "map_ok ok m" "proxied (uid w1) m" and m': "map_ok ok m'"
  shows "klook (wr r (std_set (proxy (uid w1) m) v) w1) m' = (if same_map same m m' then Some v else klook w m')"
proof -
  have g1: "good w1" using w(2) by (simp add: grows_def)
  have rd1: "rd r w1 = rd r w" using w(2) by (intro results_rest) (simp add: grows_def)
  have rd': "rd r (wr r (std_set (proxy (uid w1) m) v) w1) = std_set (proxy (uid w1) m) v (rd r w)"
    using results_ok rd1 by (simp add: ref_ok_def)
  have okm: "\<forall>(k, v) \<in> set m. ok v" "\<forall>(k, v) \<in> set m'. ok v" using w(3) m' by (simp_all add: map_ok_def)
  show ?thesis
  proof (cases "proxied (uid w1) m'")
    case True
    have inj: "proxy (uid w1) m = proxy (uid w1) m' \<longleftrightarrow> same_map same m m'"
      using proxy_inj [OF g1 okm w(4) True] .
    have old: "std_find (proxy (uid w1) m') (rd r w) = klook w m'"
      using proxy_grows [OF w(2) m'] fresh_proxy_absent [OF w(1,2) m' True] by (auto simp: klook_def)
    have "klook (wr r (std_set (proxy (uid w1) m) v) w1) m' =
        (if proxy (uid w1) m = proxy (uid w1) m' then Some v else std_find (proxy (uid w1) m') (rd r w))"
      using True by (auto simp: klook_def results_own rd' om_simps)
    then show ?thesis unfolding old inj .
  next
    case False
    then have "\<not> proxied (uid w) m'" using proxy_grows(1) [OF w(2) m'] by blast
    moreover have "\<not> same_map same m m'" using same_map_proxied [OF g1 okm _ w(4)] False by blast
    ultimately show ?thesis using False by (simp add: klook_def results_own)
  qed
qed

lemma kinsert_law:
  assumes "kgood w" and "map_ok ok m"
  shows "\<exists>w'. db_insert kdb m v w = (Inr (), w') \<and> kgood w' \<and>
    (\<exists>w1. grows w w1 \<and> w' = wr r (std_set (proxy (uid w1) m) v) w1) \<and>
    (\<forall>m'. map_ok ok m' \<longrightarrow> klook w' m' = (if same_map same m m' then Some v else klook w m'))"
proof -
  have "good w" using assms(1) by (simp add: kgood_def)
  then obtain w1 where w1: "pmm_insert p m w = (Inr (), w1)" "grows w w1" "proxied (uid w1) m"
    using pmm_insert_law [OF _ assms(2)] by blast
  then have "pmm_at p m w1 = Inr (proxy (uid w1) m)" using pmm_at_law assms(2) by (simp add: grows_def)
  then have "op_insert kdb m v w = (Inr (), wr r (std_set (proxy (uid w1) m) v) w1)"
    by (simp add: key_proxy_mapper_db_def kpm_insert_def bindS_def w1(1))
  then have "db_insert kdb m v w = (Inr (), wr r (std_set (proxy (uid w1) m) v) w1)" by (simp add: db_insert_def)
  then show ?thesis
    using w1(2) kgood_write [OF assms(1) w1(2) assms(2) w1(3)] klook_write [OF assms(1) w1(2) assms(2) w1(3)] by blast
qed

end

end
