(* ===== verification/Module_Cache.thy ===== *)
theory Module_Cache
  imports Proxy_Maps
begin

text \<open>
  The caches modules see: \<open>DatabaseFactory\<close> (\<open>cache/database/database_factory\<close>), which stacks
  the databases, \<open>ModuleCache\<close>, \<open>UserCache\<close> and \<open>ModuleManagerCache\<close> (\<open>cache/\<close>).  A database is
  numbered when it is made; the number selects its members in the memory of the process.
  RocksDB and cereal, which long-term storage is built on, are parameters.
\<close>

section \<open>DatabaseFactory\<close>

record 'd database_factory =
  df_any2uuid :: "('d cache_world, any_field, uuid) db_ops"
  df_serial_pm :: "('d cache_world, proxy_map, proxy_map) db_ops option"

definition df_set_type_eraser_backend :: "'d database_factory \<Rightarrow> 'd database_factory" where
  "df_set_type_eraser_backend df = df\<lparr>df_any2uuid := any2uuid_db None\<rparr>"

text \<open>\<open>open_rocks\<close> makes a \<open>RocksDB\<close> for a path, which may fail.\<close>

type_synonym 'd open_rocks = "string \<Rightarrow> ('d cache_world, ('d cache_world, string, string) db_ops) op"

definition df_set_type_eraser_backend_path ::
  "(uuid, any_field) archive \<Rightarrow> 'd open_rocks \<Rightarrow> string \<Rightarrow> ('d database_factory \<times> 'd cache_world, unit) op" where
  "df_set_type_eraser_backend_path ar open_rocks path s = (case s of (df, w) \<Rightarrow>
     (case open_rocks path w of
        (Inl e, w') \<Rightarrow> (Inl e, (df, w'))
      | (Inr pRDB_uuid, w') \<Rightarrow> (Inr (), (df\<lparr>df_any2uuid := any2uuid_db (Some (serialized_db ar pRDB_uuid))\<rparr>, w'))))"

definition df_set_serialized_pm_to_pm ::
  "(proxy_map, proxy_map) archive \<Rightarrow> 'd open_rocks \<Rightarrow> string \<Rightarrow> ('d database_factory \<times> 'd cache_world, unit) op" where
  "df_set_serialized_pm_to_pm ar open_rocks path s = (case s of (df, w) \<Rightarrow>
     (case open_rocks path w of
        (Inl e, w') \<Rightarrow> (Inl e, (df, w'))
      | (Inr pRDB_io, w') \<Rightarrow> (Inr (), (df\<lparr>df_serial_pm := Some (serialized_db ar pRDB_io)\<rparr>, w'))))"

definition df_new :: "'d database_factory" where
  "df_new = \<lparr>df_any2uuid = any2uuid_db None, df_serial_pm = None\<rparr>"

text \<open>\<open>any_cast<ModuleInput>\<close> and \<open>any_cast<ModuleResult>\<close>: no value of the model has that class.\<close>

definition cast_to_field :: "string \<Rightarrow> any_field \<Rightarrow> 'k res" where
  "cast_to_field T a = (case a of
      None \<Rightarrow> Inl (runtime_error ''Object to unwrap does not have a value.'')
    | Some w \<Rightarrow> Inl (cast_error T w))"

definition input_uuid_mapper :: "('d cache_world, any_field, uuid) db_ops \<Rightarrow> ('d cache_world, module_input) uuid_mapper" where
  "input_uuid_mapper any2uuid =
     \<lparr>um_db = eraser_db make_any_input (cast_to_field ''pluginplay::ModuleInput'') any2uuid,
      um_draw = generate_uuid\<rparr>"

definition result_uuid_mapper :: "('d cache_world, any_field, uuid) db_ops \<Rightarrow> ('d cache_world, module_result) uuid_mapper" where
  "result_uuid_mapper any2uuid =
     \<lparr>um_db = eraser_db make_any_result (cast_to_field ''pluginplay::ModuleResult'') any2uuid,
      um_draw = generate_uuid\<rparr>"

definition input_map_maker :: "nat \<Rightarrow> 'd database_factory \<Rightarrow> ('d cache_world, module_input) proxy_map_maker" where
  "input_map_maker n df = \<lparr>pmm_buffer = r_input_buffer n, pmm_db = input_uuid_mapper (df_any2uuid df)\<rparr>"

definition result_map_maker :: "nat \<Rightarrow> 'd database_factory \<Rightarrow> ('d cache_world, module_result) proxy_map_maker" where
  "result_map_maker n df = \<lparr>pmm_buffer = r_result_buffer n, pmm_db = result_uuid_mapper (df_any2uuid df)\<rparr>"

definition df_pm2result_db :: "nat \<Rightarrow> string \<Rightarrow> 'd database_factory
    \<Rightarrow> ('d cache_world, proxy_map, result_map) db_ops" where
  "df_pm2result_db n module_uuid df =
     (case df_serial_pm df of
        Some serial_pm \<Rightarrow>
          native_db (r_results n) (Some
            (value_proxy_mapper_db (result_map_maker n df)
              (injector_db ''__CACHE__ MODULE NAME __CACHE__'' module_uuid serial_pm)))
      | None \<Rightarrow> native_db (r_results n) None)"

definition df_default_module_db :: "nat \<Rightarrow> string \<Rightarrow> 'd database_factory
    \<Rightarrow> ('d cache_world, input_map, result_map) db_ops" where
  "df_default_module_db n module_uuid df =
     key_proxy_mapper_db (input_map_maker n df) (df_pm2result_db n module_uuid df)"

section \<open>ModuleCache\<close>

text \<open>The database of the PIMPL, or a null PIMPL.\<close>

type_synonym 'd module_cache = "('d cache_world, input_map, result_map) db_ops option"

definition mc_assert_pimpl' :: "'d module_cache \<Rightarrow> unit res" where
  "mc_assert_pimpl' mc = (case mc of
      Some db \<Rightarrow> Inr ()
    | None \<Rightarrow> Inl (runtime_error (''ModuleCache does not have a PIMPL. Did you move '' @
                    ''from it or initialize it with a null pointer?'')))"

definition mc_pimpl' :: "'d module_cache \<Rightarrow> ('d cache_world, input_map, result_map) db_ops res" where
  "mc_pimpl' mc = bindR (mc_assert_pimpl' mc) (\<lambda>_. deref mc)"

definition mc_count :: "'d module_cache \<Rightarrow> input_map \<Rightarrow> 'd cache_world \<Rightarrow> bool res" where
  "mc_count mc key w = (case mc of None \<Rightarrow> Inr False | Some db \<Rightarrow> db_count db key w)"

definition mc_cache :: "'d module_cache \<Rightarrow> input_map \<Rightarrow> result_map \<Rightarrow> ('d cache_world, unit) op" where
  "mc_cache mc key val = bindS (liftS (mc_pimpl' mc)) (\<lambda>db. db_insert db key val)"

definition mc_uncache :: "'d module_cache \<Rightarrow> input_map \<Rightarrow> 'd cache_world \<Rightarrow> result_map res" where
  "mc_uncache mc key w = bindR (mc_count mc key w) (\<lambda>c.
     if \<not> c then Inl (out_of_range ''No cached results'')
     else bindR (deref mc) (\<lambda>db. db_get db key w))"

definition mc_clear :: "'d module_cache \<Rightarrow> ('d cache_world, unit) op" where
  "mc_clear mc = (case mc of None \<Rightarrow> retS () | Some db \<Rightarrow> db_dump db)"

section \<open>UserCache\<close>

text \<open>A user cache wraps a module cache; the class of a key or a value is that of the argument.\<close>

type_synonym 'd user_cache = "'d module_cache"

definition uc_wrap_inputs' :: "cval \<Rightarrow> input_map res" where
  "uc_wrap_inputs' key =
     (case mi_set_type (mk_rtti (cval_type key)) False mi_new of
        (Inl e, i) \<Rightarrow> Inl e
      | (Inr _, i) \<Rightarrow> bindR (mi_change (Arg_rvalue key) i) (\<lambda>i'. Inr [('''', i')]))"

definition uc_wrap_results' :: "cval \<Rightarrow> result_map res" where
  "uc_wrap_results' v =
     (case mr_set_type (mk_rtti (cval_type v)) mr_new of
        (Inl e, r) \<Rightarrow> Inl e
      | (Inr _, r) \<Rightarrow> bindR (mr_change (Res_value v) r) (\<lambda>r'. Inr [('''', r')]))"

definition uc_unwrap_results' :: "(cval \<Rightarrow> cval res) \<Rightarrow> string \<Rightarrow> result_map \<Rightarrow> cval res" where
  "uc_unwrap_results' pycast T val = bindR (ci_at '''' val) (mr_value pycast T As_value)"

definition uc_count :: "'d user_cache \<Rightarrow> cval \<Rightarrow> 'd cache_world \<Rightarrow> bool res" where
  "uc_count uc key w = bindR (uc_wrap_inputs' key) (\<lambda>k. mc_count uc k w)"

definition uc_cache :: "'d user_cache \<Rightarrow> cval \<Rightarrow> cval \<Rightarrow> ('d cache_world, unit) op" where
  "uc_cache uc key val =
     bindS (liftS (uc_wrap_inputs' key)) (\<lambda>k. bindS (liftS (uc_wrap_results' val)) (\<lambda>v. mc_cache uc k v))"

definition uc_uncache :: "'d user_cache \<Rightarrow> (cval \<Rightarrow> cval res) \<Rightarrow> string \<Rightarrow> cval \<Rightarrow> 'd cache_world \<Rightarrow> cval res" where
  "uc_uncache uc pycast U key w =
     bindR (uc_wrap_inputs' key) (\<lambda>k. bindR (mc_uncache uc k w) (uc_unwrap_results' pycast U))"

definition uc_uncache_or :: "'d user_cache \<Rightarrow> (cval \<Rightarrow> cval res) \<Rightarrow> string \<Rightarrow> cval \<Rightarrow> cval
    \<Rightarrow> 'd cache_world \<Rightarrow> cval res" where
  "uc_uncache_or uc pycast U key dflt w =
     bindR (uc_count uc key w) (\<lambda>c. if c then uc_uncache uc pycast U key w else Inr dflt)"

definition uc_reset_cache :: "'d user_cache \<Rightarrow> ('d cache_world, unit) op" where
  "uc_reset_cache uc = mc_clear uc"

section \<open>ModuleManagerCache\<close>

record 'd mmc_pimpl =
  mmc_db_factory :: "'d database_factory"
  mmc_module_caches :: "(string, 'd module_cache) omap"
  mmc_user_caches :: "(string, 'd user_cache) omap"

type_synonym 'd mmc = "'d mmc_pimpl option"

definition mmc_pimpl' :: "'d mmc \<Rightarrow> 'd mmc_pimpl" where
  "mmc_pimpl' c = (case c of
      None \<Rightarrow> \<lparr>mmc_db_factory = df_new, mmc_module_caches = [], mmc_user_caches = []\<rparr>
    | Some p \<Rightarrow> p)"

definition path_append :: "string \<Rightarrow> string \<Rightarrow> string" where
  "path_append p q = (if p = '''' \<or> last p = CHR ''/'' then p @ q else p @ ''/'' @ q)"

text \<open>The state of a manager's cache and the memory of the process.\<close>

type_synonym 'd mmc_state = "'d mmc \<times> 'd cache_world"

definition on_factory :: "('d database_factory \<times> 'd cache_world, 'a) op \<Rightarrow> ('d mmc_state, 'a) op" where
  "on_factory m s = (case s of (c, w) \<Rightarrow>
     (case m (mmc_db_factory (mmc_pimpl' c), w) of
        (r, (df, w')) \<Rightarrow> (r, (Some (mmc_db_factory_update (\<lambda>_. df) (mmc_pimpl' c)), w'))))"

text \<open>Creating the directory is left out.\<close>

definition mmc_change_save_location ::
  "(proxy_map, proxy_map) archive \<Rightarrow> (uuid, any_field) archive \<Rightarrow> 'd open_rocks \<Rightarrow> string \<Rightarrow> ('d mmc_state, unit) op" where
  "mmc_change_save_location ar_pm ar_any open_rocks disk_location =
     (let p = path_append disk_location ''cache''; q = path_append disk_location ''uuid'' in
      bindS (on_factory (df_set_serialized_pm_to_pm ar_pm open_rocks p)) (\<lambda>_.
      on_factory (df_set_type_eraser_backend_path ar_any open_rocks q)))"

definition mmc_make_module_cache' :: "string \<Rightarrow> ('d mmc_state, 'd module_cache) op" where
  "mmc_make_module_cache' key s = (case s of (c, w) \<Rightarrow>
     (let p = mmc_pimpl' c; n = cw_next_db w in
      (Inr (Some (df_default_module_db n key (mmc_db_factory p))), (Some p, w\<lparr>cw_next_db := Suc n\<rparr>))))"

definition mmc_get_or_make_module_cache :: "string \<Rightarrow> ('d mmc_state, 'd module_cache) op" where
  "mmc_get_or_make_module_cache key =
     bindS (modS (\<lambda>(c, w). (Some (mmc_pimpl' c), w))) (\<lambda>_.
     bindS (getS (\<lambda>(c, w). std_count key (mmc_module_caches (mmc_pimpl' c)))) (\<lambda>found.
     bindS (if found then retS ()
       else bindS (mmc_make_module_cache' key) (\<lambda>p.
         modS (\<lambda>(c, w). (Some (mmc_module_caches_update (std_emplace key p) (mmc_pimpl' c)), w)))) (\<lambda>_.
     (\<lambda>s. (std_at key (mmc_module_caches (mmc_pimpl' (fst s))), s)))))"

definition mmc_mangle :: "string \<Rightarrow> string" where
  "mmc_mangle key = ''__PP__ '' @ key @ ''-USER __PP__''"

lemma mmc_mangle_inj [simp]: "mmc_mangle key = mmc_mangle key' \<longleftrightarrow> key = key'"
  by (simp add: mmc_mangle_def)

definition mmc_get_or_make_user_cache :: "string \<Rightarrow> ('d mmc_state, 'd user_cache) op" where
  "mmc_get_or_make_user_cache key =
     (let mangled_key = mmc_mangle key in
     bindS (modS (\<lambda>(c, w). (Some (mmc_pimpl' c), w))) (\<lambda>_.
     bindS (getS (\<lambda>(c, w). std_count mangled_key (mmc_user_caches (mmc_pimpl' c)))) (\<lambda>found.
     bindS (if found then retS ()
       else bindS (mmc_make_module_cache' mangled_key) (\<lambda>p.
         modS (\<lambda>(c, w). (Some (mmc_user_caches_update (std_emplace mangled_key p) (mmc_pimpl' c)), w)))) (\<lambda>_.
     (\<lambda>s. (std_at mangled_key (mmc_user_caches (mmc_pimpl' (fst s))), s))))))"

section \<open>UUIDs of inputs and results\<close>

definition u_good :: "'d cache_world \<Rightarrow> bool" where
  "u_good w \<longleftrightarrow> a2u_good w \<and> inj (cw_gen w) \<and> (\<forall>u \<in> set (cw_uuids w). \<exists>n < cw_next_uuid w. u = cw_gen w n)"

definition input_ok :: "module_input \<Rightarrow> bool" where
  "input_ok k \<longleftrightarrow> any_cxx (mip_value (mi_pimpl k))"

definition result_ok :: "module_result \<Rightarrow> bool" where
  "result_ok k \<longleftrightarrow> (\<exists>a. mr_at' k = Inr (Some a) \<and> any_cxx a)"

definition result_any :: "module_result \<Rightarrow> any_field" where
  "result_any k = the (projr (mr_at' k))"

abbreviation same_input :: "module_input \<Rightarrow> module_input \<Rightarrow> bool" where
  "same_input k k' \<equiv> same_any (mip_value (mi_pimpl k)) (mip_value (mi_pimpl k'))"

lemma a2u_look_cong: "same_any a b \<Longrightarrow> a2u_look w a = a2u_look w b"
  by (simp add: a2u_look_def)

lemma a2u_look_mem: "a2u_look w a = Some u \<Longrightarrow> \<exists>b. (u, b) \<in> set (cw_uuid2any w) \<and> same_any a b"
  by (auto simp: a2u_look_def dest!: map_of_SomeD)

lemma a2u_look_inj:
  assumes "a2u_good w" "a2u_look w a = Some u" "a2u_look w b = Some u"
  shows "same_any a b"
proof -
  obtain a' b' where "(u, a') \<in> set (cw_uuid2any w)" "same_any a a'"
    "(u, b') \<in> set (cw_uuid2any w)" "same_any b b'"
    using a2u_look_mem assms(2,3) by blast
  moreover have "om_wf id (cw_uuid2any w)" using assms(1) by (simp add: a2u_good_def)
  ultimately have "a' = b'" using om_find_wf by (metis option.inject)
  then show ?thesis using \<open>same_any a a'\<close> \<open>same_any b b'\<close> by simp
qed

lemma a2u_look_known: "a2u_good w \<Longrightarrow> a2u_look w a = Some u \<Longrightarrow> u \<in> set (cw_uuids w)"
  using a2u_look_mem [of w a u] by (force simp: a2u_good_def)

abbreviation erased :: "('k \<Rightarrow> any_field res) \<Rightarrow> (any_field \<Rightarrow> 'k res) \<Rightarrow> ('d cache_world, 'k) uuid_mapper" where
  "erased conv uncast \<equiv> \<lparr>um_db = eraser_db conv uncast (any2uuid_db None), um_draw = generate_uuid\<rparr>"

lemma erased_count:
  assumes "u_good w" "conv k = Inr a" "any_cxx a"
  shows "um_count (erased conv uncast) k w = Inr (a2u_look w a \<noteq> None)"
proof -
  have "db_count (any2uuid_db None) a w = Inr (a2u_look w a \<noteq> None)"
    using assms by (simp add: u_good_def a2u_count)
  then have "op_count (eraser_db conv uncast (any2uuid_db None)) k w = Inr (a2u_look w a \<noteq> None)"
    using assms by (simp add: eraser_db_def eraser_count_def)
  then show ?thesis by (simp add: um_count_def db_count_def)
qed

lemma erased_get:
  assumes "u_good w" "conv k = Inr a" "any_cxx a" "a2u_look w a = Some u"
  shows "bindR (um_at (erased conv uncast) k w) dbv_get = Inr u"
proof -
  have c: "db_count (eraser_db conv uncast (any2uuid_db None)) k w = Inr True"
    using erased_count [of w conv k a uncast, OF assms(1-3)] assms(4)
    by (cases "db_count (eraser_db conv uncast (any2uuid_db None)) k w") (auto simp: um_count_def noexceptR_def split: if_splits)
  have "op_at (eraser_db conv uncast (any2uuid_db None)) k w = db_at (any2uuid_db None) a w"
    using assms by (simp add: eraser_db_def eraser_at_def)
  then have "db_get (eraser_db conv uncast (any2uuid_db None)) k w = db_get (any2uuid_db None) a w"
    using c by (simp add: db_get_def db_at_def [of "eraser_db conv uncast (any2uuid_db None)"])
  then show ?thesis
    using any2uuid.get_law [of w a u] assms by (simp add: um_at_def db_get_def u_good_def)
qed

lemma erased_insert:
  assumes "u_good w" "conv k = Inr a" "any_cxx a"
  shows "um_insert (erased conv uncast) k w = (Inr (),
    if a2u_look w a \<noteq> None then w
    else a2u_add (cw_gen w (cw_next_uuid w)) a (w\<lparr>cw_next_uuid := Suc (cw_next_uuid w)\<rparr>))"
proof (cases "a2u_look w a")
  case None
  let ?w1 = "w\<lparr>cw_next_uuid := Suc (cw_next_uuid w)\<rparr>"
  have "cw_gen w (cw_next_uuid w) \<notin> set (cw_uuids ?w1)"
    using assms(1) by (auto simp: u_good_def dest: injD)
  moreover have "a2u_good ?w1" using assms(1) by (simp add: u_good_def a2u_good_def)
  ultimately have "op_insert (eraser_db conv uncast (any2uuid_db None)) k (cw_gen w (cw_next_uuid w)) ?w1 =
      (Inr (), a2u_add (cw_gen w (cw_next_uuid w)) a ?w1)"
    using assms(2) by (simp add: eraser_db_def eraser_insert_def a2u_insert)
  then show ?thesis
    using None erased_count [of w conv k a uncast, OF assms]
    by (simp add: um_insert_def bindS_def um_uuid_def generate_uuid_def db_insert_def)
qed (simp add: um_insert_def bindS_def erased_count [of w conv k a uncast, OF assms])

lemma u_good_add:
  assumes "u_good w" "any_cxx a" "a2u_look w a = None"
  defines "u \<equiv> cw_gen w (cw_next_uuid w)"
  defines "w' \<equiv> a2u_add u a (w\<lparr>cw_next_uuid := Suc (cw_next_uuid w)\<rparr>)"
  shows "u_good w'" and "u \<notin> set (cw_uuids w)" and "set (cw_uuids w') = insert u (set (cw_uuids w))"
    and "a2u_look w' b = (if same_any a b then Some u else a2u_look w b)"
    and "cw_results w' = cw_results w"
proof -
  let ?w1 = "w\<lparr>cw_next_uuid := Suc (cw_next_uuid w)\<rparr>"
  show new: "u \<notin> set (cw_uuids w)" using assms(1) by (auto simp: u_good_def u_def dest: injD)
  have g: "a2u_good ?w1" "u \<notin> set (cw_uuids ?w1)" "a2u_look ?w1 a = None"
    using assms new by (simp_all add: u_good_def a2u_good_def a2u_look_def)
  show "a2u_look w' b = (if same_any a b then Some u else a2u_look w b)"
    unfolding w'_def a2u_add_good(2) [OF g(1,2) assms(2) g(3)] by (simp add: a2u_look_def)
  show k: "set (cw_uuids w') = insert u (set (cw_uuids w))"
    by (simp add: w'_def a2u_add_def set_insort_key)
  have "\<exists>n < Suc (cw_next_uuid w). v = cw_gen w n" if "v \<in> insert u (set (cw_uuids w))" for v
  proof (cases "v = u")
    case True
    then show ?thesis by (auto simp: u_def)
  next
    case False
    then have "v \<in> set (cw_uuids w)" using that by simp
    then obtain n where "n < cw_next_uuid w" "v = cw_gen w n"
      using assms(1) unfolding u_good_def by blast
    then show ?thesis using less_SucI by blast
  qed
  then have "\<forall>v \<in> set (cw_uuids w'). \<exists>n < cw_next_uuid w'. v = cw_gen w' n"
    using k by (simp add: w'_def a2u_add_def)
  moreover have "inj (cw_gen w')" using assms(1) by (simp add: w'_def a2u_add_def u_good_def)
  moreover have "a2u_good w'" unfolding w'_def by (rule a2u_add_good(1) [OF g(1,2) assms(2) g(3)])
  ultimately show "u_good w'" by (simp add: u_good_def)
  show "cw_results w' = cw_results w" by (simp add: w'_def a2u_add_def)
qed

lemma uuid_source_erased:
  assumes conv: "\<And>k. ok k \<Longrightarrow> \<exists>a. conv k = Inr a \<and> any_cxx a \<and> same_any a (val k)"
  shows "uuid_source (erased conv uncast) u_good ok (\<lambda>k k'. same_any (val k) (val k'))
    (\<lambda>w k. a2u_look w (val k)) (\<lambda>w. set (cw_uuids w)) cw_results"
proof (unfold_locales, goal_cases)
  case (1 w k)
  then obtain a where a: "conv k = Inr a" "any_cxx a" "same_any a (val k)" using conv by blast
  show ?case
    using erased_count [of w conv k a uncast, OF 1(1) a(1,2)] a2u_look_cong [OF a(3), of w] by simp
next
  case (2 w k u)
  then obtain a where a: "conv k = Inr a" "any_cxx a" "same_any a (val k)" using conv by blast
  show ?case
    using erased_get [of w conv k a u uncast, OF 2(1) a(1,2)] a2u_look_cong [OF a(3), of w] 2(3) by simp
next
  case (3 w k)
  obtain a where a: "conv k = Inr a" "any_cxx a" "same_any a (val k)" using conv 3(2) by blast
  show ?case
  proof (cases "a2u_look w a")
    case None
    let ?w' = "a2u_add (cw_gen w (cw_next_uuid w)) a (w\<lparr>cw_next_uuid := Suc (cw_next_uuid w)\<rparr>)"
    have "um_insert (erased conv uncast) k w = (Inr (), ?w')"
      using erased_insert [of w conv k a uncast, OF 3(1) a(1,2)] None by simp
    moreover have "a2u_look w (val k) = None" using None a2u_look_cong [OF a(3), of w] by simp
    moreover have "a2u_look ?w' (val k') =
        (if same_any (val k) (val k') then Some (cw_gen w (cw_next_uuid w)) else a2u_look w (val k'))" for k'
      using u_good_add(4) [OF 3(1) a(2) None] a(3) by simp
    moreover have "a2u_look w (val k') = None" if "same_any (val k) (val k')" for k'
      using None a2u_look_cong [of a "val k'" w] a(3) that by simp
    ultimately show ?thesis
      using u_good_add(1,2,3,5) [OF 3(1) a(2) None] by (simp add: subset_insertI)
  next
    case (Some u)
    then show ?thesis
      using erased_insert [of w conv k a uncast, OF 3(1) a(1,2)] 3(1) a2u_look_cong [OF a(3), of w] by auto
  qed
next
  case (4 w k u)
  then show ?case using a2u_look_known by (auto simp: u_good_def)
next
  case (5 w k k' u)
  then have "a2u_good w" by (simp add: u_good_def)
  from a2u_look_inj [OF this 5(4,5)] show ?case .
next
  case (6 w k k')
  from a2u_look_cong [OF 6(4)] show ?case .
qed

lemma make_any_input_ok: "input_ok k \<Longrightarrow>
    \<exists>a. make_any_input k = Inr a \<and> any_cxx a \<and> same_any a (mip_value (mi_pimpl k))"
  by (auto elim!: any_cxx_obtain simp: input_ok_def make_any_input_def mi_get_def mip_get_value_def
      mip_assert_value_set_def mip_has_value_def any_has_value_def any_copy_cxx)

lemma make_any_result_ok: "result_ok k \<Longrightarrow>
    \<exists>a. make_any_result k = Inr a \<and> any_cxx a \<and> same_any a (result_any k)"
  by (auto elim!: any_cxx_obtain simp: result_ok_def make_any_result_def result_any_def any_copy_cxx)

abbreviation in_uuid :: "'d cache_world \<Rightarrow> module_input \<Rightarrow> uuid option" where
  "in_uuid w k \<equiv> a2u_look w (mip_value (mi_pimpl k))"

abbreviation res_uuid :: "'d cache_world \<Rightarrow> module_result \<Rightarrow> uuid option" where
  "res_uuid w k \<equiv> a2u_look w (result_any k)"

lemma u_good_own [simp]:
  "u_good (cw_input_buffers_update f1 w1) = u_good w1" "a2u_look (cw_input_buffers_update f1 w1) = a2u_look w1"
  "u_good (cw_result_buffers_update f2 w2) = u_good w2" "a2u_look (cw_result_buffers_update f2 w2) = a2u_look w2"
  "u_good (cw_results_update f3 w3) = u_good w3" "a2u_look (cw_results_update f3 w3) = a2u_look w3"
  "u_good (cw_next_db_update f4 w4) = u_good w4" "a2u_look (cw_next_db_update f4 w4) = a2u_look w4"
  by (auto simp: u_good_def a2u_good_def a2u_look_def)

interpretation in_uuids: uuid_source "input_uuid_mapper (any2uuid_db None)" u_good input_ok same_input in_uuid
    "\<lambda>w. set (cw_uuids w)" cw_results
  unfolding input_uuid_mapper_def by (rule uuid_source_erased) (rule make_any_input_ok)

interpretation res_uuids: uuid_source "result_uuid_mapper (any2uuid_db None)" u_good result_ok
    "\<lambda>k k'. same_any (result_any k) (result_any k')" res_uuid "\<lambda>w. set (cw_uuids w)" cw_results
  unfolding result_uuid_mapper_def by (rule uuid_source_erased) (rule make_any_result_ok)

interpretation in_maps: proxy_maker "input_uuid_mapper (any2uuid_db None)" u_good input_ok same_input in_uuid
    "\<lambda>w. set (cw_uuids w)" cw_results "input_map_maker n df_new" for n
  by unfold_locales (simp_all add: input_map_maker_def df_new_def r_input_buffer_def)

interpretation res_maps: proxy_maker "result_uuid_mapper (any2uuid_db None)" u_good result_ok
    "\<lambda>k k'. same_any (result_any k) (result_any k')" res_uuid "\<lambda>w. set (cw_uuids w)" cw_results
    "result_map_maker n df_new" for n
  by unfold_locales (simp_all add: result_map_maker_def df_new_def r_result_buffer_def)

interpretation results: key_proxies "input_uuid_mapper (any2uuid_db None)" u_good input_ok same_input in_uuid
    "\<lambda>w. set (cw_uuids w)" cw_results "input_map_maker n df_new" "r_results n" for n
  by unfold_locales (simp_all add: r_results_def ref_ok_def)

section \<open>Properties\<close>

lemma default_module_db_new:
  "df_default_module_db n key df_new =
     key_proxy_mapper_db (input_map_maker n df_new) (native_db (r_results n) None)"
  by (simp add: df_default_module_db_def df_pm2result_db_def df_new_def input_map_maker_def)

text \<open>
  The specification of the in-memory caches: each number stands for a map from input maps to
  result maps, where input maps are the same when they have the same keys and equal values.
\<close>

datatype cache_event = Ev_cache nat input_map result_map | Ev_clear nat

type_synonym cache_spec = "nat \<Rightarrow> input_map \<Rightarrow> result_map option"

fun spec_event :: "cache_event \<Rightarrow> cache_spec \<Rightarrow> cache_spec" where
  "spec_event (Ev_cache n k v) S = S(n := (\<lambda>m. if same_map same_input k m then Some v else S n m))"
| "spec_event (Ev_clear n) S = S(n := (\<lambda>_. None))"

abbreviation memory_cache :: "nat \<Rightarrow> 'd module_cache" where
  "memory_cache n \<equiv> Some (df_default_module_db n '''' df_new)"

fun run_event :: "cache_event \<Rightarrow> ('d cache_world, unit) op" where
  "run_event (Ev_cache n k v) = mc_cache (memory_cache n) k v"
| "run_event (Ev_clear n) = mc_clear (memory_cache n)"

fun event_ok :: "cache_event \<Rightarrow> bool" where
  "event_ok (Ev_cache n k v) = map_ok input_ok k"
| "event_ok (Ev_clear n) = True"

definition implements :: "'d cache_world \<Rightarrow> cache_spec \<Rightarrow> bool" where
  "implements w S \<longleftrightarrow> (\<forall>n. results.kgood n w \<and> (\<forall>m. map_ok input_ok m \<longrightarrow> results.klook n w m = S n m))"

lemma r_results_eval [simp]:
  "rd (r_results n) w = cw_results w n"
  "wr (r_results n) f = cw_results_update (upd_at n f)"
  by (simp_all add: r_results_def)

lemma implements_init: "inj gen \<Longrightarrow> implements (cw_init gen d) (\<lambda>_ _. None)"
  by (simp add: implements_def results.kgood_def results.klook_def u_good_def a2u_good_def cw_init_def)

lemma r_results_other:
  "n' \<noteq> n \<Longrightarrow> results.klook n' (cw_results_update (upd_at n f) w) = results.klook n' w"
  "n' \<noteq> n \<Longrightarrow> results.kgood n' (cw_results_update (upd_at n f) w) = results.kgood n' w"
  by (simp_all add: results.klook_def results.kgood_def fun_eq_iff)

lemma implements_cache:
  assumes "implements w S" and "map_ok input_ok k"
  shows "\<exists>w'. mc_cache (memory_cache n) k v w = (Inr (), w') \<and> implements w' (spec_event (Ev_cache n k v) S)"
proof -
  have kg: "results.kgood n w" using assms(1) by (simp add: implements_def)
  obtain w' w1 where w': "db_insert (df_default_module_db n '''' df_new) k v w = (Inr (), w')"
      "results.kgood n w'" "in_uuids.grows w w1"
      "w' = wr (r_results n) (std_set (proxy (in_uuid w1) k) v) w1"
      "\<forall>m'. map_ok input_ok m' \<longrightarrow>
         results.klook n w' m' = (if same_map same_input k m' then Some v else results.klook n w m')"
    using results.kinsert_law [OF kg assms(2), of v] unfolding default_module_db_new by blast
  have "results.kgood n' w' \<and> (\<forall>m. map_ok input_ok m \<longrightarrow> results.klook n' w' m = S n' m)" if "n' \<noteq> n" for n'
  proof -
    have g: "results.kgood n' w" using assms(1) by (simp add: implements_def)
    have "results.kgood n' w1" using results.kgood_grows [OF g w'(3)] .
    moreover have "results.klook n' w1 m = S n' m" if "map_ok input_ok m" for m
      using results.klook_grows [OF g w'(3) that] assms(1) that by (simp add: implements_def)
    ultimately show ?thesis by (simp add: w'(4) r_results_other [OF that])
  qed
  then have "implements w' (spec_event (Ev_cache n k v) S)"
    using w'(2,5) assms(1) by (auto simp: implements_def)
  then show ?thesis using w'(1) by (simp add: mc_cache_def mc_pimpl'_def mc_assert_pimpl'_def)
qed

lemma clear_eval: "mc_clear (memory_cache n) w = (Inr (), wr (r_results n) (\<lambda>_. []) w)"
proof -
  have b: "pmm_backup (input_map_maker n df_new) w = (Inr (), w)" for w :: "'d cache_world"
  proof -
    have "op_backup (any2uuid_db None) w = (Inr (), w)" for w :: "'d cache_world"
      by (simp add: any2uuid_db_def transposer_db_def)
    then show ?thesis
      by (simp add: pmm_backup_def um_backup_def db_backup_def input_map_maker_def
          input_uuid_mapper_def eraser_db_def df_new_def)
  qed
  have "op_dump (df_default_module_db n '''' df_new) w = (Inr (), wr (r_results n) (\<lambda>_. []) w)"
    unfolding default_module_db_new
    by (simp add: key_proxy_mapper_db_def kpm_dump_def bindS_def b)
  then show ?thesis by (simp add: mc_clear_def db_dump_def)
qed

lemma implements_clear:
  assumes "implements w S"
  shows "implements (wr (r_results n) (\<lambda>_. []) w) (spec_event (Ev_clear n) S)"
proof -
  have "results.kgood n' (wr (r_results n) (\<lambda>_. []) w) \<and>
      results.klook n' (wr (r_results n) (\<lambda>_. []) w) m = (if n' = n then None else results.klook n' w m)"
    for n' m
    using assms r_results_other [of n' n]
    by (cases "n' = n") (auto simp: implements_def results.kgood_def results.klook_def)
  then show ?thesis using assms by (auto simp: implements_def)
qed

lemma implements_events:
  "implements w S \<Longrightarrow> list_all event_ok evs \<Longrightarrow>
   \<exists>w'. forS run_event evs w = (Inr (), w') \<and> implements w' (fold spec_event evs S)"
proof (induction evs arbitrary: w S)
  case (Cons ev evs)
  have "\<exists>w1. run_event ev w = (Inr (), w1) \<and> implements w1 (spec_event ev S)"
    using Cons.prems implements_cache implements_clear by (cases ev) (fastforce simp: clear_eval)+
  then obtain w1 where w1: "run_event ev w = (Inr (), w1)" "implements w1 (spec_event ev S)" by blast
  then show ?case using Cons.IH [OF w1(2)] Cons.prems(2) by (simp add: bindS_def)
qed simp

lemma implements_query:
  assumes "implements w S" and "map_ok input_ok m"
  shows "mc_count (memory_cache n) m w = Inr (S n m \<noteq> None)"
    and "mc_uncache (memory_cache n) m w =
      (case S n m of None \<Rightarrow> Inl (out_of_range ''No cached results'') | Some v \<Rightarrow> Inr v)"
proof -
  have g: "u_good w" and k: "results.klook n w m = S n m"
    using assms by (simp_all add: implements_def results.kgood_def)
  show c: "mc_count (memory_cache n) m w = Inr (S n m \<noteq> None)"
    using results.kcount_law [OF g assms(2)] k by (simp add: mc_count_def default_module_db_new)
  show "mc_uncache (memory_cache n) m w =
      (case S n m of None \<Rightarrow> Inl (out_of_range ''No cached results'') | Some v \<Rightarrow> Inr v)"
  proof (cases "S n m")
    case (Some v)
    then have "results.klook n w m = Some v" using k by simp
    then have "db_get (df_default_module_db n '''' df_new) m w = Inr v"
      unfolding default_module_db_new by (rule results.kget_law [OF g assms(2)])
    then show ?thesis using c Some by (simp add: mc_uncache_def)
  qed (simp add: mc_uncache_def c)
qed

text \<open>C18: The in-memory module caches of a process implement independent maps.  Run any sequence
  of \<open>cache\<close> and \<open>clear\<close> calls on any number of them, which all share one table of UUIDs:
  the sequence succeeds, \<open>count\<close> then answers whether results are stored under a key and
  \<open>uncache\<close> returns the results stored last under an equal key in that cache since it was
  cleared, or throws \<open>std::out_of_range\<close>.  Equal keys have the same names, case included,
  and equal values.  UUIDs are assumed to be unique, keys to hold C++ values.\<close>

theorem module_caches_refine_maps:
  assumes "inj gen" and "list_all event_ok evs"
  shows "\<exists>w. forS run_event evs (cw_init gen d) = (Inr (), w) \<and>
    (\<forall>n m. map_ok input_ok m \<longrightarrow>
       (let found = fold spec_event evs (\<lambda>_ _. None) n m in
        mc_count (memory_cache n) m w = Inr (found \<noteq> None) \<and>
        mc_uncache (memory_cache n) m w =
          (case found of None \<Rightarrow> Inl (out_of_range ''No cached results'') | Some v \<Rightarrow> Inr v)))"
proof -
  obtain w where w: "forS run_event evs (cw_init gen d) = (Inr (), w)"
      "implements w (fold spec_event evs (\<lambda>_ _. None))"
    using implements_events [OF implements_init [OF assms(1), of d] assms(2)] by (elim exE conjE)
  show ?thesis
    unfolding Let_def by (intro exI [of _ w] conjI allI impI w(1) implements_query [OF w(2)])
qed

definition example_gen :: "nat \<Rightarrow> uuid" where
  "example_gen n = replicate n (CHR ''u'')"

lemma example_gen_inj: "inj example_gen"
  by (rule injI) (metis example_gen_def length_replicate)

definition example_key :: "int \<Rightarrow> input_map" where
  "example_key i = [(''x'', mi_new\<lparr>mi_pimpl := mip_new\<lparr>mip_value := make_any_field By_value (CInt i)\<rparr>\<rparr>)]"

lemma example_key_ok [simp]: "map_ok input_ok (example_key i)"
  by (simp add: map_ok_def example_key_def om_wf_def input_ok_def)

theorem module_caches_refine_maps_witness:
  "\<exists>w. forS run_event [Ev_cache 0 (example_key 1) [], Ev_cache 1 (example_key 2) [(''y'', None)]]
        (cw_init example_gen ()) = (Inr (), w) \<and>
     mc_uncache (memory_cache 0) (example_key 1) w = Inr [] \<and>
     mc_uncache (memory_cache 0) (example_key 2) w = Inl (out_of_range ''No cached results'')"
proof -
  let ?evs = "[Ev_cache 0 (example_key 1) [], Ev_cache 1 (example_key 2) [(''y'', None)]]"
  have "list_all event_ok ?evs" by simp
  moreover have "fold spec_event ?evs (\<lambda>_ _. None) 0 (example_key 1) = Some []"
    "fold spec_event ?evs (\<lambda>_ _. None) 0 (example_key 2) = None"
    by (simp_all add: same_map_def example_key_def)
  moreover obtain w where "forS run_event ?evs (cw_init example_gen ()) = (Inr (), w)"
      and "\<forall>n m. map_ok input_ok m \<longrightarrow>
       (let found = fold spec_event ?evs (\<lambda>_ _. None) n m in
        mc_count (memory_cache n) m w = Inr (found \<noteq> None) \<and>
        mc_uncache (memory_cache n) m w =
          (case found of None \<Rightarrow> Inl (out_of_range ''No cached results'') | Some v \<Rightarrow> Inr v))"
    using module_caches_refine_maps [OF example_gen_inj, of ?evs "()"] calculation(1) by blast
  ultimately show ?thesis
    by (intro exI [of _ w]) (simp add: Let_def del: forS.simps)
qed

text \<open>C19: The proxies are faithful and stable: once two maps of C++ inputs have been inserted, both
  have a proxy map, the two proxies are equal exactly when the maps have the same names and
  equal values, and inserting the second did not change the proxy of the first.\<close>

theorem proxies_faithful:
  assumes "u_good w" and "map_ok input_ok m" and "map_ok input_ok m'"
  shows "\<exists>w1 w2 x y. pmm_insert (input_map_maker n df_new) m w = (Inr (), w1) \<and>
    pmm_insert (input_map_maker n df_new) m' w1 = (Inr (), w2) \<and>
    pmm_at (input_map_maker n df_new) m w1 = Inr x \<and>
    pmm_at (input_map_maker n df_new) m w2 = Inr x \<and> pmm_at (input_map_maker n df_new) m' w2 = Inr y \<and>
    (x = y \<longleftrightarrow> same_map same_input m m')"
proof -
  obtain w1 where w1: "pmm_insert (input_map_maker n df_new) m w = (Inr (), w1)" "in_uuids.grows w w1"
      "proxied (in_uuid w1) m"
    using in_maps.pmm_insert_law [OF assms(1,2)] by blast
  then have g1: "u_good w1" by (simp add: in_uuids.grows_def)
  obtain w2 where w2: "pmm_insert (input_map_maker n df_new) m' w1 = (Inr (), w2)" "in_uuids.grows w1 w2"
      "proxied (in_uuid w2) m'"
    using in_maps.pmm_insert_law [OF g1 assms(3)] by blast
  then have g2: "u_good w2" by (simp add: in_uuids.grows_def)
  have p: "proxied (in_uuid w2) m" "proxy (in_uuid w2) m = proxy (in_uuid w1) m"
    using in_uuids.proxy_grows [OF w2(2) assms(2) w1(3)] by blast+
  have "\<forall>(k, v) \<in> set m. input_ok v" "\<forall>(k, v) \<in> set m'. input_ok v"
    using assms(2,3) by (simp_all add: map_ok_def)
  then have "proxy (in_uuid w2) m = proxy (in_uuid w2) m' \<longleftrightarrow> same_map same_input m m'"
    using in_uuids.proxy_inj [OF g2] p(1) w2(3) by blast
  then show ?thesis
    using w1(1) w2(1) in_maps.pmm_at_law [OF g1 assms(2) w1(3)] in_maps.pmm_at_law [OF g2 assms(2) p(1)]
      in_maps.pmm_at_law [OF g2 assms(3) w2(3)] p(2) by metis
qed

theorem proxies_faithful_witness:
  "\<exists>w1 w2 x y. pmm_insert (input_map_maker 0 df_new) (example_key 1) (cw_init example_gen ()) = (Inr (), w1) \<and>
    pmm_insert (input_map_maker 0 df_new) (example_key 2) w1 = (Inr (), w2) \<and>
    pmm_at (input_map_maker 0 df_new) (example_key 1) w2 = Inr x \<and>
    pmm_at (input_map_maker 0 df_new) (example_key 2) w2 = Inr y \<and> x \<noteq> y"
proof -
  have "u_good (cw_init example_gen ())"
    by (simp add: u_good_def a2u_good_def cw_init_def example_gen_inj)
  moreover have "\<not> same_map same_input (example_key 1) (example_key 2)"
    by (simp add: same_map_def example_key_def)
  ultimately show ?thesis
    using proxies_faithful [of "cw_init example_gen ()" "example_key 1" "example_key 2" 0] example_key_ok
    by metis
qed

text \<open>Looking up a key whose first input has no value (an optional input that was never set)
  ends the program: the type eraser asks the input for its value inside functions that are
  declared \<open>noexcept\<close>, so the exception \<open>std::terminate\<close>s.\<close>

theorem unset_input_terminates:
  assumes "\<not> mi_has_value mi"
  shows "mc_count (memory_cache n) ((k, mi) # m) w = Inl Std_terminate"
proof -
  have e: "make_any_input mi = Inl (runtime_error ''Value has not been set'')"
    using assms by (simp add: make_any_input_def mi_get_def mip_get_value_def mip_assert_value_set_def
        mi_has_value_def)
  have c: "db_count (eraser_db make_any_input uncast d) mi w = Inl Std_terminate" for uncast d
    by (simp add: db_count_def eraser_db_def eraser_count_def e)
  have "um_count (pmm_db (input_map_maker n df_new)) mi w = Inl Std_terminate"
    by (simp add: um_count_def input_map_maker_def input_uuid_mapper_def c)
  then have "pmm_count (input_map_maker n df_new) ((k, mi) # m) w = Inl Std_terminate" by simp
  then have "op_count (df_default_module_db n '''' df_new) ((k, mi) # m) w = Inl Std_terminate"
    by (simp add: default_module_db_new key_proxy_mapper_db_def kpm_count_def)
  then show ?thesis by (simp add: mc_count_def db_count_def)
qed

theorem unset_input_terminates_witness:
  "mc_count (memory_cache 0) [(''Option'', mi_make_optional mi_new)] (cw_init example_gen ()) = Inl Std_terminate"
  using unset_input_terminates [of "mi_make_optional mi_new" 0 "''Option''" "[]" "cw_init example_gen ()"]
  by (simp add: mi_setter_defs mi_new_def mip_new_def mi_has_value_def mip_has_value_def any_has_value_def)

lemma wrap_inputs_cxx:
  assumes "\<not> is_py v" "cval_ok v"
  shows "\<exists>i. uc_wrap_inputs' v = Inr [('''', i)] \<and> mip_value (mi_pimpl i) = make_any_field By_value v"
proof -
  have ty: "cval_type v \<noteq> ty_py" using assms by (simp add: cval_type_py)
  have tc: "type_check_call (cval_type v) False (make_any_field By_value v)"
    using assms ty by (simp add: type_check_cxx)
  show ?thesis
    by (simp add: uc_wrap_inputs'_def mi_set_type_def mi_set_type'_def mip_set_type_def mi_new_def
        mip_new_def mi_add_type_check_def mi_add_check'_def mip_add_check_def mip_defs
        om_emplace_def om_count_def mi_change_def mi_wrap_value_def mi_change'_def mip_set_value_def
        mip_is_valid_def tc any_has_value_def)
qed

lemma wrap_results_cxx:
  assumes "\<not> is_py v" "cval_ok v"
  shows "\<exists>r. uc_wrap_results' v = Inr [('''', Some r)] \<and> mrp_value r = Some (make_any_field By_value v)"
proof -
  have ty: "cval_type v \<noteq> ty_py" using assms by (simp add: cval_type_py)
  have tc: "type_check_call (cval_type v) False (make_any_field By_value v)"
    using assms ty by (simp add: type_check_cxx)
  show ?thesis
    by (simp add: uc_wrap_results'_def mr_set_type_def mr_new_def mrp_new_def mrp_set_type_check_def
        mrp_set_type_def mr_defs mr_change_def mr_wrap_value'_def mr_change'_def mrp_set_value_def tc)
qed

lemma uc_unwrap_cxx:
  assumes "\<not> is_py v" "cval_ok v" "mrp_value r = Some (make_any_field By_value v)"
  shows "uc_unwrap_results' pycast (cval_type v) [('''', Some r)] = Inr v"
proof -
  have "cval_type v \<noteq> ty_py" using assms by (simp add: cval_type_py)
  then show ?thesis
    using assms by (simp add: uc_unwrap_results'_def om_at_def mr_value_def mr_at'_def mrp_get_value_def
        mrp_has_value_def any_cast_const_def make_any_field_def cast_const_cxx)
qed

lemma user_key_ok:
  assumes "\<not> is_py v" "cval_ok v" "mip_value (mi_pimpl i) = make_any_field By_value v"
  shows "map_ok input_ok [('''', i)]"
  using assms by (simp add: map_ok_def om_wf_def input_ok_def)

text \<open>C20: A user cache returns what was stored under a key, in the class it was stored in, and
  storing under one key does not change what \<open>uncache\<close> with a default answers for another
  key; keys and values are C++ values and the cache is in any state its process can reach.\<close>

theorem user_cache_round_trip:
  assumes "inj gen" and "list_all event_ok evs" and "forS run_event evs (cw_init gen d) = (Inr (), w)"
    and "\<not> is_py key" "cval_ok key" and "\<not> is_py v" "cval_ok v"
  shows "\<exists>w'. uc_cache (memory_cache n) key v w = (Inr (), w') \<and>
    uc_uncache (memory_cache n) pycast (cval_type v) key w' = Inr v \<and>
    (\<forall>key' T dflt. key' \<noteq> key \<and> \<not> is_py key' \<and> cval_ok key' \<longrightarrow>
       uc_uncache_or (memory_cache n) pycast T key' dflt w' = uc_uncache_or (memory_cache n) pycast T key' dflt w)"
proof -
  define S where "S = fold spec_event evs (\<lambda>_ _. None)"
  have imp: "implements w S"
    using implements_events [OF implements_init [OF assms(1), of d] assms(2)] assms(3)
    by (auto simp: S_def)
  obtain i where i: "uc_wrap_inputs' key = Inr [('''', i)]" "mip_value (mi_pimpl i) = make_any_field By_value key"
    using wrap_inputs_cxx assms(4,5) by blast
  obtain r where r: "uc_wrap_results' v = Inr [('''', Some r)]" "mrp_value r = Some (make_any_field By_value v)"
    using wrap_results_cxx assms(6,7) by blast
  note ok = user_key_ok [OF assms(4,5) i(2)]
  let ?S = "spec_event (Ev_cache n [('''', i)] [('''', Some r)]) S"
  obtain w' where w': "mc_cache (memory_cache n) [('''', i)] [('''', Some r)] w = (Inr (), w')" "implements w' ?S"
    using implements_cache [OF imp ok, of n "[('''', Some r)]"] by (elim exE conjE)
  have "?S n [('''', i)] = Some [('''', Some r)]" by (simp add: same_map_def)
  then have "uc_uncache (memory_cache n) pycast (cval_type v) key w' = Inr v"
    using implements_query(2) [OF w'(2) ok, of n] uc_unwrap_cxx [OF assms(6,7) r(2)]
    by (simp add: uc_uncache_def i(1))
  moreover have "uc_uncache_or (memory_cache n) pycast T key' dflt w' = uc_uncache_or (memory_cache n) pycast T key' dflt w"
    if other: "key' \<noteq> key" "\<not> is_py key'" "cval_ok key'" for key' T dflt
  proof -
    obtain j where j: "uc_wrap_inputs' key' = Inr [('''', j)]" "mip_value (mi_pimpl j) = make_any_field By_value key'"
      using wrap_inputs_cxx other(2,3) by blast
    note okj = user_key_ok [OF other(2,3) j(2)]
    have "?S n [('''', j)] = S n [('''', j)]" using other(1) by (simp add: same_map_def i(2) j(2))
    then show ?thesis
      using implements_query [OF w'(2) okj, of n] implements_query [OF imp okj, of n]
      by (simp add: uc_uncache_or_def uc_count_def uc_uncache_def j(1))
  qed
  ultimately show ?thesis using w'(1) by (auto simp: uc_cache_def i(1) r(1))
qed

theorem user_cache_round_trip_witness:
  "\<exists>w'. uc_cache (memory_cache 0) (CStr ''guess'') (CInt 3) (cw_init example_gen ()) = (Inr (), w') \<and>
     uc_uncache (memory_cache 0) Inr ''int'' (CStr ''guess'') w' = Inr (CInt 3)"
proof -
  have "forS run_event [] (cw_init example_gen ()) = (Inr (), cw_init example_gen ())" by simp
  from user_cache_round_trip [OF example_gen_inj _ this, of "CStr ''guess''" "CInt 3" 0 Inr]
  show ?thesis by auto
qed

text \<open>The manager's caches: a request names a module cache or a user cache.\<close>

datatype cache_request = Req_module string | Req_user string

fun mmc_get :: "cache_request \<Rightarrow> ('d mmc_state, 'd module_cache) op" where
  "mmc_get (Req_module key) = mmc_get_or_make_module_cache key"
| "mmc_get (Req_user key) = mmc_get_or_make_user_cache key"

fun mmc_find :: "cache_request \<Rightarrow> 'd mmc \<Rightarrow> 'd module_cache option" where
  "mmc_find (Req_module key) c = std_find key (mmc_module_caches (mmc_pimpl' c))"
| "mmc_find (Req_user key) c = std_find (mmc_mangle key) (mmc_user_caches (mmc_pimpl' c))"

definition mmc_good :: "(cache_request \<Rightarrow> nat) \<Rightarrow> 'd mmc_state \<Rightarrow> bool" where
  "mmc_good f s \<longleftrightarrow> mmc_db_factory (mmc_pimpl' (fst s)) = df_new \<and>
     inj_on f {r. mmc_find r (fst s) \<noteq> None} \<and>
     (\<forall>r mc. mmc_find r (fst s) = Some mc \<longrightarrow> mc = memory_cache (f r) \<and> f r < cw_next_db (snd s))"

lemma mmc_pimpl_Some [simp]: "mmc_pimpl' (Some p) = p" "mmc_pimpl' (Some (mmc_pimpl' c)) = mmc_pimpl' c"
  by (simp_all add: mmc_pimpl'_def)

lemma mmc_find_Some [simp]: "mmc_find r (Some (mmc_pimpl' c)) = mmc_find r c"
  by (cases r) simp_all

lemma memory_cache_key: "Some (df_default_module_db n key df_new) = memory_cache n"
  by (simp add: df_default_module_db_def df_pm2result_db_def df_new_def)

lemma mmc_get_found:
  "mmc_find r c = Some mc \<Longrightarrow> mmc_get r (c, w) = (Inr mc, (Some (mmc_pimpl' c), w))"
  by (cases r)
    (simp_all add: mmc_get_or_make_module_cache_def mmc_get_or_make_user_cache_def Let_def bindS_def om_count_def om_at_def)

lemma mmc_find_emplace:
  "mmc_find (Req_module key) c = None \<Longrightarrow>
     mmc_find r (Some (mmc_module_caches_update (std_emplace key X) (mmc_pimpl' c))) =
       (if r = (Req_module key) then Some X else mmc_find r c)"
  "mmc_find (Req_user key') c = None \<Longrightarrow>
     mmc_find r (Some (mmc_user_caches_update (std_emplace (mmc_mangle key') X) (mmc_pimpl' c))) =
       (if r = (Req_user key') then Some X else mmc_find r c)"
  by (cases r; simp add: om_find_emplace)+

lemma mmc_get_new:
  assumes "mmc_find r c = None" "mmc_db_factory (mmc_pimpl' c) = df_new"
  shows "\<exists>c'. mmc_get r (c, w) = (Inr (memory_cache (cw_next_db w)), (c', w\<lparr>cw_next_db := Suc (cw_next_db w)\<rparr>)) \<and>
    mmc_db_factory (mmc_pimpl' c') = df_new \<and>
    (\<forall>r'. mmc_find r' c' = (if r' = r then Some (memory_cache (cw_next_db w)) else mmc_find r' c))"
proof (cases r)
  case (Req_module key)
  let ?c = "Some (mmc_module_caches_update (std_emplace key (memory_cache (cw_next_db w))) (mmc_pimpl' c))"
  have "mmc_find r' ?c = (if r' = r then Some (memory_cache (cw_next_db w)) else mmc_find r' c)" for r'
    using assms(1) unfolding Req_module by (rule mmc_find_emplace(1))
  moreover have "mmc_get r (c, w) = (Inr (memory_cache (cw_next_db w)), (?c, w\<lparr>cw_next_db := Suc (cw_next_db w)\<rparr>))"
    using assms Req_module
    by (simp add: mmc_get_or_make_module_cache_def Let_def bindS_def om_count_def om_at_def
        om_simps mmc_make_module_cache'_def memory_cache_key [of _ key])
  ultimately show ?thesis using assms(2) by (intro exI [of _ ?c]) simp
next
  case (Req_user key)
  let ?k = "mmc_mangle key"
  let ?c = "Some (mmc_user_caches_update (std_emplace ?k (memory_cache (cw_next_db w))) (mmc_pimpl' c))"
  have "mmc_find r' ?c = (if r' = r then Some (memory_cache (cw_next_db w)) else mmc_find r' c)" for r'
    using assms(1) unfolding Req_user by (rule mmc_find_emplace(2))
  moreover have "mmc_get r (c, w) = (Inr (memory_cache (cw_next_db w)), (?c, w\<lparr>cw_next_db := Suc (cw_next_db w)\<rparr>))"
    using assms Req_user
    by (simp add: mmc_get_or_make_user_cache_def Let_def bindS_def om_count_def om_at_def
        om_simps mmc_make_module_cache'_def memory_cache_key [of _ "mmc_mangle key"])
  ultimately show ?thesis using assms(2) by (intro exI [of _ ?c]) simp
qed

lemma mmc_get_good:
  assumes "mmc_good f s"
  shows "\<exists>f' mc s'. mmc_get r s = (Inr mc, s') \<and> mmc_good f' s' \<and> mmc_find r (fst s') = Some mc \<and>
    (\<forall>r'. mmc_find r' (fst s) \<noteq> None \<longrightarrow> mmc_find r' (fst s') \<noteq> None)"
proof -
  obtain c w where s: "s = (c, w)" by (cases s)
  show ?thesis
  proof (cases "mmc_find r c")
    case (Some mc)
    have "mmc_good f (Some (mmc_pimpl' c), w)" using assms by (simp add: mmc_good_def s)
    then show ?thesis using mmc_get_found [OF Some, of w] Some by (auto simp: s)
  next
    case None
    have fac: "mmc_db_factory (mmc_pimpl' c) = df_new" using assms by (simp add: mmc_good_def s)
    let ?n = "cw_next_db w"
    let ?w = "w\<lparr>cw_next_db := Suc ?n\<rparr>"
    obtain c' where c': "mmc_get r (c, w) = (Inr (memory_cache ?n), (c', ?w))"
        "mmc_db_factory (mmc_pimpl' c') = df_new"
        "\<forall>r'. mmc_find r' c' = (if r' = r then Some (memory_cache ?n) else mmc_find r' c)"
      using mmc_get_new [OF None fac, of w] by blast
    have old: "mmc_find r' c = Some mc \<Longrightarrow> mc = memory_cache (f r') \<and> f r' < ?n" for r' mc
      using assms by (simp add: mmc_good_def s)
    have "inj_on (f(r := ?n)) {r'. mmc_find r' c' \<noteq> None}"
    proof (rule inj_onI, goal_cases)
      case (1 x y)
      have m: "x \<noteq> r \<Longrightarrow> mmc_find x c \<noteq> None" "y \<noteq> r \<Longrightarrow> mmc_find y c \<noteq> None"
        using 1(1,2) c'(3) by auto
      then have lt: "x \<noteq> r \<Longrightarrow> f x < ?n" "y \<noteq> r \<Longrightarrow> f y < ?n" using old by blast+
      have inj: "inj_on f {r'. mmc_find r' c \<noteq> None}" using assms by (simp add: mmc_good_def s)
      show ?case
        using 1(3) lt m inj_onD [OF inj, of x y] by (cases "x = r"; cases "y = r") auto
    qed
    then have "mmc_good (f(r := ?n)) (c', ?w)"
      using c'(2,3) old by (auto simp: mmc_good_def less_SucI split: if_splits)
    then show ?thesis using c' by (auto simp: s)
  qed
qed

text \<open>A loop of requests: what was there stays, and every request of the loop has its cache.\<close>

lemma mmc_requests_good:
  "mmc_good g s \<Longrightarrow> \<exists>f s'. forS (\<lambda>r. bindS (mmc_get r) (\<lambda>_. retS ())) reqs s = (Inr (), s') \<and> mmc_good f s' \<and>
     (\<forall>r. mmc_find r (fst s) \<noteq> None \<longrightarrow> mmc_find r (fst s') \<noteq> None) \<and>
     (\<forall>r \<in> set reqs. mmc_find r (fst s') \<noteq> None) \<and> (reqs \<noteq> [] \<longrightarrow> fst s' \<noteq> None)"
proof (induction reqs arbitrary: g s)
  case (Cons r reqs)
  obtain g1 mc s1 where s1: "mmc_get r s = (Inr mc, s1)" "mmc_good g1 s1" "mmc_find r (fst s1) = Some mc"
      "\<forall>r'. mmc_find r' (fst s) \<noteq> None \<longrightarrow> mmc_find r' (fst s1) \<noteq> None"
    using mmc_get_good [OF Cons.prems, of r] by blast
  obtain f s' where s': "forS (\<lambda>r. bindS (mmc_get r) (\<lambda>_. retS ())) reqs s1 = (Inr (), s')" "mmc_good f s'"
      "\<forall>r. mmc_find r (fst s1) \<noteq> None \<longrightarrow> mmc_find r (fst s') \<noteq> None"
      "\<forall>r \<in> set reqs. mmc_find r (fst s') \<noteq> None"
    using Cons.IH [OF s1(2)] by blast
  have "mmc_find r (fst s1) \<noteq> None" using s1(3) by simp
  then have r: "mmc_find r (fst s') \<noteq> None" using s'(3) by blast
  then have c: "fst s' \<noteq> None" by (cases r) (auto simp: mmc_pimpl'_def split: option.splits)
  have "forS (\<lambda>r. bindS (mmc_get r) (\<lambda>_. retS ())) (r # reqs) s = forS (\<lambda>r. bindS (mmc_get r) (\<lambda>_. retS ())) reqs s1"
    using s1(1) by (simp add: bindS_def)
  then have run: "forS (\<lambda>r. bindS (mmc_get r) (\<lambda>_. retS ())) (r # reqs) s = (Inr (), s')" unfolding s'(1) .
  show ?case
    by (intro exI [of _ f] exI [of _ s'] conjI run s'(2)) (use s1(4) s'(3,4) r c in simp_all)
qed auto

lemma mmc_good_new: "mmc_good (\<lambda>_. 0) (None, cw_init gen (d :: 'd))"
proof -
  have "mmc_find r (None :: 'd mmc) = None" for r by (cases r) (simp_all add: mmc_pimpl'_def)
  then show ?thesis by (simp add: mmc_good_def mmc_pimpl'_def)
qed

text \<open>C21: The manager hands out one cache per key: after any sequence of requests for module and
  user caches, starting from a new manager, every requested cache has a number of its own
  (so it is independent of the others, those of users included), and asking again returns
  the same cache and changes nothing.\<close>

theorem manager_caches_distinct:
  "\<exists>s f. forS (\<lambda>r. bindS (mmc_get r) (\<lambda>_. retS ())) reqs (None, cw_init gen (d :: 'd)) = (Inr (), s) \<and>
     inj_on f (set reqs) \<and> (\<forall>r \<in> set reqs. mmc_get r s = (Inr (memory_cache (f r)), s))"
proof -
  obtain f s' where s': "forS (\<lambda>r. bindS (mmc_get r) (\<lambda>_. retS ())) reqs (None, cw_init gen d) = (Inr (), s')" "mmc_good f s'"
      "\<forall>r \<in> set reqs. mmc_find r (fst s') \<noteq> None" "reqs \<noteq> [] \<longrightarrow> fst s' \<noteq> None"
    using mmc_requests_good [OF mmc_good_new, of reqs gen d] by (elim exE conjE)
  obtain c w where "s' = (c, w)" by (rule prod.exhaust)
  note f = s' [unfolded this fst_conv]
  have "inj_on f (set reqs)"
    using f(2,3) inj_on_subset [of f "{r. mmc_find r c \<noteq> None}" "set reqs"] by (auto simp: mmc_good_def)
  moreover have "mmc_get r (c, w) = (Inr (memory_cache (f r)), (c, w))" if r: "r \<in> set reqs" for r
  proof -
    obtain mc where mc: "mmc_find r c = Some mc" using f(3) r by (cases "mmc_find r c") auto
    have c: "Some (mmc_pimpl' c) = c" using f(4) r by (cases c) auto
    have "mc = memory_cache (f r)" using f(2) mc by (simp add: mmc_good_def)
    then show ?thesis using mmc_get_found [OF mc, of w] c by simp
  qed
  ultimately show ?thesis using f(1) by blast
qed

theorem manager_caches_distinct_witness:
  "\<exists>s m n. forS (\<lambda>r. bindS (mmc_get r) (\<lambda>_. retS ())) [Req_module ''SCF'', Req_user ''SCF'']
        (None, cw_init example_gen ()) = (Inr (), s) \<and>
     m \<noteq> n \<and> mmc_get (Req_module ''SCF'') s = (Inr (memory_cache m), s) \<and>
     mmc_get (Req_user ''SCF'') s = (Inr (memory_cache n), s)"
proof -
  let ?reqs = "[Req_module ''SCF'', Req_user ''SCF'']"
  obtain s f where s: "forS (\<lambda>r. bindS (mmc_get r) (\<lambda>_. retS ())) ?reqs (None, cw_init example_gen ()) = (Inr (), s)"
      and "inj_on f (set ?reqs)" "\<forall>r \<in> set ?reqs. mmc_get r s = (Inr (memory_cache (f r)), s)"
    using manager_caches_distinct [of ?reqs example_gen "()"] by blast
  then have "f (Req_module ''SCF'') \<noteq> f (Req_user ''SCF'')"
      and "mmc_get (Req_module ''SCF'') s = (Inr (memory_cache (f (Req_module ''SCF''))), s)"
      and "mmc_get (Req_user ''SCF'') s = (Inr (memory_cache (f (Req_user ''SCF''))), s)"
    by (auto simp: inj_on_def)
  then show ?thesis using s by blast
qed

text \<open>Results in long-term storage cannot be read back through a \<open>ValueProxyMapper\<close> whose buffer
  is new, as it is after a restart: \<open>count\<close> answers that the key is there, but the lookup
  throws \<open>std::out_of_range\<close>, for the UUIDs stored are translated back by the buffer only.\<close>

theorem stored_results_unreadable:
  assumes "db_count sub key w = Inr True" and "db_get sub key w = Inr stored"
    and "rd (pmm_buffer p) w = []"
  shows "db_count (value_proxy_mapper_db p sub) key w = Inr True \<and>
    db_get (value_proxy_mapper_db p sub) key w = Inl (Out_of_range [])"
proof -
  have ops: "op_count (value_proxy_mapper_db p sub) key w = Inr True"
      "op_at (value_proxy_mapper_db p sub) key w = Inl (Out_of_range [])"
    using assms by (simp_all add: value_proxy_mapper_db_def vpm_count_def vpm_at_def pmm_un_proxy_def om_at_def)
  then show ?thesis
    by (simp add: db_count_def [of "value_proxy_mapper_db p sub"] db_get_def db_at_def)
qed

theorem stored_results_unreadable_witness:
  "let w = (cw_init example_gen ())\<lparr>cw_results := (\<lambda>_. [])\<rparr>;
       sub = native_db \<lparr>rd = (\<lambda>_. [([] :: proxy_map, [(''y'', ''u'')])]), wr = (\<lambda>_. id)\<rparr> None
   in db_get (value_proxy_mapper_db (result_map_maker 0 df_new) sub) [] w = Inl (Out_of_range [])"
proof -
  let ?w = "(cw_init example_gen ())\<lparr>cw_results := (\<lambda>_. [])\<rparr>"
  let ?sub = "native_db \<lparr>rd = (\<lambda>_. [([] :: proxy_map, [(''y'', ''u'')])]), wr = (\<lambda>_. id)\<rparr> None"
  have sub: "db_count ?sub [] ?w = Inr True" "db_get ?sub [] ?w = Inr [(''y'', ''u'')]"
    by (simp_all add: om_count_def native_get)
  have buf: "rd (pmm_buffer (result_map_maker 0 df_new)) ?w = []"
    by (simp add: result_map_maker_def r_result_buffer_def cw_init_def)
  show ?thesis
    unfolding Let_def by (rule stored_results_unreadable [OF sub buf, THEN conjunct2])
qed

end
