(* ===== verification/Rocks_DB.thy ===== *)
theory Rocks_DB
  imports Module_Cache
begin

text \<open>
  The long-term key-value store: \<open>RocksDBPIMPL\<close>
  (\<open>cache/database/rocksdb/detail_/rocksdb_pimpl\<close>) and \<open>RocksDB\<close>
  (\<open>cache/database/rocksdb/rocksdb.cpp\<close>).  The RocksDB library is third-party: the record
  \<open>rocks_lib\<close> holds the calls the code makes and \<open>rocks_ok\<close> what their documentation promises.
  A value larger than the maximum is split into chunks stored under keys derived from its
  own; a lookup or a release follows such keys, which are longer than the key they stand
  for, so the number of split keys bounds the recursion.
\<close>

section \<open>The library\<close>

text \<open>A status is \<open>None\<close> when it is \<open>ok()\<close>, and its text otherwise.\<close>

record 'd rocks_lib =
  rl_put :: "string \<Rightarrow> string \<Rightarrow> 'd \<Rightarrow> string option \<times> 'd"
  rl_delete :: "string \<Rightarrow> 'd \<Rightarrow> string option \<times> 'd"
  rl_get :: "string \<Rightarrow> 'd \<Rightarrow> string \<Rightarrow> string option \<times> string"
  rl_may_exist :: "string \<Rightarrow> 'd \<Rightarrow> bool \<times> string"

definition rocks_ok :: "'d rocks_lib \<Rightarrow> ('d \<Rightarrow> string \<Rightarrow> string option) \<Rightarrow> bool" where
  "rocks_ok lib content \<longleftrightarrow>
     (\<forall>k v d. \<exists>d'. rl_put lib k v d = (None, d') \<and> content d' = (content d)(k \<mapsto> v)) \<and>
     (\<forall>k d. \<exists>d'. rl_delete lib k d = (None, d') \<and> content d' = (content d)(k := None)) \<and>
     (\<forall>k d v buf. content d k = Some v \<longrightarrow> rl_get lib k d buf = (None, v) \<and> fst (rl_may_exist lib k d)) \<and>
     (\<forall>k d buf. content d k = None \<longrightarrow> (\<exists>msg. rl_get lib k d buf = (Some msg, buf)) \<and> snd (rl_may_exist lib k d) = '''')"

section \<open>RocksDBPIMPL\<close>

record 'd rocks =
  ro_db :: "'d option"
  ro_split :: "(string, string list) omap"
  ro_max :: nat

definition ro_assert_ptr' :: "'d rocks \<Rightarrow> 'd res" where
  "ro_assert_ptr' s = (case ro_db s of
      Some d \<Rightarrow> Inr d
    | None \<Rightarrow> Inl (runtime_error (''No allocated database. Was this PIMPL moved from'' @ '' or default allocated?'')))"

definition ro_count :: "'d rocks_lib \<Rightarrow> string \<Rightarrow> 'd rocks \<Rightarrow> bool res" where
  "ro_count lib key s = noexceptR
     (bindR (ro_assert_ptr' s) (\<lambda>d.
        if std_count key (ro_split s) then Inr True
        else case rl_may_exist lib key d of
          (False, _) \<Rightarrow> Inr False
        | (True, buffer) \<Rightarrow> Inr (snd (rl_get lib key d buffer) \<noteq> '''')))"

definition ro_check_status' :: "string option \<Rightarrow> unit res" where
  "ro_check_status' st = (case st of None \<Rightarrow> Inr () | Some msg \<Rightarrow> Inl (runtime_error msg))"

text \<open>The loop of \<open>split_value_\<close>; a maximum of zero would never let it end, so the model stops.\<close>

function ro_split_value' :: "nat \<Rightarrow> string \<Rightarrow> string list" where
  "ro_split_value' mx v =
     (if mx = 0 \<or> length v \<le> mx then [v] else take mx v # ro_split_value' mx (drop mx v))"
  by pat_completeness auto
termination by (relation "measure (\<lambda>(mx, v). length v)") auto

declare ro_split_value'.simps [simp del]

definition ro_sub_keys :: "string \<Rightarrow> nat \<Rightarrow> string list" where
  "ro_sub_keys key n = map (\<lambda>i. key @ digits i) [0..<n]"

definition ro_put :: "'d rocks_lib \<Rightarrow> string \<Rightarrow> string \<Rightarrow> ('d rocks, unit) op" where
  "ro_put lib key val = bindS (\<lambda>s. (ro_assert_ptr' s, s)) (\<lambda>d.
     (case rl_put lib key val d of
        (st, d') \<Rightarrow> bindS (modS (\<lambda>s. s\<lparr>ro_db := Some d'\<rparr>)) (\<lambda>_. liftS (ro_check_status' st))))"

text \<open>The insertion of a chunk, which is never larger than the maximum.\<close>

definition ro_insert_chunk :: "'d rocks_lib \<Rightarrow> string \<Rightarrow> string \<Rightarrow> ('d rocks, unit) op" where
  "ro_insert_chunk lib key val s = (if length val > ro_max s then (Inl Out_of_fuel, s) else ro_put lib key val s)"

definition ro_large_value_insert' :: "'d rocks_lib \<Rightarrow> string \<Rightarrow> string \<Rightarrow> ('d rocks, unit) op" where
  "ro_large_value_insert' lib key val =
     bindS (getS (\<lambda>s. ro_split_value' (ro_max s) val)) (\<lambda>chunks.
     let sub_keys = ro_sub_keys key (length chunks) in
     bindS (forS (\<lambda>(sk, c). ro_insert_chunk lib sk c) (zip sub_keys chunks)) (\<lambda>_.
     modS (\<lambda>s. s\<lparr>ro_split := std_emplace key sub_keys (ro_split s)\<rparr>)))"

definition ro_insert :: "'d rocks_lib \<Rightarrow> string \<Rightarrow> string \<Rightarrow> ('d rocks, unit) op" where
  "ro_insert lib key val = bindS (\<lambda>s. (ro_assert_ptr' s, s)) (\<lambda>_.
     bindS (getS (\<lambda>s. length val > ro_max s)) (\<lambda>large.
       if large then ro_large_value_insert' lib key val else ro_put lib key val))"

definition ro_delete :: "'d rocks_lib \<Rightarrow> string \<Rightarrow> ('d rocks, unit) op" where
  "ro_delete lib key = bindS (\<lambda>s. (ro_assert_ptr' s, s)) (\<lambda>d.
     (case rl_delete lib key d of
        (st, d') \<Rightarrow> bindS (modS (\<lambda>s. s\<lparr>ro_db := Some d'\<rparr>)) (\<lambda>_. liftS (ro_check_status' st))))"

text \<open>\<open>free\<close> and \<open>large_value_free_\<close>\<close>

fun ro_free_fuel :: "'d rocks_lib \<Rightarrow> nat \<Rightarrow> string \<Rightarrow> ('d rocks, unit) op" where
  "ro_free_fuel lib 0 key = throwS Out_of_fuel"
| "ro_free_fuel lib (Suc n) key =
     bindS (\<lambda>s. (ro_assert_ptr' s, s)) (\<lambda>_.
     bindS (getS (\<lambda>s. std_find key (ro_split s))) (\<lambda>split.
       case split of
         Some sub_keys \<Rightarrow>
           bindS (forS (ro_free_fuel lib n) sub_keys) (\<lambda>_. modS (\<lambda>s. s\<lparr>ro_split := std_erase key (ro_split s)\<rparr>))
       | None \<Rightarrow> ro_delete lib key))"

definition ro_free :: "'d rocks_lib \<Rightarrow> string \<Rightarrow> ('d rocks, unit) op" where
  "ro_free lib key s = ro_free_fuel lib (Suc (length (ro_split s))) key s"

text \<open>\<open>at\<close> and \<open>large_value_at_\<close>\<close>

fun ro_at_fuel :: "'d rocks_lib \<Rightarrow> nat \<Rightarrow> string \<Rightarrow> 'd rocks \<Rightarrow> string db_value res" where
  "ro_at_fuel lib 0 key s = Inl Out_of_fuel"
| "ro_at_fuel lib (Suc n) key s =
     bindR (ro_assert_ptr' s) (\<lambda>d.
     bindR (ro_count lib key s) (\<lambda>c.
       if \<not> c then Inr (dbv_alias None)
       else case std_find key (ro_split s) of
         Some sub_keys \<Rightarrow>
           bindR (mapR (\<lambda>sk. bindR (ro_at_fuel lib n sk s) dbv_get) sub_keys) (\<lambda>chunks.
             Inr (dbv_own (concat chunks)))
       | None \<Rightarrow>
           (case rl_get lib key d '''' of
              (Some msg, _) \<Rightarrow> Inl (out_of_range msg)
            | (None, buffer) \<Rightarrow> Inr (dbv_own buffer))))"

definition ro_at :: "'d rocks_lib \<Rightarrow> string \<Rightarrow> 'd rocks \<Rightarrow> string db_value res" where
  "ro_at lib key s = ro_at_fuel lib (Suc (length (ro_split s))) key s"

section \<open>RocksDB\<close>

text \<open>The database in the memory of a process; the PIMPL may be null.\<close>

definition rdb_pimpl' :: "'d rocks option \<Rightarrow> 'd rocks res" where
  "rdb_pimpl' p = (case p of
      Some s \<Rightarrow> Inr s
    | None \<Rightarrow> Inl (runtime_error (''Object has no PIMPL. Was it default constructed '' @ ''or moved from?'')))"

definition rdb_count :: "'d rocks_lib \<Rightarrow> ('w, 'd rocks option) ref \<Rightarrow> string \<Rightarrow> 'w \<Rightarrow> bool res" where
  "rdb_count lib r key w = (case rd r w of None \<Rightarrow> Inr False | Some s \<Rightarrow> ro_count lib key s)"

definition rdb_lift :: "('w, 'd rocks option) ref \<Rightarrow> ('d rocks, unit) op \<Rightarrow> ('w, unit) op" where
  "rdb_lift r m = bindS (\<lambda>w. (rdb_pimpl' (rd r w), w)) (\<lambda>s.
     case m s of (res, s') \<Rightarrow> bindS (modR r (\<lambda>_. Some s')) (\<lambda>_. liftS res))"

definition rdb_insert :: "'d rocks_lib \<Rightarrow> ('w, 'd rocks option) ref \<Rightarrow> string \<Rightarrow> string \<Rightarrow> ('w, unit) op" where
  "rdb_insert lib r key val = rdb_lift r (ro_insert lib key val)"

definition rdb_free :: "'d rocks_lib \<Rightarrow> ('w, 'd rocks option) ref \<Rightarrow> string \<Rightarrow> ('w, unit) op" where
  "rdb_free lib r key = rdb_lift r (ro_free lib key)"

definition rdb_at :: "'d rocks_lib \<Rightarrow> ('w, 'd rocks option) ref \<Rightarrow> string \<Rightarrow> 'w \<Rightarrow> string db_value res" where
  "rdb_at lib r key w = bindR (rdb_pimpl' (rd r w)) (ro_at lib key)"

text \<open>\<open>RocksDB\<close> does not override \<open>keys_\<close>; \<open>backup_\<close> and \<open>dump_\<close> are empty.\<close>

definition rocks_db :: "'d rocks_lib \<Rightarrow> ('w, 'd rocks option) ref \<Rightarrow> ('w, string, string) db_ops" where
  "rocks_db lib r = \<lparr>op_keys = (\<lambda>w. Inl (runtime_error ''NYI'')), op_count = rdb_count lib r,
     op_insert = rdb_insert lib r, op_free = rdb_free lib r, op_at = rdb_at lib r,
     op_backup = retS (), op_dump = retS ()\<rparr>"

section \<open>Properties\<close>

lemma concat_split: "concat (ro_split_value' mx v) = v"
  by (induction mx v rule: ro_split_value'.induct) (subst ro_split_value'.simps, simp)

lemma split_chunks:
  "0 < mx \<Longrightarrow> v \<noteq> '''' \<Longrightarrow> c \<in> set (ro_split_value' mx v) \<Longrightarrow> c \<noteq> '''' \<and> length c \<le> mx"
proof (induction mx v arbitrary: c rule: ro_split_value'.induct)
  case (1 mx v)
  show ?case
  proof (cases "length v \<le> mx")
    case True
    then show ?thesis using 1 by (simp add: ro_split_value'.simps [of mx v])
  next
    case False
    then have "c = take mx v \<or> c \<in> set (ro_split_value' mx (drop mx v))"
      using 1(2,4) by (simp add: ro_split_value'.simps [of mx v])
    then show ?thesis using 1 False by auto
  qed
qed

definition rocks_at_rest :: "('d \<Rightarrow> string \<Rightarrow> string option) \<Rightarrow> string \<Rightarrow> 'd rocks \<Rightarrow> 'd \<Rightarrow> bool" where
  "rocks_at_rest content key s d \<longleftrightarrow> ro_db s = Some d \<and> 0 < ro_max s \<and>
     std_find key (ro_split s) = None \<and> (\<forall>i. std_find (key @ digits i) (ro_split s) = None)"

lemma ro_put_eval:
  assumes "rocks_ok lib content" "ro_db s = Some d"
  shows "\<exists>d'. ro_put lib k v s = (Inr (), s\<lparr>ro_db := Some d'\<rparr>) \<and> content d' = (content d)(k \<mapsto> v)"
proof -
  obtain d' where "rl_put lib k v d = (None, d')" "content d' = (content d)(k \<mapsto> v)"
    using assms(1) unfolding rocks_ok_def by blast
  then show ?thesis
    using assms(2)
    by (intro exI [of _ d']) (simp add: ro_put_def bindS_def ro_assert_ptr'_def ro_check_status'_def)
qed

lemma ro_chunks_eval:
  assumes "rocks_ok lib content"
  shows "\<lbrakk>ro_db s = Some d; distinct (map fst kcs); \<forall>(k, c) \<in> set kcs. length c \<le> ro_max s\<rbrakk> \<Longrightarrow>
    \<exists>d'. forS (\<lambda>(k, c). ro_insert_chunk lib k c) kcs s = (Inr (), s\<lparr>ro_db := Some d'\<rparr>) \<and>
      (\<forall>(k, c) \<in> set kcs. content d' k = Some c) \<and>
      (\<forall>k. k \<notin> fst ` set kcs \<longrightarrow> content d' k = content d k)"
proof (induction kcs arbitrary: s d)
  case (Cons kc kcs)
  obtain k c where kc: "kc = (k, c)" by (cases kc)
  obtain d1 where d1: "ro_put lib k c s = (Inr (), s\<lparr>ro_db := Some d1\<rparr>)" "content d1 = (content d)(k \<mapsto> c)"
    using ro_put_eval [OF assms Cons.prems(1)] by blast
  obtain d' where d': "forS (\<lambda>(k, c). ro_insert_chunk lib k c) kcs (s\<lparr>ro_db := Some d1\<rparr>) = (Inr (), s\<lparr>ro_db := Some d'\<rparr>)"
      "\<forall>(k, c) \<in> set kcs. content d' k = Some c" "\<forall>k. k \<notin> fst ` set kcs \<longrightarrow> content d' k = content d1 k"
    using Cons.IH [of "s\<lparr>ro_db := Some d1\<rparr>" d1] Cons.prems kc by auto
  have "content d' k = Some c" using d'(3) d1(2) Cons.prems(2) kc by auto
  moreover have chunk: "ro_insert_chunk lib k c s = (Inr (), s\<lparr>ro_db := Some d1\<rparr>)"
    using d1(1) Cons.prems(3) kc by (simp add: ro_insert_chunk_def)
  ultimately show ?case
    using d' d1(2) by (intro exI [of _ d']) (auto simp: kc bindS_def)
next
  case Nil
  then show ?case by (intro exI [of _ d]) (cases s, simp)
qed

text \<open>A key that is not split is looked up in the library.\<close>

lemma ro_lookup_plain:
  assumes "rocks_ok lib content" "ro_db s = Some d" "std_find key (ro_split s) = None"
    "content d key = Some v" "v \<noteq> ''''"
  shows "ro_count lib key s = Inr True" and "bindR (ro_at_fuel lib (Suc n) key s) dbv_get = Inr v"
proof -
  have g: "rl_get lib key d buf = (None, v)" "fst (rl_may_exist lib key d)" for buf
    using assms(1,4) unfolding rocks_ok_def by blast+
  obtain buf where "rl_may_exist lib key d = (True, buf)" using g(2) by (cases "rl_may_exist lib key d") auto
  then show c: "ro_count lib key s = Inr True"
    using assms g by (simp add: ro_count_def ro_assert_ptr'_def om_count_def)
  show "bindR (ro_at_fuel lib (Suc n) key s) dbv_get = Inr v"
    using assms g c by (simp add: ro_assert_ptr'_def)
qed

lemma ro_lookup_split:
  assumes ok: "rocks_ok lib content" and d: "ro_db s = Some d"
    and key: "std_find key (ro_split s) = Some sub_keys"
    and subs: "list_all2 (\<lambda>sk c. std_find sk (ro_split s) = None \<and> content d sk = Some c \<and> c \<noteq> '''') sub_keys chunks"
  shows "ro_count lib key s = Inr True" and "bindR (ro_at lib key s) dbv_get = Inr (concat chunks)"
proof -
  show c: "ro_count lib key s = Inr True"
    using d key by (simp add: ro_count_def ro_assert_ptr'_def om_count_def)
  obtain m where m: "length (ro_split s) = Suc m" using key by (cases "ro_split s") auto
  have "mapR (\<lambda>sk. bindR (ro_at_fuel lib (Suc m) sk s) dbv_get) sub_keys = Inr chunks"
    unfolding mapR_Inr_iff
    using subs ro_lookup_plain(2) [OF ok d] by (auto elim!: list_all2_mono simp del: ro_at_fuel.simps)
  then show "bindR (ro_at lib key s) dbv_get = Inr (concat chunks)"
    using c d key unfolding ro_at_def m
    by (subst ro_at_fuel.simps) (simp add: ro_assert_ptr'_def del: ro_at_fuel.simps)
qed

lemma ro_insert_large:
  assumes ok: "rocks_ok lib content" and rest: "rocks_at_rest content key s d"
    and v: "v \<noteq> ''''" "ro_max s < length v"
  shows "\<exists>d' ks cs. ro_insert lib key v s =
      (Inr (), s\<lparr>ro_db := Some d', ro_split := std_emplace key ks (ro_split s)\<rparr>) \<and> concat cs = v \<and>
      list_all2 (\<lambda>sk c. (\<exists>i. sk = key @ digits i) \<and> content d' sk = Some c \<and> c \<noteq> '''') ks cs"
proof -
  let ?cs = "ro_split_value' (ro_max s) v"
  let ?ks = "ro_sub_keys key (length ?cs)"
  have len: "length ?ks = length ?cs" by (simp add: ro_sub_keys_def)
  have chunks: "c \<in> set ?cs \<Longrightarrow> c \<noteq> '''' \<and> length c \<le> ro_max s" for c
    using split_chunks [of "ro_max s" v c] v rest by (simp add: rocks_at_rest_def)
  have dist: "distinct (map fst (zip ?ks ?cs))"
    using len by (simp add: ro_sub_keys_def distinct_map inj_on_def)
  have db: "ro_db s = Some d" using rest by (simp add: rocks_at_rest_def)
  have small: "\<forall>(k, c) \<in> set (zip ?ks ?cs). length c \<le> ro_max s"
    using chunks by (auto dest: set_zip_rightD)
  obtain d' where d': "forS (\<lambda>(k, c). ro_insert_chunk lib k c) (zip ?ks ?cs) s = (Inr (), s\<lparr>ro_db := Some d'\<rparr>)"
      "\<forall>(k, c) \<in> set (zip ?ks ?cs). content d' k = Some c"
    using ro_chunks_eval [OF ok db dist small] by blast
  have "content d' (key @ digits i) = Some (?cs ! i)" if i: "i < length ?cs" for i
  proof -
    have "(?ks ! i, ?cs ! i) \<in> set (zip ?ks ?cs)"
      using i len nth_mem [of i "zip ?ks ?cs"] by simp
    moreover have "?ks ! i = key @ digits i" using i by (simp add: ro_sub_keys_def)
    ultimately show ?thesis using d'(2) by fastforce
  qed
  then have "list_all2 (\<lambda>sk c. (\<exists>i. sk = key @ digits i) \<and> content d' sk = Some c \<and> c \<noteq> '''') ?ks ?cs"
    using chunks len by (auto simp: list_all2_conv_all_nth ro_sub_keys_def)
  moreover have "ro_insert lib key v s = (Inr (), s\<lparr>ro_db := Some d', ro_split := std_emplace key ?ks (ro_split s)\<rparr>)"
    using db v(2) d'(1) by (simp add: ro_insert_def bindS_def ro_assert_ptr'_def ro_large_value_insert'_def Let_def)

  ultimately show ?thesis using concat_split by blast
qed


definition example_lib :: "(string \<Rightarrow> string option) rocks_lib" where
  "example_lib = \<lparr>rl_put = (\<lambda>k v d. (None, d(k \<mapsto> v))), rl_delete = (\<lambda>k d. (None, d(k := None))),
     rl_get = (\<lambda>k d buf. case d k of Some v \<Rightarrow> (None, v) | None \<Rightarrow> (Some ''NotFound'', buf)),
     rl_may_exist = (\<lambda>k d. (d k \<noteq> None, ''''))\<rparr>"

lemma example_lib_ok: "rocks_ok example_lib id"
  by (auto simp: rocks_ok_def example_lib_def split: option.splits)

definition example_rocks :: "(string \<Rightarrow> string option) rocks" where
  "example_rocks = \<lparr>ro_db = Some Map.empty, ro_split = [], ro_max = 3\<rparr>"


text \<open>A small value inserted under a key that holds a large one is lost: the call succeeds, but
  the key is still listed as split and reading it returns the large value as before.\<close>

theorem rocks_small_after_large:
  assumes "rocks_ok lib content" and "rocks_at_rest content key s d"
    and "ro_max s < length v" and "v2 \<noteq> ''''" and "length v2 \<le> ro_max s"
  shows "\<exists>s1 s2. ro_insert lib key v s = (Inr (), s1) \<and> ro_insert lib key v2 s1 = (Inr (), s2) \<and>
    bindR (ro_at lib key s2) dbv_get = Inr v"
proof -
  have v: "v \<noteq> ''''" using assms(3) by auto
  obtain d' ks cs where ins: "ro_insert lib key v s =
      (Inr (), s\<lparr>ro_db := Some d', ro_split := std_emplace key ks (ro_split s)\<rparr>)" "concat cs = v"
      "list_all2 (\<lambda>sk c. (\<exists>i. sk = key @ digits i) \<and> content d' sk = Some c \<and> c \<noteq> '''') ks cs"
    using ro_insert_large [OF assms(1,2) v assms(3)] by blast
  let ?s1 = "s\<lparr>ro_db := Some d', ro_split := std_emplace key ks (ro_split s)\<rparr>"
  obtain d2 where d2: "ro_put lib key v2 ?s1 = (Inr (), ?s1\<lparr>ro_db := Some d2\<rparr>)"
      "content d2 = (content d')(key \<mapsto> v2)"
    using ro_put_eval [OF assms(1), of ?s1 d'] by auto
  let ?s2 = "?s1\<lparr>ro_db := Some d2\<rparr>"
  have "ro_insert lib key v2 ?s1 = (Inr (), ?s2)"
    using assms(5) d2(1) by (simp add: ro_insert_def bindS_def ro_assert_ptr'_def)
  moreover have "std_find key (ro_split ?s2) = Some ks"
    using assms(2) by (simp add: om_simps rocks_at_rest_def)
  moreover have "list_all2 (\<lambda>sk c. std_find sk (ro_split ?s2) = None \<and> content d2 sk = Some c \<and> c \<noteq> '''') ks cs"
    using ins(3) assms(2) d2(2) by (auto elim!: list_all2_mono simp: om_simps rocks_at_rest_def)
  ultimately show ?thesis
    using ro_lookup_split [OF assms(1), of ?s2 d2 key ks cs] ins(1,2) by auto
qed

theorem rocks_small_after_large_witness:
  "\<exists>s1 s2. ro_insert example_lib ''key'' ''large value'' example_rocks = (Inr (), s1) \<and>
     ro_insert example_lib ''key'' ''new'' s1 = (Inr (), s2) \<and>
     bindR (ro_at example_lib ''key'' s2) dbv_get = Inr ''large value''"
  using rocks_small_after_large [OF example_lib_ok, of "''key''" example_rocks Map.empty "''large value''" "''new''"]
  by (simp add: rocks_at_rest_def example_rocks_def)

end
