(* ===== verification/Long_Term_Storage.thy ===== *)
theory Long_Term_Storage
  imports Rocks_DB
begin

text \<open>
  Where results are saved: the options a build of the library has (\<open>config/\<close>), making a \<open>RocksDB\<close>
  (its constructors, and the stub \<open>RocksDBPIMPLStub\<close> it has in a build without the library), and
  \<open>change_save_location\<close> of a manager's caches, which makes two of them and may fail at either.
  Opening a database is a call of the library: \<open>db_open\<close> gives its status and the database.
\<close>

section \<open>The build\<close>

record build =
  with_rocksdb_v :: bool
  with_pybind11_v :: bool

definition with_rocksdb :: "build \<Rightarrow> bool" where
  "with_rocksdb b = with_rocksdb_v b"

definition with_pybind11 :: "build \<Rightarrow> bool" where
  "with_pybind11 b = with_pybind11_v b"

section \<open>Opening a database\<close>

type_synonym ('w, 'd) db_open = "string \<Rightarrow> 'w \<Rightarrow> (string option \<times> 'd) \<times> 'w"

definition ro_allocate' :: "('w, 'd) db_open \<Rightarrow> string \<Rightarrow> ('w, 'd) op" where
  "ro_allocate' db_open path w =
     (case db_open path w of ((st, db), w') \<Rightarrow> (bindR (ro_check_status' st) (\<lambda>_. Inr db), w'))"

definition ro_max_value_size :: nat where
  "ro_max_value_size = 3000000000"

definition ro_new :: "('w, 'd) db_open \<Rightarrow> string \<Rightarrow> ('w, 'd rocks) op" where
  "ro_new db_open path = bindS (ro_allocate' db_open path) (\<lambda>db.
     retS \<lparr>ro_db = Some db, ro_split = [], ro_max = ro_max_value_size\<rparr>)"

text \<open>The stub: every member throws.\<close>

definition rs_raise_error' :: "'a res" where
  "rs_raise_error' = Inl (runtime_error (''PluginPlay was not compiled with RocksDB '' @
     ''support. To use RocksDB as a database rebuild '' @ ''PluginPlay with the CMake option BUILD_ROCKSDB '' @
     ''set to ON.''))"

definition rs_new :: "string \<Rightarrow> ('w, 'd rocks) op" where
  "rs_new path = liftS rs_raise_error'"

definition rs_count :: "string \<Rightarrow> bool res" where
  "rs_count key = rs_raise_error'"

definition rs_insert :: "string \<Rightarrow> string \<Rightarrow> unit res" where
  "rs_insert key val = rs_raise_error'"

definition rs_free :: "string \<Rightarrow> unit res" where
  "rs_free key = rs_raise_error'"

definition rs_at :: "string \<Rightarrow> string db_value res" where
  "rs_at key = rs_raise_error'"

text \<open>\<open>RocksDB(path)\<close>, whose PIMPL the build chooses; \<open>r\<close> is the memory of the new object.\<close>

definition rdb_new :: "build \<Rightarrow> 'd rocks_lib \<Rightarrow> ('w, 'd) db_open \<Rightarrow> ('w, 'd rocks option) ref
    \<Rightarrow> string \<Rightarrow> ('w, ('w, string, string) db_ops) op" where
  "rdb_new b lib db_open r path =
     bindS (if with_rocksdb_v b then ro_new db_open path else rs_new path) (\<lambda>s.
     bindS (modR r (\<lambda>_. Some s)) (\<lambda>_. retS (rocks_db lib r)))"

text \<open>The destructors: the database is closed if there is one, whatever the status of that.\<close>

definition ro_close' :: "('d \<Rightarrow> 'w \<Rightarrow> string option \<times> 'w) \<Rightarrow> 'd \<Rightarrow> 'w \<Rightarrow> 'w" where
  "ro_close' db_close db w = snd (db_close db w)"

definition rdb_destroy :: "('d \<Rightarrow> 'w \<Rightarrow> string option \<times> 'w) \<Rightarrow> ('w, 'd rocks option) ref \<Rightarrow> ('w, unit) op" where
  "rdb_destroy db_close r = bindS (getS (rd r)) (\<lambda>p.
     case p of
       None \<Rightarrow> retS ()
     | Some s \<Rightarrow> bindS (modS (case ro_db s of None \<Rightarrow> id | Some db \<Rightarrow> ro_close' db_close db)) (\<lambda>_. modR r (\<lambda>_. None)))"

section \<open>Caches that save to disk\<close>

text \<open>\<open>DatabaseFactory(cache_path, uuid_path)\<close> and \<open>ModuleManagerCache(disk_location)\<close>\<close>

definition df_new_at :: "(proxy_map, proxy_map) archive \<Rightarrow> (uuid, any_field) archive \<Rightarrow> 'd open_rocks
    \<Rightarrow> string \<Rightarrow> string \<Rightarrow> ('d database_factory \<times> 'd cache_world, unit) op" where
  "df_new_at ar_pm ar_any open_rocks cache_path uuid_path =
     bindS (df_set_serialized_pm_to_pm ar_pm open_rocks cache_path) (\<lambda>_.
     df_set_type_eraser_backend_path ar_any open_rocks uuid_path)"

definition mmc_new_at :: "(proxy_map, proxy_map) archive \<Rightarrow> (uuid, any_field) archive \<Rightarrow> 'd open_rocks
    \<Rightarrow> string \<Rightarrow> ('d cache_world, 'd mmc) op" where
  "mmc_new_at ar_pm ar_any open_rocks disk_location w =
     (case mmc_change_save_location ar_pm ar_any open_rocks disk_location (None, w) of
        (r, (c, w')) \<Rightarrow> (bindR r (\<lambda>_. Inr c), w'))"

section \<open>Lemmas\<close>

text \<open>What a request that finds no cache gets.\<close>

fun request_key :: "cache_request \<Rightarrow> string" where
  "request_key (Req_module key) = key"
| "request_key (Req_user key) = mmc_mangle key"

lemma mmc_get_made:
  assumes "mmc_find r c = None"
  shows "\<exists>c'. mmc_get r (c, w) =
    (Inr (Some (df_default_module_db (cw_next_db w) (request_key r) (mmc_db_factory (mmc_pimpl' c)))),
     (c', w\<lparr>cw_next_db := Suc (cw_next_db w)\<rparr>))"
  using assms
  by (cases r) (simp_all add: mmc_get_or_make_module_cache_def mmc_get_or_make_user_cache_def Let_def bindS_def
      om_count_def om_at_def om_simps mmc_make_module_cache'_def)

lemma find_factory [simp]: "mmc_find r (Some (mmc_db_factory_update f (mmc_pimpl' c))) = mmc_find r c"
  by (cases r) simp_all

text \<open>Databases that differ in what they back up, and to where, only.\<close>

definition same_but_backup :: "('w, 'k, 'v) db_ops \<Rightarrow> ('w, 'k, 'v) db_ops \<Rightarrow> bool" where
  "same_but_backup d d' \<longleftrightarrow> op_keys d = op_keys d' \<and> op_count d = op_count d' \<and> op_insert d = op_insert d' \<and>
     op_free d = op_free d' \<and> op_at d = op_at d'"

lemma same_api:
  assumes "same_but_backup d d'"
  shows "db_keys d = db_keys d'" "db_count d = db_count d'" "db_insert d = db_insert d'" "db_free d = db_free d'"
    "db_at d = db_at d'" "db_get d = db_get d'"
  using assms by (simp_all add: same_but_backup_def fun_eq_iff db_api_defs cong: if_cong)

lemma same_native: "same_but_backup (native_db r b) (native_db r b')"
  by (simp add: same_but_backup_def native_db_def)

lemma same_find: "same_but_backup d d' \<Longrightarrow> transposer_find eq d key vals w = transposer_find eq d' key vals w"
  by (induction vals) (simp_all add: same_api(6) cong: if_cong)

lemma same_transposer:
  assumes "same_but_backup d d'"
  shows "same_but_backup (transposer_db eq keys d) (transposer_db eq keys d')"
  by (simp add: same_but_backup_def transposer_db_def fun_eq_iff transposer_keys_def transposer_count_def
      transposer_insert_def transposer_free_def transposer_at_def same_find [OF assms] same_api [OF assms]
      cong: if_cong option.case_cong)

lemma same_eraser:
  assumes "same_but_backup d d'"
  shows "same_but_backup (eraser_db conv uncast d) (eraser_db conv uncast d')"
  by (simp add: same_but_backup_def eraser_db_def fun_eq_iff eraser_keys_def eraser_count_def eraser_insert_def
      eraser_free_def eraser_at_def same_api [OF assms])

text \<open>The maker of proxies sees the table of UUIDs through its mapper.\<close>

definition same_maker :: "('w, 'x) proxy_map_maker \<Rightarrow> ('w, 'x) proxy_map_maker \<Rightarrow> bool" where
  "same_maker p p' \<longleftrightarrow> pmm_buffer p = pmm_buffer p' \<and> um_draw (pmm_db p) = um_draw (pmm_db p') \<and>
     same_but_backup (um_db (pmm_db p)) (um_db (pmm_db p'))"

lemma same_mapper:
  assumes "same_maker p p'"
  shows "um_count (pmm_db p) = um_count (pmm_db p')" "um_insert (pmm_db p) = um_insert (pmm_db p')"
    "um_at (pmm_db p) = um_at (pmm_db p')"
proof -
  have draw: "um_uuid (pmm_db p) = um_uuid (pmm_db p')" and db: "same_but_backup (um_db (pmm_db p)) (um_db (pmm_db p'))"
    using assms by (simp_all add: same_maker_def um_uuid_def)
  note api = same_api [OF db]
  show count: "um_count (pmm_db p) = um_count (pmm_db p')" and "um_at (pmm_db p) = um_at (pmm_db p')"
    by (simp_all add: fun_eq_iff um_count_def um_at_def api)
  show "um_insert (pmm_db p) = um_insert (pmm_db p')"
    by (simp add: fun_eq_iff um_insert_def count draw api cong: if_cong)
qed

lemma same_proxies:
  assumes "same_maker p p'"
  shows "pmm_count p = pmm_count p'" "pmm_at p = pmm_at p'" "pmm_insert p = pmm_insert p'" "pmm_keys p = pmm_keys p'"
proof -
  have "pmm_count p key w = pmm_count p' key w" for key w
    by (induction key) (auto simp: same_mapper [OF assms] cong: if_cong)
  then show "pmm_count p = pmm_count p'" by (simp add: fun_eq_iff)
  have "pmm_at_loop p key rv w = pmm_at_loop p' key rv w" for key rv w
    by (induction key arbitrary: rv) (auto simp: same_mapper [OF assms] cong: if_cong)
  then show at: "pmm_at p = pmm_at p'" by (simp add: fun_eq_iff pmm_at_def)
  show "pmm_keys p = pmm_keys p'" using assms by (simp add: fun_eq_iff pmm_keys_def same_maker_def)
  show "pmm_insert p = pmm_insert p'"
    using assms by (simp add: fun_eq_iff pmm_insert_def at same_mapper [OF assms] same_maker_def)
qed

lemma same_key_proxies:
  assumes "same_maker p p'" and "same_but_backup d d'"
  shows "same_but_backup (key_proxy_mapper_db p d) (key_proxy_mapper_db p' d')"
  by (simp add: same_but_backup_def key_proxy_mapper_db_def fun_eq_iff kpm_count_def kpm_insert_def kpm_free_def kpm_at_def
      same_proxies [OF assms(1)] same_api [OF assms(2)] cong: if_cong)

text \<open>A module cache over any table of UUIDs and any long-term store.\<close>

lemma same_module_db:
  assumes "df_any2uuid df = any2uuid_db b"
  shows "same_but_backup (df_default_module_db n key df) (df_default_module_db n '''' df_new)"
proof -
  have "same_but_backup (any2uuid_db b) (any2uuid_db None)"
    unfolding any2uuid_db_def by (intro same_transposer same_native)
  then have "same_maker (input_map_maker n df) (input_map_maker n df_new)"
    by (simp add: same_maker_def input_map_maker_def input_uuid_mapper_def assms df_new_def same_eraser)
  moreover have "same_but_backup (df_pm2result_db n key df) (df_pm2result_db n '''' df_new)"
    by (auto simp: df_pm2result_db_def same_native split: option.split)
  ultimately show ?thesis unfolding df_default_module_db_def by (rule same_key_proxies)
qed

lemma same_module_cache:
  assumes "df_any2uuid df = any2uuid_db b"
  shows "mc_count (Some (df_default_module_db n key df)) = mc_count (memory_cache n)"
    "mc_uncache (Some (df_default_module_db n key df)) = mc_uncache (memory_cache n)"
    "mc_cache (Some (df_default_module_db n key df)) = mc_cache (memory_cache n)"
  using same_api [OF same_module_db [OF assms, of n key]]
  by (simp_all add: fun_eq_iff mc_count_def mc_uncache_def mc_cache_def mc_pimpl'_def mc_assert_pimpl'_def cong: if_cong)

lemma empty_cache:
  assumes "cw_results w n = []"
  shows "mc_uncache (memory_cache n) k w \<noteq> Inr v"
proof -
  have "op_count (df_default_module_db n '''' df_new) k w \<noteq> Inr True"
    using assms by (auto simp: default_module_db_new key_proxy_mapper_db_def kpm_count_def noexceptR_def r_results_def
        om_count_def bindR_Inr_iff split: sum.splits)
  then show ?thesis by (auto simp: mc_uncache_def mc_count_def db_count_def bindR_Inr_iff noexceptR_def split: sum.splits if_splits)
qed

text \<open>The stages of \<open>change_save_location\<close>.\<close>

definition rdb_at_path :: "build \<Rightarrow> 'd rocks_lib \<Rightarrow> ('e cache_world, 'd) db_open
    \<Rightarrow> (string \<Rightarrow> ('e cache_world, 'd rocks option) ref) \<Rightarrow> 'e open_rocks" where
  "rdb_at_path b lib db_open place path = rdb_new b lib db_open (place path) path"

lemma change_is_new: "mmc_change_save_location ar_pm ar_any open_rocks loc =
    on_factory (df_new_at ar_pm ar_any open_rocks (path_append loc ''cache'') (path_append loc ''uuid''))"
  by (auto simp: fun_eq_iff mmc_change_save_location_def df_new_at_def on_factory_def bindS_def mmc_pimpl'_def Let_def comp_def
      split: prod.splits sum.splits)

definition makes :: "'d mmc \<Rightarrow> 'd mmc \<Rightarrow> 'd database_factory \<Rightarrow> bool" where
  "makes c c' df \<longleftrightarrow> (\<forall>req w. mmc_find req c = None \<longrightarrow>
     fst (mmc_get req (c', w)) = Inr (Some (df_default_module_db (cw_next_db w) (request_key req) df)))"

lemma makes_factory: "makes c (Some (mmc_db_factory_update (\<lambda>_. df) (mmc_pimpl' c))) df"
  unfolding makes_def
proof (intro allI impI)
  fix req w assume "mmc_find req c = None"
  then have "mmc_find req (Some (mmc_db_factory_update (\<lambda>_. df) (mmc_pimpl' c))) = None" by simp
  from mmc_get_made [OF this, of w]
  show "fst (mmc_get req (Some (mmc_db_factory_update (\<lambda>_. df) (mmc_pimpl' c)), w)) =
      Inr (Some (df_default_module_db (cw_next_db w) (request_key req) df))"
    by (auto simp: mmc_pimpl'_def)
qed

section \<open>Properties\<close>

text \<open>C24: What changing the save location does.  Whatever its outcome, every cache handed out before is
  still the one of its key.  In a build without RocksDB it throws and changes nothing, as it does
  when the first database, for the results, does not open.  When the second, for the UUIDs, does not open it
  throws, too, but caches made from then on save their results all the same, while the UUIDs that the
  results consist of stay in memory.  When both open, caches made from then on use both.\<close>

theorem change_save_location_outcome:
  assumes "mmc_change_save_location ar_pm ar_any (rdb_at_path b lib db_open place) loc (c, w) = (r, (c', w'))"
  shows "let p = path_append loc ''cache''; q = path_append loc ''uuid''; df = mmc_db_factory (mmc_pimpl' c);
      opened = (\<lambda>path d. wr (place path) (\<lambda>_. Some \<lparr>ro_db = Some d, ro_split = [], ro_max = ro_max_value_size\<rparr>));
      saving = df\<lparr>df_serial_pm := Some (serialized_db ar_pm (rocks_db lib (place p)))\<rparr> in
    (\<forall>req mc v. mmc_find req c = Some mc \<longrightarrow> fst (mmc_get req (c', v)) = Inr mc) \<and>
    (if \<not> with_rocksdb b then r = rs_raise_error' \<and> makes c c' df \<and> w' = w
     else case db_open p w of
        ((Some msg, d), w1) \<Rightarrow> r = Inl (runtime_error msg) \<and> makes c c' df \<and> w' = w1
      | ((None, d), w1) \<Rightarrow>
          (case db_open q (opened p d w1) of
             ((Some msg, d'), w2) \<Rightarrow> r = Inl (runtime_error msg) \<and> makes c c' saving \<and> w' = w2
           | ((None, d'), w2) \<Rightarrow> r = Inr () \<and> w' = opened q d' w2 \<and>
               makes c c' (saving\<lparr>df_any2uuid := any2uuid_db (Some (serialized_db ar_any (rocks_db lib (place q))))\<rparr>)))"
proof -
  let ?open = "rdb_at_path b lib db_open place" and ?df = "mmc_db_factory (mmc_pimpl' c)"
  obtain df where c': "c' = Some (mmc_db_factory_update (\<lambda>_. df) (mmc_pimpl' c))"
      and new: "df_new_at ar_pm ar_any ?open (path_append loc ''cache'') (path_append loc ''uuid'') (?df, w) = (r, (df, w'))"
    using assms by (auto simp: change_is_new on_factory_def split: prod.splits)
  have "mmc_find req c = Some mc \<Longrightarrow> fst (mmc_get req (c', v)) = Inr mc" for req mc v
    using mmc_get_found [of req c' mc v] by (simp add: c')
  moreover have "makes c c' df" unfolding c' by (rule makes_factory)
  ultimately show ?thesis
    using new by (auto simp: df_new_at_def df_set_serialized_pm_to_pm_def df_set_type_eraser_backend_path_def
      rdb_at_path_def rdb_new_def rs_new_def ro_new_def ro_allocate'_def ro_check_status'_def rs_raise_error'_def
      with_rocksdb_def Let_def bindS_def split: prod.splits option.splits)
qed


text \<open>A library whose databases are of the memory, an archive that refuses, and a disk on which one path is
  in use.\<close>

definition full_build :: build where
  "full_build = \<lparr>with_rocksdb_v = True, with_pybind11_v = True\<rparr>"

definition no_archive :: "('k, 'v) archive" where
  "no_archive = \<lparr>ser_key = \<lambda>_. Inl (User_exception ''cereal''), des_key = \<lambda>_. Inl (User_exception ''cereal''),
     ser_val = \<lambda>_. Inl (User_exception ''cereal''), des_val = \<lambda>_. Inl (User_exception ''cereal'')\<rparr>"

type_synonym example_disk = "string \<Rightarrow> (string \<Rightarrow> string option) rocks option"

definition example_place :: "string \<Rightarrow> (example_disk cache_world, (string \<Rightarrow> string option) rocks option) ref" where
  "example_place path = \<lparr>rd = \<lambda>w. cw_disk w path, wr = \<lambda>f. cw_disk_update (\<lambda>d. d(path := f (d path)))\<rparr>"

definition busy_open :: "string \<Rightarrow> (example_disk cache_world, string \<Rightarrow> string option) db_open" where
  "busy_open busy path w = ((if path = busy then Some ''IO error'' else None, Map.empty), w)"

abbreviation "example_open busy \<equiv> rdb_at_path full_build example_lib (busy_open busy) example_place"

theorem change_save_location_outcome_witness:
  "\<exists>c' w'. mmc_change_save_location no_archive no_archive (example_open ''/data/uuid'') ''/data''
      (None, cw_init example_gen (\<lambda>_. None)) = (Inl (runtime_error ''IO error''), (c', w')) \<and>
    fst (mmc_get (Req_module ''SCF'') (c', w')) = Inr (Some (df_default_module_db (cw_next_db w') ''SCF''
      (df_new\<lparr>df_serial_pm := Some (serialized_db no_archive (rocks_db example_lib (example_place ''/data/cache'')))\<rparr>)))"
proof -
  obtain r c' w' where run: "mmc_change_save_location no_archive no_archive (example_open ''/data/uuid'') ''/data''
      (None, cw_init example_gen (\<lambda>_. None)) = (r, (c', w'))" by (metis prod.exhaust)
  let ?df = "df_new\<lparr>df_serial_pm := Some (serialized_db no_archive (rocks_db example_lib (example_place ''/data/cache'')))\<rparr>"
  have out: "r = Inl (runtime_error ''IO error'') \<and> makes None c' ?df"
    using change_save_location_outcome [OF run]
    by (auto simp: Let_def full_build_def with_rocksdb_def busy_open_def path_append_def mmc_pimpl'_def)
  have "mmc_find (Req_module ''SCF'') None = None" by (simp add: mmc_pimpl'_def)
  then have "fst (mmc_get (Req_module ''SCF'') (c', w')) = Inr (Some (df_default_module_db (cw_next_db w') ''SCF'' ?df))"
    using out unfolding makes_def by (metis request_key.simps(1))
  then show ?thesis using out run by blast
qed


end
