(* ===== verification/Module_Base.thy ===== *)
theory Module_Base
  imports Module_Cache
begin

text \<open>
  The data of modules: \<open>SubmoduleRequest\<close> (\<open>submodule_request\<close>), \<open>ModuleBase\<close>, the class the
  developer of a module derives from (\<open>module/module_base.hpp\<close>), and the state of \<open>Module\<close> and
  \<open>ModulePIMPL\<close> (\<open>module/\<close>).  Modules and implementations are shared objects: a
  \<open>std::shared_ptr\<close> to one is its address in a heap.  A module may reach itself through its
  submodules, so an operation that calls itself on submodules takes fuel, the depth of calls
  it may make.  Moved-from objects, whose PIMPL is null, are left out.
\<close>

section \<open>Calls through pointers\<close>

text \<open>An operation that calls itself on the objects it points to, with a bound on the depth.\<close>

fun calls :: "(('n \<Rightarrow> 'r res) \<Rightarrow> 'n \<Rightarrow> 'r res) \<Rightarrow> nat \<Rightarrow> 'n \<Rightarrow> 'r res" where
  "calls step 0 x = Inl Out_of_fuel"
| "calls step (Suc n) x = step (calls step n) x"

text \<open>
  What makes the bound harmless: the operation looks at the results of its own calls on its
  callees only, and runs out of fuel only if one of them does.
\<close>

locale call_graph =
  fixes step :: "('n \<Rightarrow> 'r res) \<Rightarrow> 'n \<Rightarrow> 'r res"
    and callees :: "'n \<Rightarrow> 'n set"
  assumes step_local: "(\<And>y. y \<in> callees x \<Longrightarrow> f y = g y) \<Longrightarrow> step f x = step g x"
    and step_fuel: "(\<And>y. y \<in> callees x \<Longrightarrow> f y \<noteq> Inl Out_of_fuel) \<Longrightarrow> step f x \<noteq> Inl Out_of_fuel"
begin

text \<open>On a graph of callees without cycles a fuel above the height of the node is enough.\<close>

lemma enough_fuel:
  assumes "\<And>x y. y \<in> callees x \<Longrightarrow> rank y < rank x" and "rank x < n"
  shows "calls step n x \<noteq> Inl Out_of_fuel \<and> calls step n x = calls step (Suc (rank x)) x"
  using assms(2)
proof (induction "rank x" arbitrary: x n rule: less_induct)
  case less
  obtain m where n: "n = Suc m" using less.prems by (cases n) auto
  have "calls step m y \<noteq> Inl Out_of_fuel \<and> calls step m y = calls step (rank x) y"
    if "y \<in> callees x" for y
  proof -
    have y: "rank y < rank x" using assms(1) [OF that] .
    then show ?thesis
      using less.hyps [OF y, of m] less.hyps [OF y, of "rank x"] less.prems n y
      by (metis Suc_less_eq less_trans_Suc less_Suc_eq less_trans)
  qed
  then have eq: "step (calls step m) x = step (calls step (rank x)) x"
      and "\<And>y. y \<in> callees x \<Longrightarrow> calls step m y \<noteq> Inl Out_of_fuel"
    using step_local [of x "calls step m" "calls step (rank x)"] by blast+
  then have "step (calls step m) x \<noteq> Inl Out_of_fuel" using step_fuel by blast
  then show ?case using eq by (simp add: n)
qed

end

section \<open>Maps of fields\<close>

text \<open>Copies of maps, and \<open>==\<close> of two ordered maps: the same keys, case included, with equal values.\<close>

definition om_copy :: "('v \<Rightarrow> 'v res) \<Rightarrow> (string, 'v) omap \<Rightarrow> (string, 'v) omap res" where
  "om_copy cp m = mapR (\<lambda>(k, v). bindR (cp v) (\<lambda>v'. Inr (k, v'))) m"

abbreviation im_copy :: "input_map \<Rightarrow> input_map res" where "im_copy \<equiv> om_copy mi_copy"
abbreviation rm_copy :: "result_map \<Rightarrow> result_map res" where "rm_copy \<equiv> om_copy mr_copy"

definition om_equal :: "('v \<Rightarrow> 'v \<Rightarrow> bool res) \<Rightarrow> (string, 'v) omap \<Rightarrow> (string, 'v) omap \<Rightarrow> bool res" where
  "om_equal eq m m' = (if length m \<noteq> length m' then Inr False else pairs_equal eq m m')"

text \<open>The order of \<open>std::type_index\<close>, and \<open>std::set<type::rtti>::insert\<close>.\<close>

definition rt_ord :: "rtti \<Rightarrow> string \<times> nat" where
  "rt_ord t = (rt_name t, rt_dso t)"

lemma rt_ord_inj [simp]: "rt_ord t = rt_ord t' \<longleftrightarrow> t = t'"
  by (cases t; cases t') (simp add: rt_ord_def)

definition rtti_insert :: "rtti \<Rightarrow> rtti list \<Rightarrow> rtti list" where
  "rtti_insert t ts = (if t \<in> set ts then ts else insort_key rt_ord t ts)"

lemma set_rtti_insert [simp]: "set (rtti_insert t ts) = insert t (set ts)"
  by (auto simp: rtti_insert_def set_insort_key)

fun anyR :: "('a \<Rightarrow> bool res) \<Rightarrow> 'a list \<Rightarrow> bool res" where
  "anyR f [] = Inr False"
| "anyR f (x # xs) = bindR (f x) (\<lambda>b. if b then Inr True else anyR f xs)"

section \<open>The objects\<close>

record submodule_request =
  sr_desc :: "string option"
  sr_type :: "rtti option"
  sr_inputs :: input_map
  sr_module :: "nat option"

type_synonym submodule_map = "(string, submodule_request) omap"

text \<open>
  The developer's \<open>run_\<close>, as what it does with its surroundings: it returns results, throws,
  runs a submodule as a property type and continues with what comes back, or reads and writes
  the internal cache.  It may catch what a call throws, but not the end of the program.
\<close>

datatype alg =
    Ret result_map
  | Raise exn
  | Run_submod string property_type "pt_arg list" "cval list res \<Rightarrow> alg"
  | Store cval cval "unit res \<Rightarrow> alg"
  | Fetch string cval "cval res \<Rightarrow> alg"

record 'd module_base =
  mb_uuid :: uuid
  mb_inputs :: input_map
  mb_results :: result_map
  mb_submods :: submodule_map
  mb_property_types :: "rtti list"
  mb_python_property_types :: "string list"
  mb_type :: rtti
  mb_desc :: "string option"
  mb_citations :: "string list"
  mb_cache :: "'d user_cache option"
  mb_runtime :: "nat option"
  mb_is_python :: bool
  mb_run :: "input_map \<Rightarrow> submodule_map \<Rightarrow> alg"

record 'd module_pimpl =
  mp_locked :: bool
  mp_memoizable :: bool
  mp_base :: "nat option"
  mp_cache :: "'d module_cache option"
  mp_inputs :: input_map
  mp_submods :: submodule_map
  mp_property_types :: "rtti list"
  mp_python_property_types :: "string list"

record 'd module =
  mo_pimpl :: "'d module_pimpl"
  mo_name :: "string option"

record 'd heap =
  hp_mods :: "nat \<Rightarrow> 'd module option"
  hp_next_mod :: nat
  hp_bases :: "nat \<Rightarrow> 'd module_base option"
  hp_next_base :: nat
  hp_cw :: "'d cache_world"

definition mod_at :: "'d heap \<Rightarrow> nat \<Rightarrow> 'd module res" where
  "mod_at h a = deref (hp_mods h a)"

definition base_at :: "'d heap \<Rightarrow> nat \<Rightarrow> 'd module_base res" where
  "base_at h b = deref (hp_bases h b)"

definition alloc_mod :: "'d module \<Rightarrow> ('d heap, nat) op" where
  "alloc_mod m h = (Inr (hp_next_mod h),
     h\<lparr>hp_mods := (hp_mods h)(hp_next_mod h \<mapsto> m), hp_next_mod := Suc (hp_next_mod h)\<rparr>)"

definition alloc_base :: "'d module_base \<Rightarrow> ('d heap, nat) op" where
  "alloc_base b h = (Inr (hp_next_base h),
     h\<lparr>hp_bases := (hp_bases h)(hp_next_base h \<mapsto> b), hp_next_base := Suc (hp_next_base h)\<rparr>)"

definition upd_mod :: "nat \<Rightarrow> ('d module \<Rightarrow> 'd module) \<Rightarrow> 'd heap \<Rightarrow> 'd heap" where
  "upd_mod a f h = h\<lparr>hp_mods := (hp_mods h)(a := map_option f (hp_mods h a))\<rparr>"

text \<open>An operation of the caches, on the memory the heap holds.\<close>

definition on_cw :: "('d cache_world, 'a) op \<Rightarrow> ('d heap, 'a) op" where
  "on_cw m h = (case m (hp_cw h) of (r, w) \<Rightarrow> (r, h\<lparr>hp_cw := w\<rparr>))"

definition hp_init :: "'d cache_world \<Rightarrow> 'd heap" where
  "hp_init w = \<lparr>hp_mods = (\<lambda>_. None), hp_next_mod = 0, hp_bases = (\<lambda>_. None), hp_next_base = 0, hp_cw = w\<rparr>"

end
