(* ===== verification/Submodule_Request.thy ===== *)
theory Submodule_Request
  imports Module_Base
begin

text \<open>
  \<open>SubmoduleRequestPIMPL\<close> (\<open>detail_/submodule_request_pimpl\<close>, \<open>srp_\<close>) and \<open>SubmoduleRequest\<close>
  (\<open>submodule_request\<close>, \<open>sr_\<close>): a named slot of a module that asks for a submodule of a property
  type and holds the module that fulfils it.  What the slot asks of the module it points to is a
  parameter here, supplied where \<open>Module\<close> is defined.  The public setters of a slot and the
  steps they make are an inductive relation at the end.
\<close>

section \<open>SubmoduleRequestPIMPL\<close>

definition sr_new :: submodule_request where
  "sr_new = \<lparr>sr_desc = None, sr_type = None, sr_inputs = [], sr_module = None\<rparr>"

text \<open>The pointer is copied, the module it points to is not.\<close>

definition sr_clone :: "submodule_request \<Rightarrow> submodule_request res" where
  "sr_clone r = bindR (im_copy (sr_inputs r)) (\<lambda>i. Inr (r\<lparr>sr_inputs := i\<rparr>))"

definition sr_has_type :: "submodule_request \<Rightarrow> bool" where
  "sr_has_type r \<longleftrightarrow> sr_type r \<noteq> None"

definition sr_has_module :: "submodule_request \<Rightarrow> bool" where
  "sr_has_module r \<longleftrightarrow> sr_module r \<noteq> None"

definition sr_has_description :: "submodule_request \<Rightarrow> bool" where
  "sr_has_description r \<longleftrightarrow> sr_desc r \<noteq> None"

definition srp_type :: "submodule_request \<Rightarrow> rtti res" where
  "srp_type r = opt_value (sr_type r)"

definition srp_value :: "submodule_request \<Rightarrow> nat res" where
  "srp_value r = (if \<not> sr_has_module r then Inl (runtime_error ''Submodule is not ready'') else deref (sr_module r))"

definition srp_data :: "submodule_request \<Rightarrow> nat option" where
  "srp_data r = sr_module r"

definition srp_description :: "submodule_request \<Rightarrow> string res" where
  "srp_description r = opt_value (sr_desc r)"

definition srp_has_name :: "'d heap \<Rightarrow> submodule_request \<Rightarrow> bool res" where
  "srp_has_name h r = (if \<not> sr_has_module r then Inr False
     else bindR (deref (sr_module r)) (\<lambda>a. bindR (mod_at h a) (\<lambda>m. Inr (mo_name m \<noteq> None))))"

definition srp_ready :: "(nat \<times> input_map \<Rightarrow> bool res) \<Rightarrow> submodule_request \<Rightarrow> bool res" where
  "srp_ready rdy r = (if sr_has_type r \<and> sr_has_module r
     then bindR (deref (sr_module r)) (\<lambda>a. rdy (a, sr_inputs r)) else Inr False)"

text \<open>\<open>types\<close>: the property types of the module at an address.\<close>

definition srp_set_type :: "(nat \<Rightarrow> rtti list res) \<Rightarrow> rtti \<Rightarrow> input_map \<Rightarrow> submodule_request \<Rightarrow> submodule_request res" where
  "srp_set_type types t inputs r =
     bindR (if sr_has_module r then bindR (srp_value r) (\<lambda>a. bindR (types a) (\<lambda>ts. Inr (t \<notin> set ts))) else Inr False)
       (\<lambda>bad. if bad then Inl (runtime_error ''Can't change type after setting module'')
              else Inr (r\<lparr>sr_type := Some t, sr_inputs := inputs\<rparr>))"

definition srp_satisfies_property_type :: "rtti \<Rightarrow> submodule_request \<Rightarrow> bool res" where
  "srp_satisfies_property_type t r =
     (if \<not> sr_has_type r then Inl (runtime_error ''Property Type Not Set'')
      else bindR (opt_value (sr_type r)) (\<lambda>t'. Inr (rtti_equal t t')))"

definition srp_set_module :: "(nat \<Rightarrow> rtti list res) \<Rightarrow> nat option \<Rightarrow> submodule_request \<Rightarrow> submodule_request res" where
  "srp_set_module types ptr r =
     (case ptr of
        None \<Rightarrow> Inl (runtime_error ''Pointer does not contain a module'')
      | Some a \<Rightarrow>
          bindR (types a) (\<lambda>ts.
          bindR (anyR (\<lambda>t. bindR (srp_type r) (\<lambda>t'. Inr (rtti_equal t' t))) ts) (\<lambda>suitable.
          if \<not> suitable
          then bindR (srp_type r) (\<lambda>t. Inl (runtime_error (''Module does not satisfy property type: '' @ rt_name t)))
          else Inr (r\<lparr>sr_module := ptr\<rparr>))))"

definition srp_set_description :: "string \<Rightarrow> submodule_request \<Rightarrow> submodule_request" where
  "srp_set_description desc r = r\<lparr>sr_desc := Some desc\<rparr>"

definition srp_lock :: "(nat \<times> input_map \<Rightarrow> 'd heap \<Rightarrow> bool res) \<Rightarrow> (nat \<Rightarrow> ('d heap, unit) op)
    \<Rightarrow> submodule_request \<Rightarrow> ('d heap, unit) op" where
  "srp_lock rdy lock r =
     bindS (\<lambda>h. (srp_ready (\<lambda>x. rdy x h) r, h)) (\<lambda>ok.
       if \<not> ok then throwS (runtime_error ''Can't lock a non-ready module'')
       else bindS (liftS (deref (sr_module r))) lock)"

definition srp_get_name :: "'d heap \<Rightarrow> submodule_request \<Rightarrow> string res" where
  "srp_get_name h r = (if \<not> sr_has_module r then Inl (runtime_error ''Submodule is not set'')
     else bindR (deref (sr_module r)) (\<lambda>a. bindR (mod_at h a) (\<lambda>m. opt_value (mo_name m))))"

definition srp_submod_uuids :: "(nat \<Rightarrow> (string \<times> uuid) list res) \<Rightarrow> submodule_request \<Rightarrow> (string \<times> uuid) list res" where
  "srp_submod_uuids uuids r = (if \<not> sr_has_module r then Inl (runtime_error ''Submodule is not set'')
     else bindR (deref (sr_module r)) uuids)"

definition srp_uuid :: "(nat \<Rightarrow> uuid res) \<Rightarrow> submodule_request \<Rightarrow> uuid res" where
  "srp_uuid uuid r = (if \<not> sr_has_module r then Inl (runtime_error ''Submodule is not set'')
     else bindR (deref (sr_module r)) uuid)"

text \<open>\<open>same\<close>: \<open>==\<close> of the modules at two addresses.\<close>

definition srp_equal :: "(nat \<times> nat \<Rightarrow> bool res) \<Rightarrow> submodule_request \<Rightarrow> submodule_request \<Rightarrow> bool res" where
  "srp_equal same lhs rhs =
     (if sr_has_type lhs \<noteq> sr_has_type rhs then Inr False
      else if sr_has_description lhs \<noteq> sr_has_description rhs then Inr False
      else if sr_has_module lhs \<noteq> sr_has_module rhs then Inr False
      else if sr_has_type lhs \<and> sr_type lhs \<noteq> sr_type rhs then Inr False
      else if sr_has_description lhs \<and> sr_desc lhs \<noteq> sr_desc rhs then Inr False
      else if sr_has_module lhs
        then bindR (srp_value lhs) (\<lambda>a. bindR (srp_value rhs) (\<lambda>b. same (a, b)))
      else Inr True)"

definition srp_not_equal :: "(nat \<times> nat \<Rightarrow> bool res) \<Rightarrow> submodule_request \<Rightarrow> submodule_request \<Rightarrow> bool res" where
  "srp_not_equal same lhs rhs = bindR (srp_equal same lhs rhs) (\<lambda>b. Inr (\<not> b))"

section \<open>SubmoduleRequest\<close>

definition sr_ready :: "(nat \<times> input_map \<Rightarrow> bool res) \<Rightarrow> submodule_request \<Rightarrow> bool res" where
  "sr_ready rdy r = noexceptR (srp_ready rdy r)"

text \<open>\<open>change\<close> of a pointer, and of another request, whose module is then shared.\<close>

definition sr_change :: "(nat \<Rightarrow> rtti list res) \<Rightarrow> nat option \<Rightarrow> submodule_request \<Rightarrow> submodule_request res" where
  "sr_change types new_mod r = srp_set_module types new_mod r"

definition sr_change_request :: "(nat \<Rightarrow> rtti list res) \<Rightarrow> submodule_request \<Rightarrow> submodule_request \<Rightarrow> submodule_request res" where
  "sr_change_request types new_mod r = srp_set_module types (srp_data new_mod) r"

text \<open>\<open>set_type<T>()\<close>\<close>

definition sr_set_type :: "(cval \<Rightarrow> cval res) \<Rightarrow> (nat \<Rightarrow> rtti list res) \<Rightarrow> property_type \<Rightarrow> submodule_request
    \<Rightarrow> submodule_request res" where
  "sr_set_type pycast types pt r =
     bindR (pt_inputs pycast pt) (\<lambda>inps.
       srp_set_type types (pt_rtti pt) (om_insert_all ci_fold (ft_values inps) []) r)"

definition sr_satisfies_property_type :: "property_type \<Rightarrow> submodule_request \<Rightarrow> bool res" where
  "sr_satisfies_property_type pt r = srp_satisfies_property_type (pt_rtti pt) r"

text \<open>\<open>run_as\<close>, with the \<open>run_as\<close> of the module as a parameter.\<close>

definition sr_run_as :: "(nat \<Rightarrow> property_type \<Rightarrow> pt_arg list \<Rightarrow> ('d heap, cval list) op)
    \<Rightarrow> property_type \<Rightarrow> pt_arg list \<Rightarrow> submodule_request \<Rightarrow> ('d heap, cval list) op" where
  "sr_run_as run pt args r =
     bindS (liftS (srp_type r)) (\<lambda>t.
       if \<not> rtti_equal t (pt_rtti pt) then throwS (invalid_argument ''Wrong property type'')
       else bindS (liftS (srp_value r)) (\<lambda>a. run a pt args))"

definition sr_equal :: "(nat \<times> nat \<Rightarrow> bool res) \<Rightarrow> submodule_request \<Rightarrow> submodule_request \<Rightarrow> bool res" where
  "sr_equal same lhs rhs = srp_equal same lhs rhs"

definition sr_not_equal :: "(nat \<times> nat \<Rightarrow> bool res) \<Rightarrow> submodule_request \<Rightarrow> submodule_request \<Rightarrow> bool res" where
  "sr_not_equal same lhs rhs = bindR (sr_equal same lhs rhs) (\<lambda>b. Inr (\<not> b))"

section \<open>The life of a request\<close>

inductive sr_step :: "(nat \<Rightarrow> rtti list res) \<Rightarrow> submodule_request \<Rightarrow> submodule_request \<Rightarrow> bool" for types where
  set_type: "srp_set_type types t i r = Inr r' \<Longrightarrow> sr_step types r r'"
| change: "sr_change types ptr r = Inr r' \<Longrightarrow> sr_step types r r'"
| change_request: "sr_change_request types q r = Inr r' \<Longrightarrow> sr_step types r r'"
| description: "sr_step types r (srp_set_description d r)"

inductive sr_reachable :: "(nat \<Rightarrow> rtti list res) \<Rightarrow> submodule_request \<Rightarrow> bool" for types where
  new: "sr_reachable types sr_new"
| step: "sr_reachable types r \<Longrightarrow> sr_step types r r' \<Longrightarrow> sr_reachable types r'"

inductive_cases sr_stepE: "sr_step types r r'"

section \<open>Lemmas\<close>

lemmas sr_has_defs = sr_has_type_def sr_has_module_def sr_has_description_def

lemma anyR_True_iff: "anyR f xs = Inr True \<longleftrightarrow>
    (\<exists>ys x zs. xs = ys @ x # zs \<and> f x = Inr True \<and> (\<forall>y \<in> set ys. f y = Inr False))"
proof (induction xs)
  case (Cons x xs)
  show ?case
  proof
    assume "anyR f (x # xs) = Inr True"
    then consider "f x = Inr True" | "f x = Inr False" "anyR f xs = Inr True"
      by (auto simp: bindR_Inr_iff split: if_splits)
    then show "\<exists>ys x' zs. x # xs = ys @ x' # zs \<and> f x' = Inr True \<and> (\<forall>y \<in> set ys. f y = Inr False)"
    proof cases
      case 1
      then show ?thesis by fastforce
    next
      case 2
      then obtain ys x' zs where "xs = ys @ x' # zs" "f x' = Inr True" "\<forall>y \<in> set ys. f y = Inr False"
        using Cons.IH by blast
      then have "x # xs = (x # ys) @ x' # zs \<and> f x' = Inr True \<and> (\<forall>y \<in> set (x # ys). f y = Inr False)"
        using 2(1) by simp
      then show ?thesis by blast
    qed
  next
    assume "\<exists>ys x' zs. x # xs = ys @ x' # zs \<and> f x' = Inr True \<and> (\<forall>y \<in> set ys. f y = Inr False)"
    then obtain ys x' zs where "x # xs = ys @ x' # zs" "f x' = Inr True" "\<forall>y \<in> set ys. f y = Inr False"
      by blast
    then show "anyR f (x # xs) = Inr True"
      using Cons.IH by (cases ys) auto
  qed
qed simp

lemma anyR_ok: "(\<And>x. x \<in> set xs \<Longrightarrow> f x = Inr (g x)) \<Longrightarrow> anyR f xs = Inr (list_ex g xs)"
  by (induction xs) auto

definition fulfils :: "(nat \<Rightarrow> rtti list res) \<Rightarrow> submodule_request \<Rightarrow> bool" where
  "fulfils types r \<longleftrightarrow> (\<forall>a. sr_module r = Some a \<longrightarrow>
     (\<exists>t ts. sr_type r = Some t \<and> types a = Inr ts \<and> (\<exists>t' \<in> set ts. rtti_equal t t')))"

lemma set_module_Inr_iff:
  "srp_set_module types ptr r = Inr r' \<longleftrightarrow>
    (\<exists>a ts t. ptr = Some a \<and> types a = Inr ts \<and> ts \<noteq> [] \<and> sr_type r = Some t \<and>
       (\<exists>t' \<in> set ts. rtti_equal t t') \<and> r' = r\<lparr>sr_module := ptr\<rparr>)"
proof (cases ptr)
  case (Some a)
  show ?thesis
  proof (cases "sr_type r")
    case None
    then have "anyR (\<lambda>t. bindR (srp_type r) (\<lambda>t'. Inr (rtti_equal t' t))) ts =
        (if ts = [] then Inr False else Inl Bad_optional_access)" for ts
      by (cases ts) (simp_all add: srp_type_def)
    then show ?thesis using None Some
      by (auto simp: srp_set_module_def bindR_Inr_iff srp_type_def split: if_splits)
  next
    case (Some t)
    then have "anyR (\<lambda>t. bindR (srp_type r) (\<lambda>t'. Inr (rtti_equal t' t))) ts = Inr (list_ex (rtti_equal t) ts)" for ts
      by (intro anyR_ok) (simp add: srp_type_def)
    then show ?thesis using Some \<open>ptr = Some a\<close>
      by (auto simp: srp_set_module_def bindR_Inr_iff list_ex_iff srp_type_def split: if_splits)
  qed
qed (simp add: srp_set_module_def)

lemma set_type_Inr_iff:
  "srp_set_type types t i r = Inr r' \<longleftrightarrow>
    (\<forall>a. sr_module r = Some a \<longrightarrow> (\<exists>ts. types a = Inr ts \<and> t \<in> set ts)) \<and>
    r' = r\<lparr>sr_type := Some t, sr_inputs := i\<rparr>"
  by (cases "sr_module r")
    (auto simp: srp_set_type_def sr_has_defs srp_value_def bindR_Inr_iff split: if_splits)

lemma sr_step_fulfils: "sr_step types r r' \<Longrightarrow> fulfils types r \<Longrightarrow> fulfils types r'"
proof (erule sr_stepE, goal_cases)
  case (1 t i)
  then show ?case by (auto simp: fulfils_def set_type_Inr_iff intro!: bexI [of _ t])
next
  case (2 ptr)
  then show ?case by (auto simp: fulfils_def sr_change_def set_module_Inr_iff)
next
  case (3 q)
  then show ?case by (auto simp: fulfils_def sr_change_request_def set_module_Inr_iff)
qed (simp add: fulfils_def srp_set_description_def)

section \<open>Properties\<close>


definition example_types :: "nat \<Rightarrow> rtti list res" where
  "example_types a = Inr [mk_rtti ''Energy'']"


end
