(* ===== verification/Module_Class.thy ===== *)
theory Module_Class
  imports Submodule_Request
begin

text \<open>
  \<open>ModuleBase\<close> (\<open>module/module_base.hpp\<close>, \<open>mb_\<close>), \<open>ModulePIMPL\<close> (\<open>module/detail_/module_pimpl\<close>,
  \<open>mp_\<close>) and \<open>Module\<close> (\<open>module/module_class.hpp\<close>, \<open>module.cpp\<close>, \<open>mod_\<close>, on an address): what a
  module is, when it is ready, how it is locked and changed and how two modules compare.
  Running a module is in the theory after this one.

  An operation of the PIMPL that asks something of its submodules takes the answers as a
  parameter; \<open>mod_ready\<close>, \<open>mod_is_memoizable\<close>, \<open>mod_submod_uuids\<close>, \<open>mod_equal\<close> and \<open>mod_lock\<close> tie the knot,
  with fuel.  Timers are left out; \<open>Profiling\<close> has the text that shows them.
\<close>

section \<open>ModuleBase\<close>

definition mb_new :: "rtti \<Rightarrow> (input_map \<Rightarrow> submodule_map \<Rightarrow> alg) \<Rightarrow> 'd module_base" where
  "mb_new t run = \<lparr>mb_uuid = [], mb_inputs = [], mb_results = [], mb_submods = [], mb_property_types = [],
     mb_python_property_types = [], mb_type = t, mb_desc = None, mb_citations = [], mb_cache = None,
     mb_runtime = None, mb_is_python = False, mb_run = run\<rparr>"

definition mb_new_python :: "(input_map \<Rightarrow> submodule_map \<Rightarrow> alg) \<Rightarrow> 'd module_base" where
  "mb_new_python run = (mb_new (mk_rtti ty_py) run)\<lparr>mb_is_python := True\<rparr>"

definition mb_has_description :: "'d module_base \<Rightarrow> bool" where
  "mb_has_description b \<longleftrightarrow> mb_desc b \<noteq> None"

definition mb_has_uuid :: "'d module_base \<Rightarrow> bool" where
  "mb_has_uuid b \<longleftrightarrow> mb_uuid b \<noteq> []"

definition mb_get_desc :: "'d module_base \<Rightarrow> string res" where
  "mb_get_desc b = opt_value (mb_desc b)"

definition mb_set_uuid :: "uuid \<Rightarrow> 'd module_base \<Rightarrow> 'd module_base" where
  "mb_set_uuid uuid b = b\<lparr>mb_uuid := uuid\<rparr>"

definition mb_set_cache :: "'d user_cache option \<Rightarrow> 'd module_base \<Rightarrow> 'd module_base" where
  "mb_set_cache cache b = b\<lparr>mb_cache := cache\<rparr>"

definition mb_set_runtime :: "nat option \<Rightarrow> 'd module_base \<Rightarrow> 'd module_base" where
  "mb_set_runtime runtime b = b\<lparr>mb_runtime := runtime\<rparr>"

definition mb_get_cache :: "'d module_base \<Rightarrow> 'd user_cache res" where
  "mb_get_cache b = (case mb_cache b of
      None \<Rightarrow> Inl (runtime_error ''Module does not have an interal cache'') | Some c \<Rightarrow> Inr c)"

definition mb_get_runtime :: "'d module_base \<Rightarrow> nat res" where
  "mb_get_runtime b = (case mb_runtime b of
      None \<Rightarrow> Inl (runtime_error ''Module does not a Runtime instance'') | Some r \<Rightarrow> Inr r)"

definition mb_reset_internal_cache :: "'d module_base \<Rightarrow> ('d heap, unit) op" where
  "mb_reset_internal_cache b = (case mb_cache b of None \<Rightarrow> retS () | Some c \<Rightarrow> on_cw (uc_reset_cache c))"

definition mb_description :: "string \<Rightarrow> 'd module_base \<Rightarrow> 'd module_base" where
  "mb_description value b = b\<lparr>mb_desc := Some value\<rparr>"

definition mb_citation :: "string \<Rightarrow> 'd module_base \<Rightarrow> 'd module_base" where
  "mb_citation value b = b\<lparr>mb_citations := mb_citations b @ [value]\<rparr>"

text \<open>A field that is there already keeps what it holds.\<close>

definition mb_satisfies' :: "rtti \<Rightarrow> input_map \<Rightarrow> result_map \<Rightarrow> 'd module_base \<Rightarrow> 'd module_base" where
  "mb_satisfies' t inputs results b =
     b\<lparr>mb_property_types := rtti_insert t (mb_property_types b),
       mb_inputs := om_insert_all ci_fold inputs (mb_inputs b),
       mb_results := om_insert_all ci_fold results (mb_results b)\<rparr>"

definition mb_satisfies_property_type :: "(cval \<Rightarrow> cval res) \<Rightarrow> property_type \<Rightarrow> 'd module_base \<Rightarrow> 'd module_base res" where
  "mb_satisfies_property_type pycast pt b =
     bindR (pt_inputs pycast pt) (\<lambda>i. bindR (pt_results pt) (\<lambda>r.
       Inr (mb_satisfies' (pt_rtti pt) (ft_values i) (ft_values r) b)))"

definition ty_py_only :: rtti where
  "ty_py_only = mk_rtti ''pluginplay::python::PythonOnlyPropertyType''"

definition mb_satisfies_py :: "py_property_type \<Rightarrow> 'd module_base \<Rightarrow> 'd module_base" where
  "mb_satisfies_py pt b =
     (mb_satisfies' ty_py_only (ppt_inputs pt) (ppt_results pt) b)
       \<lparr>mb_python_property_types := insort_insert (ppt_name pt) (mb_python_property_types b)\<rparr>"

definition mb_add_input :: "rtti \<Rightarrow> bool \<Rightarrow> string \<Rightarrow> 'd module_base \<Rightarrow> 'd module_base res" where
  "mb_add_input t cref key b =
     (let i0 = (case ci_find key (mb_inputs b) of None \<Rightarrow> mi_new | Some i \<Rightarrow> i) in
      case mi_set_type t cref i0 of
        (Inl e, i) \<Rightarrow> Inl e
      | (Inr _, i) \<Rightarrow> Inr (b\<lparr>mb_inputs := ci_set key i (mb_inputs b)\<rparr>))"

definition mb_add_result :: "rtti \<Rightarrow> string \<Rightarrow> 'd module_base \<Rightarrow> 'd module_base res" where
  "mb_add_result t key b =
     (let r0 = (case ci_find key (mb_results b) of None \<Rightarrow> mr_new | Some r \<Rightarrow> r) in
      case mr_set_type t r0 of
        (Inl e, r) \<Rightarrow> Inl e
      | (Inr _, r) \<Rightarrow> Inr (b\<lparr>mb_results := ci_set key r (mb_results b)\<rparr>))"

definition mb_add_submodule :: "(cval \<Rightarrow> cval res) \<Rightarrow> (nat \<Rightarrow> rtti list res) \<Rightarrow> property_type \<Rightarrow> string
    \<Rightarrow> 'd module_base \<Rightarrow> 'd module_base res" where
  "mb_add_submodule pycast types pt key b =
     (let r0 = (case ci_find key (mb_submods b) of None \<Rightarrow> sr_new | Some r \<Rightarrow> r) in
      bindR (sr_set_type pycast types pt r0) (\<lambda>r. Inr (b\<lparr>mb_submods := ci_set key r (mb_submods b)\<rparr>)))"

text \<open>The references \<open>change_input\<close>, \<open>change_result\<close> and \<open>change_submod\<close> return are used with \<open>f\<close>.\<close>

definition mb_change_input :: "string \<Rightarrow> (module_input \<Rightarrow> module_input res) \<Rightarrow> 'd module_base \<Rightarrow> 'd module_base res" where
  "mb_change_input key f b =
     bindR (ci_at key (mb_inputs b)) (\<lambda>i. bindR (f i) (\<lambda>i'. Inr (b\<lparr>mb_inputs := ci_set key i' (mb_inputs b)\<rparr>)))"

definition mb_change_result :: "string \<Rightarrow> (module_result \<Rightarrow> module_result res) \<Rightarrow> 'd module_base \<Rightarrow> 'd module_base res" where
  "mb_change_result key f b =
     bindR (ci_at key (mb_results b)) (\<lambda>r. bindR (f r) (\<lambda>r'. Inr (b\<lparr>mb_results := ci_set key r' (mb_results b)\<rparr>)))"

definition mb_change_submod :: "string \<Rightarrow> (submodule_request \<Rightarrow> submodule_request res) \<Rightarrow> 'd module_base \<Rightarrow> 'd module_base res" where
  "mb_change_submod key f b =
     bindR (ci_at key (mb_submods b)) (\<lambda>r. bindR (f r) (\<lambda>r'. Inr (b\<lparr>mb_submods := ci_set key r' (mb_submods b)\<rparr>)))"

text \<open>\<open>==\<close> on tuples: the elements from the left, up to the first that differs.\<close>

definition andR :: "bool res \<Rightarrow> bool res \<Rightarrow> bool res" where
  "andR a b = bindR a (\<lambda>x. if x then b else Inr False)"

definition mb_equal :: "(nat \<times> nat \<Rightarrow> bool res) \<Rightarrow> 'd module_base \<Rightarrow> 'd module_base \<Rightarrow> bool res" where
  "mb_equal same lhs rhs = noexceptR
     (if mb_type lhs \<noteq> mb_type rhs then Inr False
      else if mb_has_description lhs \<noteq> mb_has_description rhs then Inr False
      else if mb_has_description lhs \<and> mb_desc lhs \<noteq> mb_desc rhs then Inr False
      else if mb_citations lhs \<noteq> mb_citations rhs then Inr False
      else if mb_is_python lhs \<noteq> mb_is_python rhs then Inr False
      else andR (om_equal mi_equal (mb_inputs lhs) (mb_inputs rhs))
          (andR (om_equal mr_equal (mb_results lhs) (mb_results rhs))
          (andR (om_equal (sr_equal same) (mb_submods lhs) (mb_submods rhs))
          (andR (Inr (mb_property_types lhs = mb_property_types rhs))
                (Inr (mb_python_property_types lhs = mb_python_property_types rhs))))))"

definition mb_not_equal :: "(nat \<times> nat \<Rightarrow> bool res) \<Rightarrow> 'd module_base \<Rightarrow> 'd module_base \<Rightarrow> bool res" where
  "mb_not_equal same lhs rhs = noexceptR (bindR (mb_equal same lhs rhs) (\<lambda>b. Inr (\<not> b)))"

section \<open>ModulePIMPL\<close>

definition mp_new :: "'d module_pimpl" where
  "mp_new = \<lparr>mp_locked = False, mp_memoizable = True, mp_base = None, mp_cache = None, mp_inputs = [],
     mp_submods = [], mp_property_types = [], mp_python_property_types = []\<rparr>"

definition mp_make :: "'d heap \<Rightarrow> nat option \<Rightarrow> 'd module_cache option \<Rightarrow> 'd module_pimpl res" where
  "mp_make h base cache =
     (case base of
        None \<Rightarrow> Inr (mp_new\<lparr>mp_cache := cache\<rparr>)
      | Some b' \<Rightarrow>
          bindR (base_at h b') (\<lambda>b.
          bindR (im_copy (mb_inputs b)) (\<lambda>i.
          bindR (om_copy sr_clone (mb_submods b)) (\<lambda>s.
          Inr (mp_new\<lparr>mp_base := base, mp_cache := cache, mp_inputs := i, mp_submods := s,
                 mp_property_types := mb_property_types b,
                 mp_python_property_types := mb_python_property_types b\<rparr>)))))"

definition mp_copy :: "'d module_pimpl \<Rightarrow> 'd module_pimpl res" where
  "mp_copy p = bindR (im_copy (mp_inputs p)) (\<lambda>i. bindR (om_copy sr_clone (mp_submods p)) (\<lambda>s.
     Inr (p\<lparr>mp_inputs := i, mp_submods := s\<rparr>)))"

definition mp_has_module :: "'d module_pimpl \<Rightarrow> bool" where
  "mp_has_module p \<longleftrightarrow> mp_base p \<noteq> None"

definition mp_assert_mod' :: "'d module_pimpl \<Rightarrow> unit res" where
  "mp_assert_mod' p = (if mp_has_module p then Inr ()
     else Inl (runtime_error ''Module does not contain an implementation''))"

text \<open>\<open>*m_base_\<close>, after \<open>assert_mod_\<close>\<close>

definition mp_base_of :: "'d heap \<Rightarrow> 'd module_pimpl \<Rightarrow> 'd module_base res" where
  "mp_base_of h p = bindR (mp_assert_mod' p) (\<lambda>_. bindR (deref (mp_base p)) (base_at h))"

definition mp_has_description :: "'d heap \<Rightarrow> 'd module_pimpl \<Rightarrow> bool res" where
  "mp_has_description h p = bindR (mp_base_of h p) (\<lambda>b. Inr (mb_has_description b))"

fun not_set_guts' :: "('v \<Rightarrow> bool res) \<Rightarrow> (string, 'v) omap \<Rightarrow> string list res" where
  "not_set_guts' rdy [] = Inr []"
| "not_set_guts' rdy ((k, v) # m) =
     bindR (rdy v) (\<lambda>b. bindR (not_set_guts' rdy m) (\<lambda>probs. Inr (if b then probs else insort_insert k probs)))"

text \<open>The names of the inputs that are given are erased from a \<open>std::set<std::string>\<close>.\<close>

definition mp_not_set :: "(nat \<times> input_map \<Rightarrow> bool res) \<Rightarrow> 'd module_pimpl \<Rightarrow> input_map
    \<Rightarrow> (string, string list) omap res" where
  "mp_not_set rdy p in_inputs =
     bindR (mp_assert_mod' p) (\<lambda>_.
     bindR (not_set_guts' (\<lambda>i. Inr (mi_ready i)) (mp_inputs p)) (\<lambda>probs.
     let in_probs = fold (\<lambda>(k, v). filter (\<lambda>x. x \<noteq> k)) in_inputs probs in
     bindR (not_set_guts' (sr_ready rdy) (mp_submods p)) (\<lambda>submod_probs.
     Inr ((if in_probs \<noteq> [] then [(''Inputs'', in_probs)] else []) @
          (if submod_probs \<noteq> [] then [(''Submodules'', submod_probs)] else [])))))"

definition mp_ready :: "(nat \<times> input_map \<Rightarrow> bool res) \<Rightarrow> 'd module_pimpl \<Rightarrow> input_map \<Rightarrow> bool res" where
  "mp_ready rdy p inps = bindR (mp_not_set rdy p inps) (\<lambda>errors. Inr (errors = []))"

definition mp_results :: "'d heap \<Rightarrow> 'd module_pimpl \<Rightarrow> result_map res" where
  "mp_results h p = bindR (mp_base_of h p) (\<lambda>b. Inr (mb_results b))"

definition mp_inputs' :: "'d module_pimpl \<Rightarrow> input_map res" where
  "mp_inputs' p = bindR (mp_assert_mod' p) (\<lambda>_. Inr (mp_inputs p))"

definition mp_submods' :: "'d module_pimpl \<Rightarrow> submodule_map res" where
  "mp_submods' p = bindR (mp_assert_mod' p) (\<lambda>_. Inr (mp_submods p))"

definition mp_property_types' :: "'d module_pimpl \<Rightarrow> rtti list res" where
  "mp_property_types' p = bindR (mp_assert_mod' p) (\<lambda>_. Inr (mp_property_types p))"

definition mp_python_property_types' :: "'d module_pimpl \<Rightarrow> string list res" where
  "mp_python_property_types' p = bindR (mp_assert_mod' p) (\<lambda>_. Inr (mp_python_property_types p))"

definition mp_description :: "'d heap \<Rightarrow> 'd module_pimpl \<Rightarrow> string res" where
  "mp_description h p = bindR (mp_base_of h p) mb_get_desc"

definition mp_citations :: "'d heap \<Rightarrow> 'd module_pimpl \<Rightarrow> string list res" where
  "mp_citations h p = bindR (mp_base_of h p) (\<lambda>b. Inr (mb_citations b))"

definition mp_type :: "'d heap \<Rightarrow> 'd module_pimpl \<Rightarrow> rtti res" where
  "mp_type h p = bindR (mp_base_of h p) (\<lambda>b. Inr (mb_type b))"

definition mp_uuid :: "'d heap \<Rightarrow> 'd module_pimpl \<Rightarrow> uuid res" where
  "mp_uuid h p = bindR (mp_base_of h p) (\<lambda>b. Inr (mb_uuid b))"

fun memo_loop :: "(nat \<Rightarrow> bool res) \<Rightarrow> submodule_map \<Rightarrow> bool \<Rightarrow> bool res" where
  "memo_loop memo [] memoizable = Inr memoizable"
| "memo_loop memo ((k, v) # rest) memoizable =
     bindR (srp_value v) (\<lambda>a. bindR (memo a) (\<lambda>b. memo_loop memo rest (b \<and> memoizable)))"

definition mp_is_memoizable :: "(nat \<Rightarrow> bool res) \<Rightarrow> 'd heap \<Rightarrow> 'd module_pimpl \<Rightarrow> bool res" where
  "mp_is_memoizable memo h p =
     bindR (mp_base_of h p) (\<lambda>b. if \<not> mb_has_uuid b then Inr False
       else memo_loop memo (mp_submods p) (mp_memoizable p))"

definition mp_reset_cache :: "'d module_pimpl \<Rightarrow> ('d heap, unit) op" where
  "mp_reset_cache p = (case mp_cache p of None \<Rightarrow> retS () | Some c \<Rightarrow> on_cw (mc_clear c))"

definition mp_reset_internal_cache :: "'d module_pimpl \<Rightarrow> ('d heap, unit) op" where
  "mp_reset_internal_cache p = bindS (\<lambda>h. (mp_base_of h p, h)) mb_reset_internal_cache"

definition mp_turn_off_memoization :: "'d module_pimpl \<Rightarrow> 'd module_pimpl res" where
  "mp_turn_off_memoization p = bindR (mp_assert_mod' p) (\<lambda>_. Inr (p\<lparr>mp_memoizable := False\<rparr>))"

definition mp_turn_on_memoization :: "'d module_pimpl \<Rightarrow> 'd module_pimpl res" where
  "mp_turn_on_memoization p = bindR (mp_assert_mod' p) (\<lambda>_. Inr (p\<lparr>mp_memoizable := True\<rparr>))"

text \<open>The names of all submodules, scoped by the slots they are reached through, with their UUIDs.\<close>

fun uuid_loop :: "(nat \<Rightarrow> (string \<times> uuid) list res) \<Rightarrow> (nat \<Rightarrow> uuid res) \<Rightarrow> submodule_map
    \<Rightarrow> (string \<times> uuid) list \<Rightarrow> (string \<times> uuid) list res" where
  "uuid_loop uuids uuid [] rv = Inr rv"
| "uuid_loop uuids uuid ((k, v) # rest) rv =
     bindR (srp_submod_uuids uuids v) (\<lambda>sub.
     bindR (srp_uuid uuid v) (\<lambda>u.
     uuid_loop uuids uuid rest
       (std_emplace k u (fold (\<lambda>(sub_k, sub_v). std_emplace (k @ '':'' @ sub_k) sub_v) sub rv))))"

definition mp_submod_uuids :: "(nat \<Rightarrow> (string \<times> uuid) list res) \<Rightarrow> (nat \<Rightarrow> uuid res) \<Rightarrow> 'd module_pimpl
    \<Rightarrow> (string \<times> uuid) list res" where
  "mp_submod_uuids uuids uuid p = bindR (mp_submods' p) (\<lambda>s. uuid_loop uuids uuid s [])"

definition submod_key :: string where
  "submod_key = ''__PLUGIN_PLAY__ SUBMOD KEYS __PLUGIN_PLAY__''"

text \<open>\<open>ModuleInput temp\<close> of the type of the map, holding it.\<close>

definition uuids_input :: "(string \<times> uuid) list \<Rightarrow> module_input res" where
  "uuids_input uuids =
     (case mi_set_type (mk_rtti ty_uuids) False mi_new of
        (Inl e, i) \<Rightarrow> Inl e
      | (Inr _, i) \<Rightarrow> mi_change (Arg_rvalue (CUuids uuids)) i)"

definition mp_merge_inputs' :: "(nat \<Rightarrow> (string \<times> uuid) list res) \<Rightarrow> (nat \<Rightarrow> uuid res) \<Rightarrow> 'd module_pimpl
    \<Rightarrow> input_map \<Rightarrow> input_map res" where
  "mp_merge_inputs' uuids uuid p in_inputs =
     bindR (foldR (\<lambda>(k, v) rv. if ci_count k rv then Inr rv
                               else bindR (mi_copy v) (\<lambda>v'. Inr (ci_set k v' rv))) (mp_inputs p) in_inputs) (\<lambda>merged.
     bindR (mp_submod_uuids uuids uuid p) (\<lambda>u.
     bindR (uuids_input u) (\<lambda>temp. bindR (mi_copy temp) (\<lambda>temp'.
     Inr (ci_emplace submod_key temp' merged)))))"

definition mp_equal :: "(nat \<times> nat \<Rightarrow> bool res) \<Rightarrow> 'd heap \<Rightarrow> 'd module_pimpl \<Rightarrow> 'd module_pimpl \<Rightarrow> bool res" where
  "mp_equal same h lhs rhs =
     (if mp_has_module lhs \<noteq> mp_has_module rhs then Inr False
      else if mp_locked lhs \<noteq> mp_locked rhs then Inr False
      else if \<not> mp_has_module lhs then Inr True
      else bindR
        (andR (om_equal mi_equal (mp_inputs lhs) (mp_inputs rhs))
        (andR (om_equal (sr_equal same) (mp_submods lhs) (mp_submods rhs))
        (andR (Inr (mp_property_types lhs = mp_property_types rhs))
              (Inr (mp_python_property_types lhs = mp_python_property_types rhs))))) (\<lambda>eq.
        if \<not> eq then Inr False
        else bindR (mp_base_of h lhs) (\<lambda>l. bindR (mp_base_of h rhs) (\<lambda>r. mb_equal same l r))))"

definition mp_not_equal :: "(nat \<times> nat \<Rightarrow> bool res) \<Rightarrow> 'd heap \<Rightarrow> 'd module_pimpl \<Rightarrow> 'd module_pimpl \<Rightarrow> bool res" where
  "mp_not_equal same h lhs rhs = bindR (mp_equal same h lhs rhs) (\<lambda>b. Inr (\<not> b))"

section \<open>Module\<close>

definition mod_types :: "'d heap \<Rightarrow> nat \<Rightarrow> rtti list res" where
  "mod_types h a = bindR (mod_at h a) (\<lambda>m. mp_property_types' (mo_pimpl m))"

definition mod_ready_step :: "'d heap \<Rightarrow> (nat \<times> input_map \<Rightarrow> bool res) \<Rightarrow> nat \<times> input_map \<Rightarrow> bool res" where
  "mod_ready_step h rdy x = bindR (mod_at h (fst x)) (\<lambda>m. mp_ready rdy (mo_pimpl m) (snd x))"

definition mod_ready :: "nat \<Rightarrow> 'd heap \<Rightarrow> nat \<times> input_map \<Rightarrow> bool res" where
  "mod_ready n h = calls (mod_ready_step h) n"

definition mod_list_not_ready :: "nat \<Rightarrow> 'd heap \<Rightarrow> nat \<Rightarrow> input_map \<Rightarrow> (string, string list) omap res" where
  "mod_list_not_ready n h a inputs = bindR (mod_at h a) (\<lambda>m. mp_not_set (mod_ready n h) (mo_pimpl m) inputs)"

text \<open>\<open>ready<PropertyType>()\<close>\<close>

definition mod_ready_as :: "(cval \<Rightarrow> cval res) \<Rightarrow> nat \<Rightarrow> 'd heap \<Rightarrow> property_type \<Rightarrow> nat \<Rightarrow> bool res" where
  "mod_ready_as pycast n h pt a =
     bindR (pt_inputs pycast pt) (\<lambda>temp. mod_ready n h (a, om_insert_all ci_fold (ft_values temp) []))"

definition memo_step :: "'d heap \<Rightarrow> (nat \<Rightarrow> bool res) \<Rightarrow> nat \<Rightarrow> bool res" where
  "memo_step h memo a = bindR (mod_at h a) (\<lambda>m. mp_is_memoizable memo h (mo_pimpl m))"

definition mod_is_memoizable :: "nat \<Rightarrow> 'd heap \<Rightarrow> nat \<Rightarrow> bool res" where
  "mod_is_memoizable n h = calls (memo_step h) n"

definition mod_uuid :: "'d heap \<Rightarrow> nat \<Rightarrow> uuid res" where
  "mod_uuid h a = bindR (mod_at h a) (\<lambda>m. mp_uuid h (mo_pimpl m))"

definition uuids_step :: "'d heap \<Rightarrow> (nat \<Rightarrow> (string \<times> uuid) list res) \<Rightarrow> nat \<Rightarrow> (string \<times> uuid) list res" where
  "uuids_step h uuids a = bindR (mod_at h a) (\<lambda>m. mp_submod_uuids uuids (mod_uuid h) (mo_pimpl m))"

definition mod_submod_uuids :: "nat \<Rightarrow> 'd heap \<Rightarrow> nat \<Rightarrow> (string \<times> uuid) list res" where
  "mod_submod_uuids n h = calls (uuids_step h) n"

definition mod_merge_inputs :: "nat \<Rightarrow> 'd heap \<Rightarrow> nat \<Rightarrow> input_map \<Rightarrow> input_map res" where
  "mod_merge_inputs n h a in_inputs =
     bindR (mod_at h a) (\<lambda>m. bindR (im_copy in_inputs)
       (mp_merge_inputs' (mod_submod_uuids n h) (mod_uuid h) (mo_pimpl m)))"

definition mod_equal_step :: "'d heap \<Rightarrow> (nat \<times> nat \<Rightarrow> bool res) \<Rightarrow> nat \<times> nat \<Rightarrow> bool res" where
  "mod_equal_step h same x =
     bindR (mod_at h (fst x)) (\<lambda>l. bindR (mod_at h (snd x)) (\<lambda>r.
       andR (mp_equal same h (mo_pimpl l) (mo_pimpl r)) (Inr (mo_name l = mo_name r))))"

definition mod_equal :: "nat \<Rightarrow> 'd heap \<Rightarrow> nat \<times> nat \<Rightarrow> bool res" where
  "mod_equal n h = calls (mod_equal_step h) n"

definition mod_not_equal :: "nat \<Rightarrow> 'd heap \<Rightarrow> nat \<times> nat \<Rightarrow> bool res" where
  "mod_not_equal n h x = bindR (mod_equal n h x) (\<lambda>b. Inr (\<not> b))"

text \<open>Constructors and copies make a new object.\<close>

definition mod_new :: "('d heap, nat) op" where
  "mod_new = alloc_mod \<lparr>mo_pimpl = mp_new, mo_name = None\<rparr>"

definition mod_from_base :: "'d module_base \<Rightarrow> ('d heap, nat) op" where
  "mod_from_base b = bindS (alloc_base b) (\<lambda>p. bindS (\<lambda>h. (mp_make h (Some p) None, h)) (\<lambda>pimpl.
     alloc_mod \<lparr>mo_pimpl = pimpl, mo_name = None\<rparr>))"

definition mo_copy :: "'d module \<Rightarrow> 'd module res" where
  "mo_copy rhs = bindR (mp_copy (mo_pimpl rhs)) (\<lambda>p. Inr \<lparr>mo_pimpl = p, mo_name = mo_name rhs\<rparr>)"

definition mo_assign :: "'d module \<Rightarrow> 'd module \<Rightarrow> 'd module res" where
  "mo_assign rhs m = bindR (mp_copy (mo_pimpl rhs)) (\<lambda>p.
     Inr (m\<lparr>mo_pimpl := p, mo_name := (if mo_name rhs \<noteq> None then mo_name rhs else mo_name m)\<rparr>))"

definition unlock' :: "'d module \<Rightarrow> 'd module" where
  "unlock' m = m\<lparr>mo_pimpl := (mo_pimpl m)\<lparr>mp_locked := False\<rparr>\<rparr>"

definition lock' :: "'d module \<Rightarrow> 'd module" where
  "lock' m = m\<lparr>mo_pimpl := (mo_pimpl m)\<lparr>mp_locked := True\<rparr>\<rparr>"

definition unlocked_copy :: "'d module \<Rightarrow> 'd module res" where
  "unlocked_copy m = bindR (mo_copy m) (\<lambda>rv. Inr (unlock' rv))"

definition mod_locked :: "'d heap \<Rightarrow> nat \<Rightarrow> bool res" where
  "mod_locked h a = bindR (mod_at h a) (\<lambda>m. Inr (mp_locked (mo_pimpl m)))"

definition set_name :: "string \<Rightarrow> 'd module \<Rightarrow> 'd module" where
  "set_name name m = m\<lparr>mo_name := Some name\<rparr>"

definition get_name :: "'d module \<Rightarrow> string res" where
  "get_name m = opt_value (mo_name m)"

text \<open>An update of one module that may throw, and then changes nothing.\<close>

definition on_mod :: "nat \<Rightarrow> ('d module \<Rightarrow> 'd module res) \<Rightarrow> ('d heap, unit) op" where
  "on_mod a f h = (case bindR (mod_at h a) f of Inl e \<Rightarrow> (Inl e, h) | Inr m \<Rightarrow> (Inr (), upd_mod a (\<lambda>_. m) h))"

definition on_pimpl :: "nat \<Rightarrow> ('d module_pimpl \<Rightarrow> 'd module_pimpl res) \<Rightarrow> ('d heap, unit) op" where
  "on_pimpl a f = on_mod a (\<lambda>m. bindR (f (mo_pimpl m)) (\<lambda>p. Inr (m\<lparr>mo_pimpl := p\<rparr>)))"

definition mod_turn_on_memoization :: "nat \<Rightarrow> ('d heap, unit) op" where
  "mod_turn_on_memoization a = on_pimpl a mp_turn_on_memoization"

definition mod_turn_off_memoization :: "nat \<Rightarrow> ('d heap, unit) op" where
  "mod_turn_off_memoization a = on_pimpl a mp_turn_off_memoization"

definition mod_reset_cache :: "nat \<Rightarrow> ('d heap, unit) op" where
  "mod_reset_cache a = bindS (\<lambda>h. (mod_at h a, h)) (\<lambda>m. mp_reset_cache (mo_pimpl m))"

definition mod_reset_internal_cache :: "nat \<Rightarrow> ('d heap, unit) op" where
  "mod_reset_internal_cache a = bindS (\<lambda>h. (mod_at h a, h)) (\<lambda>m. mp_reset_internal_cache (mo_pimpl m))"

definition assert_not_locked' :: "'d module \<Rightarrow> unit res" where
  "assert_not_locked' m = (if mp_locked (mo_pimpl m)
     then Inl (runtime_error ''Locked modules can not be modified'') else Inr ())"

text \<open>The exception for a name that the module does not have; \<open>kind\<close> is \<open>input\<close> or \<open>submodule\<close>.\<close>

definition no_field :: "'d module \<Rightarrow> string \<Rightarrow> string \<Rightarrow> exn" where
  "no_field m kind key =
     (let msg = '' does not have '' @ kind @ '' \"'' @ key @ ''\"'' in
      out_of_range (case mo_name m of Some name \<Rightarrow> ''Module \"'' @ name @ ''\"'' @ msg | None \<Rightarrow> ''Unnamed module'' @ msg))"

definition mo_change_input :: "string \<Rightarrow> cxx_arg \<Rightarrow> 'd module \<Rightarrow> 'd module res" where
  "mo_change_input key x m =
     bindR (assert_not_locked' m) (\<lambda>_.
     bindR (mp_inputs' (mo_pimpl m)) (\<lambda>inputs.
     if \<not> ci_count key inputs then Inl (no_field m ''input'' key)
     else bindR (im_change key x inputs) (\<lambda>inputs'. Inr (m\<lparr>mo_pimpl := (mo_pimpl m)\<lparr>mp_inputs := inputs'\<rparr>\<rparr>))))"

definition mod_change_input :: "nat \<Rightarrow> string \<Rightarrow> cxx_arg \<Rightarrow> ('d heap, unit) op" where
  "mod_change_input a key x = on_mod a (mo_change_input key x)"

definition mo_change_submod :: "(nat \<Rightarrow> rtti list res) \<Rightarrow> string \<Rightarrow> nat option \<Rightarrow> 'd module \<Rightarrow> 'd module res" where
  "mo_change_submod types key ptr m =
     bindR (assert_not_locked' m) (\<lambda>_.
     bindR (mp_submods' (mo_pimpl m)) (\<lambda>submods.
     if \<not> ci_count key submods then Inl (no_field m ''submodule'' key)
     else bindR (ci_at key submods) (\<lambda>r. bindR (sr_change types ptr r) (\<lambda>r'.
       Inr (m\<lparr>mo_pimpl := (mo_pimpl m)\<lparr>mp_submods := ci_set key r' submods\<rparr>\<rparr>)))))"

definition mod_change_submod :: "nat \<Rightarrow> string \<Rightarrow> nat option \<Rightarrow> ('d heap, unit) op" where
  "mod_change_submod a key ptr h = on_mod a (mo_change_submod (mod_types h) key ptr) h"

text \<open>\<open>change_submod\<close> with a module by value, which becomes a new shared module.\<close>

definition mod_change_submod_value :: "nat \<Rightarrow> string \<Rightarrow> 'd module \<Rightarrow> ('d heap, unit) op" where
  "mod_change_submod_value a key m = bindS (alloc_mod m) (\<lambda>p. mod_change_submod a key (Some p))"

definition mod_add_property_type :: "nat \<Rightarrow> rtti \<Rightarrow> ('d heap, unit) op" where
  "mod_add_property_type a t = on_mod a (\<lambda>m.
     bindR (assert_not_locked' m) (\<lambda>_.
     bindR (mp_property_types' (mo_pimpl m)) (\<lambda>ts.
     Inr (m\<lparr>mo_pimpl := (mo_pimpl m)\<lparr>mp_property_types := rtti_insert t ts\<rparr>\<rparr>))))"

definition check_property_type' :: "'d heap \<Rightarrow> rtti \<Rightarrow> nat \<Rightarrow> unit res" where
  "check_property_type' h prop_type a =
     bindR (mod_types h a) (\<lambda>ts.
       if list_ex (rtti_equal prop_type) ts then Inr ()
       else Inl (runtime_error (''Module does not satisfy property type '' @ rt_name prop_type)))"

definition check_python_property_type' :: "'d heap \<Rightarrow> string \<Rightarrow> nat \<Rightarrow> unit res" where
  "check_python_property_type' h name a =
     bindR (mod_at h a) (\<lambda>m. bindR (mp_python_property_types' (mo_pimpl m)) (\<lambda>ns.
       if name \<in> set ns then Inr ()
       else Inl (runtime_error (''Module does not satisfy Python-only property type \"'' @ name @ ''\"''))))"

text \<open>\<open>ModulePIMPL::lock\<close>: the submodules first, each of which must be ready, then the module.\<close>

definition mp_lock :: "(nat \<times> input_map \<Rightarrow> 'd heap \<Rightarrow> bool res) \<Rightarrow> (nat \<Rightarrow> ('d heap, unit) op) \<Rightarrow> nat \<Rightarrow> ('d heap, unit) op" where
  "mp_lock rdy lock a =
     bindS (\<lambda>h. (mod_at h a, h)) (\<lambda>m.
     bindS (forS (\<lambda>(k, v). srp_lock rdy lock v) (mp_submods (mo_pimpl m))) (\<lambda>_.
     modS (upd_mod a lock')))"

fun mod_lock :: "nat \<Rightarrow> nat \<Rightarrow> ('d heap, unit) op" where
  "mod_lock 0 a = throwS Out_of_fuel"
| "mod_lock (Suc n) a = mp_lock (\<lambda>x h. mod_ready n h x) (mod_lock n) a"

section \<open>Why a module is not ready\<close>

definition newline :: string where "newline = [char_of (10::nat)]"

fun pnr_items :: "('d module_pimpl \<Rightarrow> string \<Rightarrow> string res) \<Rightarrow> 'd heap \<Rightarrow> 'd module_pimpl \<Rightarrow> string
    \<Rightarrow> string \<Rightarrow> string list \<Rightarrow> string res" where
  "pnr_items pnr h p desc indent2 [] = Inr []"
| "pnr_items pnr h p desc indent2 (item # items) =
     bindR (if desc \<noteq> ''Submodules'' then Inr (indent2 @ item @ newline)
            else bindR (mp_submods' p) (\<lambda>s. bindR (ci_at item s) (\<lambda>r. bindR (sr_clone r) (\<lambda>submod.
              if \<not> sr_has_module submod then Inr (indent2 @ item @ '' is not set.'' @ newline)
              else bindR (srp_value submod) (\<lambda>a. bindR (mod_at h a) (\<lambda>m.
                   bindR (pnr (mo_pimpl m) (indent2 @ ''  '')) (\<lambda>s.
                   Inr (indent2 @ item @ '':'' @ newline @ s)))))))) (\<lambda>line.
     bindR (pnr_items pnr h p desc indent2 items) (\<lambda>rest. Inr (line @ rest)))"

text \<open>The module whose state is printed may be a copy that is not in the heap.\<close>

definition pnr_step :: "(nat \<times> input_map \<Rightarrow> bool res) \<Rightarrow> 'd heap
    \<Rightarrow> ('d module_pimpl \<times> input_map \<times> string \<Rightarrow> string res) \<Rightarrow> 'd module_pimpl \<times> input_map \<times> string \<Rightarrow> string res" where
  "pnr_step rdy h rec x = (case x of (p, ps, indent) \<Rightarrow>
     bindR (mp_not_set rdy p ps) (\<lambda>not_readies.
     bindR (mapR (\<lambda>(desc, items).
         bindR (pnr_items (\<lambda>q ind. rec (q, [], ind)) h p desc (''  '' @ indent) items) (\<lambda>s.
           Inr (indent @ desc @ '' that are not ready:'' @ newline @ s))) not_readies) (\<lambda>parts.
     Inr (concat parts))))"

definition print_not_ready :: "nat \<Rightarrow> 'd heap \<Rightarrow> 'd module_pimpl \<Rightarrow> input_map \<Rightarrow> string \<Rightarrow> string res" where
  "print_not_ready n h p ps indent = calls (pnr_step (mod_ready n h) h) n (p, ps, indent)"

section \<open>Lemmas\<close>

lemma noexceptR_fuel [simp]: "noexceptR r = Inl Out_of_fuel \<longleftrightarrow> r = Inl Out_of_fuel"
  by (cases r) (auto simp: noexceptR_def)

lemma noexceptR_Inr [simp]: "noexceptR r = Inr x \<longleftrightarrow> r = Inr x"
  by (cases r) (auto simp: noexceptR_def)

lemma bindR_fuel: "bindR m f = Inl Out_of_fuel \<longleftrightarrow>
    m = Inl Out_of_fuel \<or> (\<exists>x. m = Inr x \<and> f x = Inl Out_of_fuel)"
  by (rule bindR_Inl_iff)

lemma deref_fuel [simp]: "deref p \<noteq> Inl Out_of_fuel" "mod_at h a \<noteq> Inl Out_of_fuel" "base_at h a \<noteq> Inl Out_of_fuel"
  by (auto simp: deref_def mod_at_def base_at_def split: option.splits)

lemma accessor_fuel [simp]:
  "mp_assert_mod' p \<noteq> Inl Out_of_fuel" "srp_value r \<noteq> Inl Out_of_fuel"
  "mp_base_of h p \<noteq> Inl Out_of_fuel" "mp_uuid h p \<noteq> Inl Out_of_fuel" "mod_uuid h a \<noteq> Inl Out_of_fuel"
  by (auto simp: mp_assert_mod'_def srp_value_def mp_base_of_def mp_uuid_def mod_uuid_def bindR_fuel)

lemma not_set_guts_cong:
  "\<forall>(k, v) \<in> set m. f v = g v \<Longrightarrow> not_set_guts' f m = not_set_guts' g m"
  by (induction m) auto

lemma not_set_guts_fuel:
  "\<forall>(k, v) \<in> set m. f v \<noteq> Inl Out_of_fuel \<Longrightarrow> not_set_guts' f m \<noteq> Inl Out_of_fuel"
  by (induction m) (auto simp: bindR_fuel)

lemma not_set_guts_pure:
  "not_set_guts' (\<lambda>i. Inr (f i)) m = Inr (sorted_list_of_set {k. \<exists>v. (k, v) \<in> set m \<and> \<not> f v})"
proof (induction m)
  case (Cons p m)
  obtain k v where p: "p = (k, v)" by (cases p)
  let ?S = "{k. \<exists>v. (k, v) \<in> set m \<and> \<not> f v}"
  have fin: "finite ?S" by (rule finite_subset [of _ "fst ` set m"]) force+
  have "{k'. \<exists>v'. (k', v') \<in> set (p # m) \<and> \<not> f v'} = (if f v then ?S else insert k ?S)"
    using p by auto
  moreover have "insort_insert k (sorted_list_of_set ?S) = sorted_list_of_set (insert k ?S)"
    using fin by (cases "k \<in> ?S") (simp_all add: insort_insert_key_def insert_absorb del: mem_Collect_eq)
  ultimately show ?case using Cons by (simp add: p)
qed simp

lemma insort_insert_not_Nil [simp]: "insort_insert k ks \<noteq> []"
  by (auto simp: insort_insert_key_def)

lemma not_set_guts_Nil_iff:
  "not_set_guts' f m = Inr [] \<longleftrightarrow> (\<forall>(k, v) \<in> set m. f v = Inr True)"
  by (induction m) (auto simp: bindR_Inr_iff split: if_splits)

text \<open>The modules a module's requests hold.\<close>

definition submod_of :: "'d heap \<Rightarrow> nat \<Rightarrow> submodule_request \<Rightarrow> nat \<Rightarrow> bool" where
  "submod_of h a r c \<longleftrightarrow> (\<exists>m k. hp_mods h a = Some m \<and> (k, r) \<in> set (mp_submods (mo_pimpl m)) \<and> sr_module r = Some c)"

definition ranked :: "'d heap \<Rightarrow> (nat \<Rightarrow> nat) \<Rightarrow> bool" where
  "ranked h rank \<longleftrightarrow> (\<forall>a r c. submod_of h a r c \<longrightarrow> rank c < rank a)"

definition ready_callees :: "'d heap \<Rightarrow> nat \<times> input_map \<Rightarrow> (nat \<times> input_map) set" where
  "ready_callees h x = {(c, sr_inputs r) | r c. submod_of h (fst x) r c}"

definition submods_of :: "'d heap \<Rightarrow> nat \<Rightarrow> nat set" where
  "submods_of h a = {c. \<exists>r. submod_of h a r c}"

lemma srp_value_Inr [simp]: "srp_value r = Inr c \<longleftrightarrow> sr_module r = Some c"
  by (cases "sr_module r") (simp_all add: srp_value_def sr_has_defs)

lemma sr_ready_cong:
  "(\<And>c. sr_module r = Some c \<Longrightarrow> f (c, sr_inputs r) = g (c, sr_inputs r)) \<Longrightarrow> sr_ready f r = sr_ready g r"
  by (auto simp: sr_ready_def srp_ready_def sr_has_defs split: option.splits)

lemma sr_ready_fuel:
  "(\<And>c. sr_module r = Some c \<Longrightarrow> f (c, sr_inputs r) \<noteq> Inl Out_of_fuel) \<Longrightarrow> sr_ready f r \<noteq> Inl Out_of_fuel"
  by (auto simp: sr_ready_def srp_ready_def sr_has_defs)

lemma submod_ofI: "hp_mods h a = Some m \<Longrightarrow> (k, r) \<in> set (mp_submods (mo_pimpl m)) \<Longrightarrow> sr_module r = Some c
    \<Longrightarrow> submod_of h a r c"
  by (auto simp: submod_of_def)

lemma ready_calleesI: "hp_mods h (fst x) = Some m \<Longrightarrow> (k, r) \<in> set (mp_submods (mo_pimpl m)) \<Longrightarrow> sr_module r = Some c
    \<Longrightarrow> (c, sr_inputs r) \<in> ready_callees h x"
  using submod_ofI by (fastforce simp: ready_callees_def)

lemma submods_ofI: "hp_mods h a = Some m \<Longrightarrow> (k, r) \<in> set (mp_submods (mo_pimpl m)) \<Longrightarrow> sr_module r = Some c
    \<Longrightarrow> c \<in> submods_of h a"
  using submod_ofI by (fastforce simp: submods_of_def)

interpretation ready_calls: call_graph "mod_ready_step h" "ready_callees h" for h
proof (unfold_locales, goal_cases)
  case (1 x f g)
  show ?case
  proof (cases "hp_mods h (fst x)")
    case (Some m)
    have "\<forall>(k, r) \<in> set (mp_submods (mo_pimpl m)). sr_ready f r = sr_ready g r"
      using 1 ready_calleesI [of h x, OF Some] by (auto intro!: sr_ready_cong)
    then have "not_set_guts' (sr_ready f) (mp_submods (mo_pimpl m)) = not_set_guts' (sr_ready g) (mp_submods (mo_pimpl m))"
      by (rule not_set_guts_cong)
    then show ?thesis by (simp add: mod_ready_step_def mod_at_def Some mp_ready_def mp_not_set_def)
  qed (simp add: mod_ready_step_def mod_at_def)
next
  case (2 x f)
  show ?case
  proof (cases "hp_mods h (fst x)")
    case (Some m)
    have "sr_ready f r \<noteq> Inl Out_of_fuel" if "(k, r) \<in> set (mp_submods (mo_pimpl m))" for k r
      using 2 ready_calleesI [of h x, OF Some that] by (intro sr_ready_fuel) blast
    then have "\<forall>(k, r) \<in> set (mp_submods (mo_pimpl m)). sr_ready f r \<noteq> Inl Out_of_fuel" by blast
    then have "not_set_guts' (sr_ready f) (mp_submods (mo_pimpl m)) \<noteq> Inl Out_of_fuel"
      by (rule not_set_guts_fuel)
    then show ?thesis
      by (auto simp: mod_ready_step_def mod_at_def Some mp_ready_def mp_not_set_def bindR_fuel
          not_set_guts_pure Let_def)
  qed (simp add: mod_ready_step_def mod_at_def)
qed

lemma memo_loop_cong:
  "\<forall>k r c. (k, r) \<in> set m \<longrightarrow> sr_module r = Some c \<longrightarrow> f c = g c \<Longrightarrow> memo_loop f m b = memo_loop g m b"
proof (induction m arbitrary: b)
  case (Cons p m)
  obtain k r where p: "p = (k, r)" by (cases p)
  show ?case
  proof (cases "srp_value r")
    case (Inr c)
    then have "f c = g c" using Cons.prems p by auto
    moreover have "memo_loop f m b = memo_loop g m b" for b using Cons by auto
    ultimately show ?thesis by (simp add: p Inr)
  qed (simp add: p)
qed simp

lemma memo_loop_fuel:
  "\<forall>k r c. (k, r) \<in> set m \<longrightarrow> sr_module r = Some c \<longrightarrow> f c \<noteq> Inl Out_of_fuel \<Longrightarrow>
    memo_loop f m b \<noteq> Inl Out_of_fuel"
proof (induction m arbitrary: b)
  case (Cons p m)
  obtain k r where p: "p = (k, r)" by (cases p)
  have "memo_loop f m b \<noteq> Inl Out_of_fuel" for b using Cons by auto
  then show ?case using Cons.prems by (auto simp: p bindR_fuel)
qed simp

interpretation memo_calls: call_graph "memo_step h" "submods_of h" for h
proof (unfold_locales, goal_cases)
  case (1 x f g)
  show ?case
  proof (cases "hp_mods h x")
    case (Some m)
    have "memo_loop f (mp_submods (mo_pimpl m)) b = memo_loop g (mp_submods (mo_pimpl m)) b" for b
      using 1 submods_ofI [OF Some] by (intro memo_loop_cong) blast
    then show ?thesis by (simp add: memo_step_def mod_at_def Some mp_is_memoizable_def cong del: if_weak_cong)
  qed (simp add: memo_step_def mod_at_def)
next
  case (2 x f)
  show ?case
  proof (cases "hp_mods h x")
    case (Some m)
    have "memo_loop f (mp_submods (mo_pimpl m)) b \<noteq> Inl Out_of_fuel" for b
      using 2 submods_ofI [OF Some] by (intro memo_loop_fuel) blast
    then show ?thesis by (auto simp: memo_step_def mod_at_def Some mp_is_memoizable_def bindR_fuel)
  qed (simp add: memo_step_def mod_at_def)
qed

lemma srp_submod_uuids_eq: "srp_submod_uuids f r = (case sr_module r of
    None \<Rightarrow> Inl (runtime_error ''Submodule is not set'') | Some c \<Rightarrow> f c)"
  "srp_uuid u r = (case sr_module r of None \<Rightarrow> Inl (runtime_error ''Submodule is not set'') | Some c \<Rightarrow> u c)"
  by (simp_all add: srp_submod_uuids_def srp_uuid_def sr_has_defs split: option.splits)

lemma uuid_loop_cong:
  "\<forall>k r c. (k, r) \<in> set m \<longrightarrow> sr_module r = Some c \<longrightarrow> f c = g c \<and> u c = u' c \<Longrightarrow>
    uuid_loop f u m rv = uuid_loop g u' m rv"
proof (induction m arbitrary: rv)
  case (Cons p m)
  obtain k r where p: "p = (k, r)" by (cases p)
  have "uuid_loop f u m rv = uuid_loop g u' m rv" for rv using Cons by auto
  then have "uuid_loop f u m = uuid_loop g u' m" by blast
  moreover have "srp_submod_uuids f r = srp_submod_uuids g r" "srp_uuid u r = srp_uuid u' r"
    using Cons.prems by (auto simp: p srp_submod_uuids_eq split: option.splits)
  ultimately show ?case by (simp add: p)
qed simp

lemma uuid_loop_fuel:
  "\<forall>k r c. (k, r) \<in> set m \<longrightarrow> sr_module r = Some c \<longrightarrow> f c \<noteq> Inl Out_of_fuel \<Longrightarrow>
    \<forall>c. u c \<noteq> Inl Out_of_fuel \<Longrightarrow> uuid_loop f u m rv \<noteq> Inl Out_of_fuel"
proof (induction m arbitrary: rv)
  case (Cons p m)
  obtain k r where p: "p = (k, r)" by (cases p)
  have "uuid_loop f u m rv \<noteq> Inl Out_of_fuel" for rv using Cons by auto
  moreover have "srp_submod_uuids f r \<noteq> Inl Out_of_fuel" "srp_uuid u r \<noteq> Inl Out_of_fuel"
    using Cons.prems by (auto simp: p srp_submod_uuids_eq split: option.splits)
  ultimately show ?case by (auto simp: p bindR_fuel)
qed simp

interpretation uuid_calls: call_graph "uuids_step h" "submods_of h" for h
proof (unfold_locales, goal_cases)
  case (1 x f g)
  show ?case
  proof (cases "hp_mods h x")
    case (Some m)
    have "uuid_loop f u (mp_submods (mo_pimpl m)) rv = uuid_loop g u (mp_submods (mo_pimpl m)) rv" for u rv
      using 1 submods_ofI [OF Some] by (intro uuid_loop_cong) blast
    then show ?thesis by (simp add: uuids_step_def mod_at_def Some mp_submod_uuids_def mp_submods'_def mp_assert_mod'_def)
  qed (simp add: uuids_step_def mod_at_def)
next
  case (2 x f)
  show ?case
  proof (cases "hp_mods h x")
    case (Some m)
    have "uuid_loop f (mod_uuid h) (mp_submods (mo_pimpl m)) rv \<noteq> Inl Out_of_fuel" for rv
      using 2 submods_ofI [OF Some] by (intro uuid_loop_fuel) (blast, simp)
    then show ?thesis
      by (auto simp: uuids_step_def mod_at_def Some mp_submod_uuids_def mp_submods'_def mp_assert_mod'_def bindR_fuel)
  qed (simp add: uuids_step_def mod_at_def)
qed

section \<open>Locking\<close>

inductive reaches :: "'d heap \<Rightarrow> nat \<Rightarrow> nat \<Rightarrow> bool" for h where
  refl: "reaches h a a"
| step: "submod_of h a r c \<Longrightarrow> reaches h c b \<Longrightarrow> reaches h a b"

inductive_simps reaches_iff: "reaches h a b"

definition lock_set :: "nat set \<Rightarrow> 'd heap \<Rightarrow> 'd heap" where
  "lock_set A h = h\<lparr>hp_mods := (\<lambda>x. if x \<in> A then map_option lock' (hp_mods h x) else hp_mods h x)\<rparr>"

lemma lock'_simps [simp]:
  "mp_inputs (mo_pimpl (lock' m)) = mp_inputs (mo_pimpl m)"
  "mp_submods (mo_pimpl (lock' m)) = mp_submods (mo_pimpl m)"
  "mp_base (mo_pimpl (lock' m)) = mp_base (mo_pimpl m)"
  "mp_cache (mo_pimpl (lock' m)) = mp_cache (mo_pimpl m)"
  "mp_memoizable (mo_pimpl (lock' m)) = mp_memoizable (mo_pimpl m)"
  "mp_property_types (mo_pimpl (lock' m)) = mp_property_types (mo_pimpl m)"
  "mp_python_property_types (mo_pimpl (lock' m)) = mp_python_property_types (mo_pimpl m)"
  "mo_name (lock' m) = mo_name m" "mp_locked (mo_pimpl (lock' m))" "lock' (lock' m) = lock' m"
  by (simp_all add: lock'_def)

lemma lock_set_simps [simp]:
  "hp_bases (lock_set A h) = hp_bases h" "hp_next_mod (lock_set A h) = hp_next_mod h"
  "hp_next_base (lock_set A h) = hp_next_base h" "hp_cw (lock_set A h) = hp_cw h"
  "lock_set A (lock_set B h) = lock_set (A \<union> B) h" "lock_set {} h = h"
  "upd_mod a lock' h = lock_set {a} h"
  by (auto simp: lock_set_def upd_mod_def fun_eq_iff option.map_comp comp_def)

lemma lock_set_mods: "hp_mods (lock_set A h) x = (if x \<in> A then map_option lock' (hp_mods h x) else hp_mods h x)"
  by (simp add: lock_set_def)

text \<open>A state that differs from another in locks only looks the same to every query but \<open>locked\<close>.\<close>

lemma lock_set_pimpl:
  assumes "hp_mods (lock_set A h) x = Some m'"
  obtains m where "hp_mods h x = Some m" "m' = m \<or> m' = lock' m"
  using assms by (auto simp: lock_set_mods split: if_splits)

lemma mod_at_lock: "mod_at (lock_set A h) x = (if x \<in> A then bindR (mod_at h x) (\<lambda>m. Inr (lock' m)) else mod_at h x)"
  by (auto simp: mod_at_def lock_set_mods deref_def split: option.splits)

lemma base_at_lock: "base_at (lock_set A h) = base_at h"
  by (simp add: base_at_def fun_eq_iff)

lemma mp_of_lock [simp]:
  "mp_has_module (mo_pimpl (lock' m)) = mp_has_module (mo_pimpl m)"
  "mp_assert_mod' (mo_pimpl (lock' m)) = mp_assert_mod' (mo_pimpl m)"
  "mp_base_of h (mo_pimpl (lock' m)) = mp_base_of h (mo_pimpl m)"
  "mp_base_of (lock_set A h) p = mp_base_of h p"
  by (simp_all add: mp_has_module_def mp_assert_mod'_def mp_base_of_def base_at_lock)

lemma bindR_assoc: "bindR (bindR m f) g = bindR m (\<lambda>x. bindR (f x) g)"
  by (cases m) simp_all

lemma query_lock:
  "(\<And>m. f (lock' m) = f m) \<Longrightarrow> bindR (mod_at (lock_set A h) x) f = bindR (mod_at h x) f"
  by (simp add: mod_at_lock bindR_assoc)

lemma submod_of_lock [simp]: "submod_of (lock_set A h) = submod_of h"
  by (auto simp: submod_of_def lock_set_mods fun_eq_iff split: if_splits)

lemma reaches_mono: "reaches h a b \<Longrightarrow> submod_of h' = submod_of h \<Longrightarrow> reaches h' a b"
  by (induction rule: reaches.induct) (auto intro: reaches.intros)

lemma reaches_lock [simp]: "reaches (lock_set A h) = reaches h"
  by (intro ext iffI) (erule reaches_mono, simp)+

lemma mod_ready_lock [simp]: "mod_ready n (lock_set A h) = mod_ready n h"
proof -
  have "mod_ready_step (lock_set A h) = mod_ready_step h"
    unfolding mod_ready_step_def fun_eq_iff
    by (intro allI query_lock) (simp add: mp_ready_def mp_not_set_def)
  then show ?thesis by (simp add: mod_ready_def)
qed

lemma mod_uuid_lock [simp]: "mod_uuid (lock_set A h) = mod_uuid h"
  unfolding mod_uuid_def fun_eq_iff mp_uuid_def mp_of_lock by (intro allI query_lock) simp

lemma mod_is_memoizable_lock [simp]: "mod_is_memoizable n (lock_set A h) = mod_is_memoizable n h"
proof -
  have "memo_step (lock_set A h) = memo_step h"
    unfolding memo_step_def fun_eq_iff mp_is_memoizable_def mp_of_lock
    by (intro allI query_lock) (simp cong del: if_weak_cong)
  then show ?thesis by (simp add: mod_is_memoizable_def)
qed

lemma mod_submod_uuids_lock [simp]: "mod_submod_uuids n (lock_set A h) = mod_submod_uuids n h"
proof -
  have "uuids_step (lock_set A h) = uuids_step h"
    unfolding uuids_step_def fun_eq_iff mod_uuid_lock
    by (intro allI query_lock) (simp add: mp_submod_uuids_def mp_submods'_def)
  then show ?thesis by (simp add: mod_submod_uuids_def)
qed

lemma mod_merge_lock [simp]: "mod_merge_inputs n (lock_set A h) = mod_merge_inputs n h"
  unfolding mod_merge_inputs_def fun_eq_iff mod_submod_uuids_lock mod_uuid_lock
proof (intro allI query_lock)
  fix ins and m :: "'a module"
  have "mp_merge_inputs' f u (mo_pimpl (lock' m)) = mp_merge_inputs' f u (mo_pimpl m)" for f u
    by (simp add: mp_merge_inputs'_def mp_submod_uuids_def mp_submods'_def fun_eq_iff)
  then show "bindR (im_copy ins) (mp_merge_inputs' (mod_submod_uuids n h) (mod_uuid h) (mo_pimpl (lock' m))) =
      bindR (im_copy ins) (mp_merge_inputs' (mod_submod_uuids n h) (mod_uuid h) (mo_pimpl m))" by simp
qed

text \<open>Readiness, taken apart.\<close>

lemma mp_not_set_Nil_iff:
  "mp_not_set rdy p ins = Inr [] \<longleftrightarrow> mp_has_module p \<and>
     (\<forall>(k, v) \<in> set (mp_inputs p). mi_ready v \<or> k \<in> fst ` set ins) \<and>
     (\<forall>(k, r) \<in> set (mp_submods p). sr_ready rdy r = Inr True)"
proof -
  let ?S = "{k. \<exists>v. (k, v) \<in> set (mp_inputs p) \<and> \<not> mi_ready v}"
  have fin: "finite ?S" by (rule finite_subset [of _ "fst ` set (mp_inputs p)"]) force+
  have f: "fold (\<lambda>(k, v). filter (\<lambda>x. x \<noteq> k)) ins ks = filter (\<lambda>x. x \<notin> fst ` set ins) ks" for ks :: "string list"
    by (induction ins arbitrary: ks) (simp_all split: prod.split)
  have "(filter (\<lambda>x. x \<notin> fst ` set ins) (sorted_list_of_set ?S) = []) =
      (\<forall>(k, v) \<in> set (mp_inputs p). mi_ready v \<or> k \<in> fst ` set ins)"
    using fin by (auto simp: filter_empty_conv)
  then show ?thesis
    by (auto simp: mp_not_set_def mp_assert_mod'_def bindR_Inr_iff not_set_guts_pure f Let_def
        not_set_guts_Nil_iff [symmetric] split: if_splits)
qed

lemma mp_ready_True_iff:
  "mp_ready rdy p ins = Inr True \<longleftrightarrow> mp_has_module p \<and>
     (\<forall>(k, v) \<in> set (mp_inputs p). mi_ready v \<or> k \<in> fst ` set ins) \<and>
     (\<forall>(k, r) \<in> set (mp_submods p). sr_ready rdy r = Inr True)"
  by (simp add: mp_ready_def bindR_Inr_iff mp_not_set_Nil_iff [symmetric])

lemma mod_ready_Suc: "mod_ready (Suc n) h x = mod_ready_step h (mod_ready n h) x"
  by (simp add: mod_ready_def)

lemma sr_ready_True_iff:
  "sr_ready rdy r = Inr True \<longleftrightarrow> sr_has_type r \<and> (\<exists>c. sr_module r = Some c \<and> rdy (c, sr_inputs r) = Inr True)"
  by (cases "sr_module r") (auto simp: sr_ready_def srp_ready_def sr_has_defs)

lemma mod_ready_True_iff:
  "mod_ready (Suc n) h (a, ins) = Inr True \<longleftrightarrow> (\<exists>m. hp_mods h a = Some m \<and> mp_has_module (mo_pimpl m) \<and>
     (\<forall>(k, v) \<in> set (mp_inputs (mo_pimpl m)). mi_ready v \<or> k \<in> fst ` set ins) \<and>
     (\<forall>(k, r) \<in> set (mp_submods (mo_pimpl m)). sr_has_type r \<and>
        (\<exists>c. sr_module r = Some c \<and> mod_ready n h (c, sr_inputs r) = Inr True)))"
  by (cases "hp_mods h a")
    (auto simp: mod_ready_Suc mod_ready_step_def mod_at_def mp_ready_True_iff sr_ready_True_iff)

text \<open>Locking a module that is ready goes through: every submodule it asks is ready, too.\<close>

lemma srp_lock_ready:
  assumes "mod_ready n h (c, sr_inputs r) = Inr True" and "sr_module r = Some c" and "sr_has_type r"
  shows "srp_lock (\<lambda>x h'. mod_ready n h' x) lock r (lock_set A h) = lock c (lock_set A h)"
  using assms by (simp add: srp_lock_def srp_ready_def bindS_def sr_has_module_def)

lemma mod_lock_ready:
  "mod_ready n h (a, ins) = Inr True \<Longrightarrow>
    mod_lock n a (lock_set A h) = (Inr (), lock_set (A \<union> {b. reaches h a b}) h)"
proof (induction n arbitrary: a ins A)
  case (Suc n)
  obtain m where m: "hp_mods h a = Some m"
      "\<forall>(k, r) \<in> set (mp_submods (mo_pimpl m)). sr_has_type r \<and>
         (\<exists>c. sr_module r = Some c \<and> mod_ready n h (c, sr_inputs r) = Inr True)"
    using Suc.prems by (auto simp: mod_ready_True_iff)
  let ?lock = "\<lambda>(k, r). srp_lock (\<lambda>x h'. mod_ready n h' x) (mod_lock n) r"
  have loop: "forS ?lock rs (lock_set A h) =
      (Inr (), lock_set (A \<union> {b. \<exists>k r c. (k, r) \<in> set rs \<and> sr_module r = Some c \<and> reaches h c b}) h)"
    if "set rs \<subseteq> set (mp_submods (mo_pimpl m))" for rs A
    using that
  proof (induction rs arbitrary: A)
    case (Cons kr rs)
    obtain k r where kr: "kr = (k, r)" by (cases kr)
    then obtain c where c: "sr_has_type r" "sr_module r = Some c" "mod_ready n h (c, sr_inputs r) = Inr True"
      using m(2) Cons.prems by auto
    have "?lock kr (lock_set A h) = (Inr (), lock_set (A \<union> {b. reaches h c b}) h)"
      using srp_lock_ready [OF c(3,2,1)] Suc.IH [OF c(3)] kr by simp
    moreover have "A \<union> {b. reaches h c b} \<union> {b. \<exists>k r c. (k, r) \<in> set rs \<and> sr_module r = Some c \<and> reaches h c b} =
        A \<union> {b. \<exists>k r c. (k, r) \<in> set (kr # rs) \<and> sr_module r = Some c \<and> reaches h c b}"
      using kr c(2) by auto
    ultimately show ?case using Cons by (simp add: bindS_Inr)
  qed simp
  have "{b. reaches h a b} =
      insert a {b. \<exists>k r c. (k, r) \<in> set (mp_submods (mo_pimpl m)) \<and> sr_module r = Some c \<and> reaches h c b}"
    using m(1) by (auto simp: reaches_iff [of h a] submod_of_def)
  moreover have "mod_at (lock_set A h) a = Inr (if a \<in> A then lock' m else m)"
    using m(1) by (subst mod_at_lock) (simp add: mod_at_def)
  ultimately show ?case
    using loop [of "mp_submods (mo_pimpl m)" A] by (simp add: mp_lock_def bindS_Inr insert_commute Un_commute)
qed (simp add: mod_ready_def)

section \<open>Properties\<close>

text \<open>C9: Walks over submodules end. When no module reaches itself through its submodules, any fuel
  above the height of a module gives the same answer to \<open>ready\<close>, \<open>is_memoizable\<close> and
  \<open>submod_uuids\<close>, and that answer is one of the program: the recursion of the code returns or
  throws, and the model's bound on it plays no part.\<close>

theorem submodule_walks_end:
  assumes "ranked h rank" and "rank a < n"
  shows "mod_ready n h (a, ins) \<noteq> Inl Out_of_fuel \<and> mod_ready n h (a, ins) = mod_ready (Suc (rank a)) h (a, ins) \<and>
    mod_is_memoizable n h a \<noteq> Inl Out_of_fuel \<and> mod_is_memoizable n h a = mod_is_memoizable (Suc (rank a)) h a \<and>
    mod_submod_uuids n h a \<noteq> Inl Out_of_fuel \<and> mod_submod_uuids n h a = mod_submod_uuids (Suc (rank a)) h a"
proof -
  have down: "rank c < rank b" if "submod_of h b r c" for b r c
    using assms(1) that by (auto simp: ranked_def)
  have "rank (fst y) < rank (fst x)" if "y \<in> ready_callees h x" for x y
    using that down by (auto simp: ready_callees_def)
  then have r: "mod_ready n h (a, ins) \<noteq> Inl Out_of_fuel \<and> mod_ready n h (a, ins) = mod_ready (Suc (rank a)) h (a, ins)"
    using ready_calls.enough_fuel [of h "\<lambda>x. rank (fst x)" "(a, ins)" n] assms(2)
    unfolding mod_ready_def fst_conv by blast
  have down': "rank y < rank x" if "y \<in> submods_of h x" for x y
    using that down by (auto simp: submods_of_def)
  have "mod_is_memoizable n h a \<noteq> Inl Out_of_fuel \<and> mod_is_memoizable n h a = mod_is_memoizable (Suc (rank a)) h a"
    unfolding mod_is_memoizable_def by (rule memo_calls.enough_fuel [of h rank, OF down' assms(2)])
  moreover have "mod_submod_uuids n h a \<noteq> Inl Out_of_fuel \<and> mod_submod_uuids n h a = mod_submod_uuids (Suc (rank a)) h a"
    unfolding mod_submod_uuids_def by (rule uuid_calls.enough_fuel [of h rank, OF down' assms(2)])
  ultimately show ?thesis using r by blast
qed

text \<open>C35: What makes a module ready. It has an implementation; every bound input that is not ready is
  among the names that are given; and every submodule request has a type and holds a module that
  is ready for the inputs of that type. The names are compared exactly, unlike everywhere else: an
  input given under a name that differs in case from the bound one does not count, although
  the map of inputs would take it as the same input.\<close>

theorem ready_iff_exact_names:
  assumes "hp_mods h a = Some m"
  shows "mod_ready (Suc n) h (a, ins) = Inr True \<longleftrightarrow>
    mp_has_module (mo_pimpl m) \<and>
    (\<forall>(k, v) \<in> set (mp_inputs (mo_pimpl m)). mi_ready v \<or> k \<in> fst ` set ins) \<and>
    (\<forall>(k, r) \<in> set (mp_submods (mo_pimpl m)). sr_has_type r \<and>
       (\<exists>c. sr_module r = Some c \<and> mod_ready n h (c, sr_inputs r) = Inr True))"
  using assms by (simp add: mod_ready_True_iff)

definition option_module :: "'d module" where
  "option_module = \<lparr>mo_pimpl = mp_new\<lparr>mp_base := Some 0, mp_inputs := [(''Option'', mi_new)]\<rparr>, mo_name = None\<rparr>"

definition option_heap :: "unit heap" where
  "option_heap = (hp_init (cw_init example_gen ()))\<lparr>hp_mods := [0 \<mapsto> option_module]\<rparr>"

theorem ready_iff_exact_names_witness:
  "mod_ready 1 option_heap (0, [(''option'', mi_new)]) \<noteq> Inr True \<and>
   mod_ready 1 option_heap (0, [(''Option'', mi_new)]) = Inr True \<and>
   ci_count ''option'' (mp_inputs (mo_pimpl (option_module :: unit module)))"
proof -
  have h: "hp_mods option_heap 0 = Some option_module" by (simp add: option_heap_def)
  have "ci_fold ''option'' = ci_fold ''Option''" by code_simp
  then show ?thesis
    using ready_iff_exact_names [OF h, of 0 "[(''option'', mi_new)]"]
      ready_iff_exact_names [OF h, of 0 "[(''Option'', mi_new)]"]
    by (simp add: option_module_def mp_has_module_def mi_ready_def mi_new_def mip_new_def mip_is_ready_def
        mip_is_optional_def mip_has_value_def any_has_value_def mp_new_def om_count_def)
qed

text \<open>C8: Locking. A module that is ready can be locked; afterwards exactly it and the modules it
  reaches through its submodules are locked in addition to those that were, nothing else has
  changed, and from then on none of them accepts a new input, submodule or property type.\<close>

theorem lock_locks_reachable:
  assumes "mod_ready n h (a, ins) = Inr True"
  shows "mod_lock n a h = (Inr (), lock_set {b. reaches h a b} h) \<and>
    (\<forall>b m. reaches h a b \<longrightarrow> hp_mods h b = Some m \<longrightarrow>
       (let h' = lock_set {b. reaches h a b} h; no = Inl (runtime_error ''Locked modules can not be modified'') in
        mod_locked h' b = Inr True \<and> mod_change_input b key x h' = (no, h') \<and>
        mod_change_submod b key p h' = (no, h') \<and> mod_add_property_type b t h' = (no, h')))"
proof (intro conjI allI impI)
  show "mod_lock n a h = (Inr (), lock_set {b. reaches h a b} h)"
    using mod_lock_ready [OF assms, of "{}"] by simp
next
  fix b m
  assume "reaches h a b" "hp_mods h b = Some m"
  then have "mod_at (lock_set {b. reaches h a b} h) b = Inr (lock' m)"
    by (simp add: mod_at_lock) (simp add: mod_at_def)
  then show "let h' = lock_set {b. reaches h a b} h; no = Inl (runtime_error ''Locked modules can not be modified'') in
      mod_locked h' b = Inr True \<and> mod_change_input b key x h' = (no, h') \<and>
      mod_change_submod b key p h' = (no, h') \<and> mod_add_property_type b t h' = (no, h')"
    by (simp add: Let_def mod_locked_def mod_change_input_def mod_change_submod_def mod_add_property_type_def
        on_mod_def mo_change_input_def mo_change_submod_def assert_not_locked'_def)
qed

text \<open>A module with one submodule, both without inputs.\<close>

definition pair_heap :: "unit heap" where
  "pair_heap = (hp_init (cw_init example_gen ()))\<lparr>hp_mods :=
     [0 \<mapsto> \<lparr>mo_pimpl = mp_new\<lparr>mp_base := Some 0, mp_submods := [(''Energy'',
             \<lparr>sr_desc = None, sr_type = Some (mk_rtti ''Energy''), sr_inputs = [], sr_module = Some 1\<rparr>)]\<rparr>, mo_name = None\<rparr>,
      1 \<mapsto> \<lparr>mo_pimpl = mp_new\<lparr>mp_base := Some 1\<rparr>, mo_name = None\<rparr>]\<rparr>"

lemma pair_heap_ready: "mod_ready 2 pair_heap (0, []) = Inr True"
proof -
  have "mod_ready (Suc 0) pair_heap (1, []) = Inr True"
    by (simp add: mod_ready_True_iff pair_heap_def mp_has_module_def mp_new_def)
  then show ?thesis
    unfolding numeral_2_eq_2 mod_ready_True_iff [of "Suc 0"]
    by (simp add: pair_heap_def mp_has_module_def mp_new_def sr_has_defs)
qed

lemma pair_heap_reaches: "reaches pair_heap 0 b \<longleftrightarrow> b = 0 \<or> b = 1"
proof -
  have s: "submod_of pair_heap a r c \<Longrightarrow> a = 0 \<and> c = 1" for a r c
    by (auto simp: submod_of_def pair_heap_def mp_new_def split: if_splits)
  have one: "reaches pair_heap 1 b \<longleftrightarrow> b = 1"
    using s by (subst reaches_iff) auto
  have "\<exists>r. submod_of pair_heap 0 r 1"
    by (auto simp: submod_of_def pair_heap_def mp_new_def)
  then have "(\<exists>r c. submod_of pair_heap 0 r c \<and> reaches pair_heap c b) \<longleftrightarrow> b = 1"
    using s one by blast
  then show ?thesis by (subst reaches_iff) auto
qed

theorem submodule_walks_end_witness:
  "mod_ready 5 pair_heap (0, []) = mod_ready 2 pair_heap (0, [])"
proof -
  have "ranked pair_heap (\<lambda>a. if a = 0 then 1 else 0)"
    by (auto simp: ranked_def submod_of_def pair_heap_def mp_new_def split: if_splits)
  from submodule_walks_end [OF this, of 0 5 "[]"] show ?thesis by (simp add: numeral_2_eq_2)
qed

theorem lock_locks_reachable_witness:
  "\<exists>h'. mod_lock 2 0 pair_heap = (Inr (), h') \<and> mod_locked h' 1 = Inr True \<and>
     mod_change_input 1 ''x'' (Arg_rvalue (CInt 1)) h' =
       (Inl (runtime_error ''Locked modules can not be modified''), h')"
proof -
  have "reaches pair_heap 0 1" by (simp add: pair_heap_reaches)
  moreover obtain m where "hp_mods pair_heap 1 = Some m" by (simp add: pair_heap_def)
  ultimately show ?thesis
    using lock_locks_reachable [OF pair_heap_ready, of "''x''" "Arg_rvalue (CInt 1)" None "mk_rtti ''Energy''"]
    by (simp add: Let_def)
qed

end
