(* ===== verification/Module_Run.thy ===== *)
theory Module_Run
  imports Module_Class
begin

text \<open>
  Running a module: \<open>ModulePIMPL::run\<close>, \<open>Module::run_as\<close>, \<open>SubmoduleRequest::run_as\<close> and the
  interpreter of the developer's algorithm, which calls submodules, and modules whose
  algorithm the library supplies (\<open>module/lambda_module.hpp\<close>, \<open>module/facade_module.hpp\<close>).
  \<open>pycast\<close> stands for the conversions of pybind11.
\<close>

section \<open>The algorithm\<close>

text \<open>What no handler of the program catches.\<close>

fun fatal :: "exn \<Rightarrow> bool" where
  "fatal Std_terminate = True"
| "fatal Undefined_behaviour = True"
| "fatal Out_of_fuel = True"
| "fatal e = False"

definition catchS :: "('s, 'a) op \<Rightarrow> ('a res \<Rightarrow> ('s, 'b) op) \<Rightarrow> ('s, 'b) op" where
  "catchS m k s = (case m s of
      (Inl e, s') \<Rightarrow> if fatal e then (Inl e, s') else k (Inl e) s'
    | (Inr x, s') \<Rightarrow> k (Inr x) s')"

primrec run_alg :: "(cval \<Rightarrow> cval res) \<Rightarrow> (string \<Rightarrow> property_type \<Rightarrow> pt_arg list \<Rightarrow> ('d heap, cval list) op)
    \<Rightarrow> 'd user_cache res \<Rightarrow> alg \<Rightarrow> ('d heap, result_map) op" where
  "run_alg pycast call cache (Ret r) = retS r"
| "run_alg pycast call cache (Raise e) = throwS e"
| "run_alg pycast call cache (Run_submod key pt args k) =
     catchS (call key pt args) (\<lambda>x. run_alg pycast call cache (k x))"
| "run_alg pycast call cache (Store key v k) =
     catchS (bindS (liftS cache) (\<lambda>c. on_cw (uc_cache c key v))) (\<lambda>x. run_alg pycast call cache (k x))"
| "run_alg pycast call cache (Fetch T key k) =
     catchS (bindS (liftS cache) (\<lambda>c. on_cw (\<lambda>w. (uc_uncache c pycast T key w, w)))) (\<lambda>x. run_alg pycast call cache (k x))"

section \<open>Running a module\<close>

text \<open>\<open>ModuleBase::run\<close> on copies of the inputs and of the requests, which point to the shared submodules.\<close>

definition mb_run_on :: "(cval \<Rightarrow> cval res) \<Rightarrow> (nat \<Rightarrow> property_type \<Rightarrow> pt_arg list \<Rightarrow> ('d heap, cval list) op)
    \<Rightarrow> 'd module_base \<Rightarrow> input_map \<Rightarrow> submodule_map \<Rightarrow> ('d heap, result_map) op" where
  "mb_run_on pycast run_as b inputs submods =
     bindS (liftS (im_copy inputs)) (\<lambda>i.
     bindS (liftS (om_copy sr_clone submods)) (\<lambda>s.
     run_alg pycast (\<lambda>key pt args. bindS (liftS (ci_at key s)) (sr_run_as run_as pt args))
       (mb_get_cache b) (mb_run b i s)))"

definition mod_run_as_by :: "(cval \<Rightarrow> cval res) \<Rightarrow> (nat \<Rightarrow> input_map \<Rightarrow> ('d heap, result_map) op)
    \<Rightarrow> nat \<Rightarrow> property_type \<Rightarrow> pt_arg list \<Rightarrow> ('d heap, cval list) op" where
  "mod_run_as_by pycast run a pt args =
     bindS (\<lambda>h. (check_property_type' h (pt_rtti pt) a, h)) (\<lambda>_.
     bindS (\<lambda>h. (bindR (mod_at h a) (\<lambda>m. bindR (mp_inputs' (mo_pimpl m)) im_copy), h)) (\<lambda>temp.
     bindS (liftS (pt_wrap_inputs pycast pt temp args)) (\<lambda>temp'.
     bindS (bindS (liftS (im_copy temp')) (run a)) (\<lambda>r.
     liftS (pt_unwrap_results pycast pt r)))))"

definition mod_run_as_py_by :: "(cval \<Rightarrow> cval res) \<Rightarrow> (nat \<Rightarrow> input_map \<Rightarrow> ('d heap, result_map) op)
    \<Rightarrow> nat \<Rightarrow> py_property_type \<Rightarrow> cval list \<Rightarrow> ('d heap, cval list) op" where
  "mod_run_as_py_by pycast run a pt args =
     bindS (\<lambda>h. (check_python_property_type' h (ppt_name pt) a, h)) (\<lambda>_.
     bindS (\<lambda>h. (bindR (mod_at h a) (\<lambda>m. bindR (mp_inputs' (mo_pimpl m)) im_copy), h)) (\<lambda>temp.
     bindS (liftS (ppt_wrap_inputs pt temp args)) (\<lambda>temp'.
     bindS (bindS (liftS (im_copy temp')) (run a)) (\<lambda>r.
     liftS (ppt_unwrap_results pycast pt r)))))"

text \<open>\<open>m_cache_->count\<close>, \<open>->cache\<close> and \<open>->uncache\<close>, when there is a cache.\<close>

definition cache_hit :: "'d module_cache option \<Rightarrow> bool \<Rightarrow> input_map \<Rightarrow> ('d heap, bool) op" where
  "cache_hit mc memo ps = (case mc of
      Some c \<Rightarrow> if memo then on_cw (\<lambda>w. (mc_count c ps w, w)) else retS False
    | None \<Rightarrow> retS False)"

definition uncached :: "'d module_cache \<Rightarrow> input_map \<Rightarrow> ('d heap, result_map) op" where
  "uncached c ps = on_cw (\<lambda>w. (mc_uncache c ps w, w))"

text \<open>The end of \<open>ModulePIMPL::run\<close>: there are no stored results.\<close>

definition mp_run_new :: "(cval \<Rightarrow> cval res) \<Rightarrow> nat \<Rightarrow> (nat \<Rightarrow> input_map \<Rightarrow> ('d heap, result_map) op)
    \<Rightarrow> nat \<Rightarrow> 'd module_pimpl \<Rightarrow> input_map \<Rightarrow> ('d heap, result_map) op" where
  "mp_run_new pycast n run a p ps =
     bindS (\<lambda>h. (mp_base_of h p, h)) (\<lambda>b.
     bindS (mb_run_on pycast (mod_run_as_by pycast run) b ps (mp_submods p)) (\<lambda>rv.
     case mp_cache p of
       None \<Rightarrow> retS rv
     | Some c \<Rightarrow>
         bindS (\<lambda>h. (mod_is_memoizable n h a, h)) (\<lambda>memo.
         if \<not> memo then retS rv
         else bindS (on_cw (mc_cache c ps rv)) (\<lambda>_. uncached c ps))))"

definition mp_run :: "(cval \<Rightarrow> cval res) \<Rightarrow> nat \<Rightarrow> (nat \<Rightarrow> input_map \<Rightarrow> ('d heap, result_map) op)
    \<Rightarrow> nat \<Rightarrow> input_map \<Rightarrow> ('d heap, result_map) op" where
  "mp_run pycast n run a ps =
     bindS (\<lambda>h. (mod_at h a, h)) (\<lambda>m. let p = mo_pimpl m in
     bindS (liftS (mp_assert_mod' p)) (\<lambda>_.
     if list_ex (\<lambda>(k, v). \<not> mi_ready v) ps then throwS (runtime_error ''Inputs are not ready'')
     else bindS (\<lambda>h. (mod_ready n h (a, ps), h)) (\<lambda>ok.
     if \<not> ok then bindS (liftS (mp_copy p)) (\<lambda>dummy.
                    bindS (\<lambda>h. (print_not_ready n h dummy ps [], h)) (\<lambda>s. throwS (runtime_error s)))
     else bindS (mod_lock n a) (\<lambda>_.
     bindS (\<lambda>h. (mod_merge_inputs n h a ps, h)) (\<lambda>ps'.
     bindS (\<lambda>h. (mod_is_memoizable n h a, h)) (\<lambda>memo.
     bindS (cache_hit (mp_cache p) memo ps') (\<lambda>hit.
     if hit then bindS (liftS (deref (mp_cache p))) (\<lambda>c. uncached c ps')
     else mp_run_new pycast n run a p ps')))))))"

fun mod_run :: "(cval \<Rightarrow> cval res) \<Rightarrow> nat \<Rightarrow> nat \<Rightarrow> input_map \<Rightarrow> ('d heap, result_map) op" where
  "mod_run pycast 0 a ps = throwS Out_of_fuel"
| "mod_run pycast (Suc n) a ps = mp_run pycast (Suc n) (mod_run pycast n) a ps"

definition mod_run_as :: "(cval \<Rightarrow> cval res) \<Rightarrow> nat \<Rightarrow> nat \<Rightarrow> property_type \<Rightarrow> pt_arg list \<Rightarrow> ('d heap, cval list) op" where
  "mod_run_as pycast n = mod_run_as_by pycast (mod_run pycast n)"

definition mod_run_as_py :: "(cval \<Rightarrow> cval res) \<Rightarrow> nat \<Rightarrow> nat \<Rightarrow> py_property_type \<Rightarrow> cval list \<Rightarrow> ('d heap, cval list) op" where
  "mod_run_as_py pycast n = mod_run_as_py_by pycast (mod_run pycast n)"

text \<open>\<open>ModulePIMPL::is_cached\<close>\<close>

definition mod_is_cached :: "nat \<Rightarrow> nat \<Rightarrow> input_map \<Rightarrow> ('d heap, bool) op" where
  "mod_is_cached n a in_inputs =
     bindS (\<lambda>h. (mod_at h a, h)) (\<lambda>m.
     case mp_cache (mo_pimpl m) of
       None \<Rightarrow> retS False
     | Some c \<Rightarrow> bindS (\<lambda>h. (mod_merge_inputs n h a in_inputs, h)) (\<lambda>ps. on_cw (\<lambda>w. (mc_count c ps w, w))))"

section \<open>Lambda and facade modules\<close>

text \<open>
  The algorithm of \<open>LambdaModule\<close>: unwrap the inputs, call the callback, wrap what it returns.
  \<open>rmap\<close> is the map of results the constructor makes.
\<close>

definition wrap_results' :: "property_type \<Rightarrow> result_map \<Rightarrow> cval list \<Rightarrow> result_map res" where
  "wrap_results' pt results rvs = bindR (rm_copy results) (\<lambda>rv_map. pt_wrap_results pt rv_map (map Pa_value rvs))"

definition lambda_fxn :: "(cval \<Rightarrow> cval res) \<Rightarrow> property_type \<Rightarrow> (cval list \<Rightarrow> cval list res) \<Rightarrow> result_map \<Rightarrow> input_map \<Rightarrow> alg" where
  "lambda_fxn pycast pt fxn results inputs =
     (case bindR (pt_unwrap_inputs pycast pt inputs) (\<lambda>unwrapped. bindR (fxn unwrapped) (wrap_results' pt results)) of
        Inl e \<Rightarrow> Raise e | Inr rm \<Rightarrow> Ret rm)"

definition lambda_rtti :: "string \<Rightarrow> property_type \<Rightarrow> rtti" where
  "lambda_rtti cls pt = mk_rtti (''pluginplay::detail_::'' @ cls @ ''<'' @ rt_name (pt_rtti pt) @ ''>'')"

definition lambda_module :: "(cval \<Rightarrow> cval res) \<Rightarrow> property_type \<Rightarrow> (cval list \<Rightarrow> cval list res) \<Rightarrow> 'd module_base res" where
  "lambda_module pycast pt fxn =
     bindR (mb_satisfies_property_type pycast pt (mb_new (lambda_rtti ''LambdaModule'' pt) (\<lambda>_ _. Ret []))) (\<lambda>b.
       Inr (b\<lparr>mb_run := (\<lambda>inputs _. lambda_fxn pycast pt fxn (mb_results b) inputs)\<rparr>))"

definition make_lambda :: "(cval \<Rightarrow> cval res) \<Rightarrow> property_type \<Rightarrow> (cval list \<Rightarrow> cval list res) \<Rightarrow> ('d heap, nat) op" where
  "make_lambda pycast pt fxn =
     bindS (liftS (lambda_module pycast pt fxn)) (\<lambda>l.
     bindS (on_cw generate_uuid) (\<lambda>u. mod_from_base (mb_set_uuid u l)))"

definition facade_module :: "(cval \<Rightarrow> cval res) \<Rightarrow> property_type \<Rightarrow> pt_arg list \<Rightarrow> 'd module_base res" where
  "facade_module pycast pt args =
     bindR (mb_satisfies_property_type pycast pt (mb_new (lambda_rtti ''FacadeModule'' pt) (\<lambda>_ _. Ret []))) (\<lambda>b.
     bindR (rm_copy (mb_results b)) (\<lambda>rv. bindR (pt_wrap_results pt rv args) (\<lambda>rs.
       Inr (b\<lparr>mb_run := (\<lambda>_ _. Ret rs)\<rparr>))))"

definition make_facade :: "(cval \<Rightarrow> cval res) \<Rightarrow> property_type \<Rightarrow> pt_arg list \<Rightarrow> ('d heap, nat) op" where
  "make_facade pycast pt args =
     bindS (liftS (facade_module pycast pt args)) (\<lambda>l.
     bindS (mod_from_base l) (\<lambda>lm.
     bindS (mod_turn_off_memoization lm) (\<lambda>_. retS lm)))"

section \<open>What a run leaves alone\<close>

definition keeps :: "'d heap \<Rightarrow> 'd heap \<Rightarrow> bool" where
  "keeps h h' \<longleftrightarrow> (\<exists>A w. h' = (lock_set A h)\<lparr>hp_cw := w\<rparr>)"

lemma lock_set_cw [simp]: "lock_set A (h\<lparr>hp_cw := w\<rparr>) = (lock_set A h)\<lparr>hp_cw := w\<rparr>"
  by (simp add: lock_set_def cong del: if_weak_cong)

lemma keepsI: "h' = (lock_set A h)\<lparr>hp_cw := w\<rparr> \<Longrightarrow> keeps h h'"
  by (auto simp: keeps_def)

lemma keeps_refl [simp]: "keeps h h"
  by (rule keepsI [where A = "{}" and w = "hp_cw h"]) simp

lemma keeps_trans: "keeps h1 h2 \<Longrightarrow> keeps h2 h3 \<Longrightarrow> keeps h1 h3"
  by (auto simp: keeps_def) blast

lemma keeps_lock [simp]: "keeps h (lock_set A h)"
  by (rule keepsI [where A = A and w = "hp_cw h"]) (simp add: lock_set_def)

lemma keeps_cw [simp]: "keeps h (h\<lparr>hp_cw := w\<rparr>)"
  by (rule keepsI [where A = "{}" and w = w]) simp

context frame_rule
begin

lemma preserves_catchS [frames]:
  assumes "preserves R m" and "\<And>x. preserves R (f x)"
  shows "preserves R (catchS m f)"
  unfolding preserves_def
proof
  fix s
  obtain r s1 where r: "m s = (r, s1)" by (cases "m s")
  have s1: "R s s1" by (rule preservesD [OF assms(1) r])
  moreover have "R s1 (snd (f r s1))" using assms(2) by (simp add: preserves_def)
  ultimately have "R s (snd (f r s1))" by (rule R_trans)
  with s1 show "R s (snd (catchS m f s))" by (cases r) (auto simp: catchS_def r)
qed

end

interpretation run_frames: frame_rule keeps
  by unfold_locales (simp, rule keeps_trans)

lemma frame_on_cw [frames]: "preserves keeps (on_cw m)"
  by (simp add: preserves_def on_cw_def split: prod.split)

lemma frame_lock' [frames]: "preserves keeps (modS (upd_mod a lock'))"
  by (simp add: preserves_def)

lemma frame_mod_lock [frames]: "preserves keeps (mod_lock n a)"
proof (induction n arbitrary: a)
  case (Suc n)
  show ?case by (auto simp: mp_lock_def srp_lock_def intro!: frames Suc)
qed (simp add: frames)

lemma frame_run_alg [frames]: "(\<And>key pt args. preserves keeps (call key pt args)) \<Longrightarrow> preserves keeps (run_alg pycast call cache g)"
  by (induction g) (auto intro!: frames)

lemma frame_run_as_by [frames]: "(\<And>a ps. preserves keeps (run a ps)) \<Longrightarrow> preserves keeps (mod_run_as_by pycast run a pt args)"
  unfolding mod_run_as_by_def by (intro frames)

lemma frame_mp_run [frames]:
  assumes "\<And>a ps. preserves keeps (run a ps)"
  shows "preserves keeps (mp_run pycast n run a ps)"
proof -
  have alg: "preserves keeps (mb_run_on pycast (mod_run_as_by pycast run) b i s)" for b i s
    unfolding mb_run_on_def sr_run_as_def using assms by (intro frames) (auto intro!: frames)
  have "preserves keeps (cache_hit c memo i)" for c memo i
    unfolding cache_hit_def by (auto intro!: frames split: option.split)
  then show ?thesis
    unfolding mp_run_def mp_run_new_def Let_def uncached_def
    by (auto intro!: frames alg split: option.split)
qed

lemma frame_mod_run [frames]: "preserves keeps (mod_run pycast n a ps)"
  by (induction n arbitrary: a ps) (auto intro!: frames)

lemma run_keeps: "keeps h (snd (mod_run pycast n a ps h))"
  using frame_mod_run [of pycast n a ps] unfolding preserves_def by blast

text \<open>What is kept: every query but \<open>locked\<close> gives the same answer.\<close>

lemma mod_at_cw [simp]: "mod_at (h\<lparr>hp_cw := w\<rparr>) = mod_at h" "base_at (h\<lparr>hp_cw := w\<rparr>) = base_at h"
  by (simp_all add: fun_eq_iff mod_at_def base_at_def)

lemma query_cw [simp]:
  "mod_ready n (h\<lparr>hp_cw := w\<rparr>) = mod_ready n h"
  "mod_is_memoizable n (h\<lparr>hp_cw := w\<rparr>) = mod_is_memoizable n h"
  "mod_submod_uuids n (h\<lparr>hp_cw := w\<rparr>) = mod_submod_uuids n h"
  "mod_merge_inputs n (h\<lparr>hp_cw := w\<rparr>) = mod_merge_inputs n h"
  "mp_base_of (h\<lparr>hp_cw := w\<rparr>) = mp_base_of h"
  "reaches (h\<lparr>hp_cw := w\<rparr>) = reaches h"
proof -
  have b: "mp_base_of (h\<lparr>hp_cw := w\<rparr>) = mp_base_of h" by (simp add: fun_eq_iff mp_base_of_def)
  have u: "mod_uuid (h\<lparr>hp_cw := w\<rparr>) = mod_uuid h" by (simp add: fun_eq_iff mod_uuid_def mp_uuid_def b)
  have "mod_ready_step (h\<lparr>hp_cw := w\<rparr>) = mod_ready_step h" by (simp add: fun_eq_iff mod_ready_step_def)
  then show "mod_ready n (h\<lparr>hp_cw := w\<rparr>) = mod_ready n h" by (simp add: mod_ready_def)
  have "memo_step (h\<lparr>hp_cw := w\<rparr>) = memo_step h" by (simp add: fun_eq_iff memo_step_def mp_is_memoizable_def b)
  then show "mod_is_memoizable n (h\<lparr>hp_cw := w\<rparr>) = mod_is_memoizable n h" by (simp add: mod_is_memoizable_def)
  have "uuids_step (h\<lparr>hp_cw := w\<rparr>) = uuids_step h" by (simp add: fun_eq_iff uuids_step_def u)
  then show s: "mod_submod_uuids n (h\<lparr>hp_cw := w\<rparr>) = mod_submod_uuids n h" by (simp add: mod_submod_uuids_def)
  show "mod_merge_inputs n (h\<lparr>hp_cw := w\<rparr>) = mod_merge_inputs n h"
    by (simp add: fun_eq_iff mod_merge_inputs_def s u)
  show "mp_base_of (h\<lparr>hp_cw := w\<rparr>) = mp_base_of h" by (rule b)
  have "submod_of (h\<lparr>hp_cw := w\<rparr>) = submod_of h" by (simp add: fun_eq_iff submod_of_def)
  then show "reaches (h\<lparr>hp_cw := w\<rparr>) = reaches h"
    by (intro ext iffI) (erule reaches_mono, simp)+
qed

lemma mp_base_of_lock [simp]: "mp_base_of (lock_set A h) = mp_base_of h"
  by (simp add: fun_eq_iff)

lemma keeps_query:
  assumes "keeps h h'"
  shows "mod_ready n h' = mod_ready n h" "mod_is_memoizable n h' = mod_is_memoizable n h"
    "mod_merge_inputs n h' = mod_merge_inputs n h" "mp_base_of h' = mp_base_of h" "reaches h' = reaches h"
  using assms by (auto simp: keeps_def)

end
