(* ===== verification/Memoization.thy ===== *)
theory Memoization
  imports Module_Run
begin

text \<open>
  What a run of a module promises its caller: how given and bound inputs are merged into the
  key results are stored under, when a run is refused, when it is answered from the cache
  and what it leaves in the cache.  The theory adds no code of the program but proves what the
  definitions of \<open>Module_Run\<close>, the modules and the caches do together.
\<close>

section \<open>Merging inputs\<close>

lemma mi_copy_ok:
  assumes "input_ok v"
  obtains v' where "mi_copy v = Inr v'" "input_ok v'" "same_input v v'"
    "any_val (mip_value (mi_pimpl v')) = any_val (mip_value (mi_pimpl v))" "mi_ready v'"
proof -
  let ?a = "make_any_field By_value (any_val (mip_value (mi_pimpl v)))"
  have c: "mi_copy v = Inr (v\<lparr>mi_pimpl := (mi_pimpl v)\<lparr>mip_value := ?a\<rparr>\<rparr>)"
    using assms by (simp add: mi_copy_def mip_clone_def any_copy_cxx input_ok_def)
  obtain w where w: "mip_value (mi_pimpl v) = Some w" "cval_ok (aw_value w)" "\<not> is_py (aw_value w)"
    using assms by (cases "mip_value (mi_pimpl v)") (auto simp: input_ok_def)
  show ?thesis
    by (rule that [OF c]) (use w in \<open>auto simp: input_ok_def make_any_field_def mi_ready_def mip_is_ready_def
        mip_has_value_def any_has_value_def\<close>)
qed

abbreviation bind_input :: "string \<times> module_input \<Rightarrow> input_map \<Rightarrow> input_map res" where
  "bind_input \<equiv> \<lambda>(k, v) rv. if ci_count k rv then Inr rv else bindR (mi_copy v) (\<lambda>v'. Inr (ci_set k v' rv))"

definition bound_in :: "input_map \<Rightarrow> input_map \<Rightarrow> input_map \<Rightarrow> bool" where
  "bound_in acc ins r \<longleftrightarrow> (\<forall>k. case ci_find k acc of Some v \<Rightarrow> ci_find k r = Some v
       | None \<Rightarrow> map_option Inr (ci_find k r) = map_option mi_copy (ci_find k ins))"

lemma bound_in_present:
  assumes "ci_count k0 acc" and "bound_in acc ins r"
  shows "bound_in acc ((k0, v0) # ins) r"
  unfolding bound_in_def
proof
  fix k
  have "ci_find k acc = None \<Longrightarrow> ci_fold k0 \<noteq> ci_fold k"
    using assms(1) om_find_cong_key [of ci_fold k0 k acc] by (auto simp: om_count_def)
  then show "case ci_find k acc of Some v \<Rightarrow> ci_find k r = Some v
       | None \<Rightarrow> map_option Inr (ci_find k r) = map_option mi_copy (ci_find k ((k0, v0) # ins))"
    using assms(2) [unfolded bound_in_def, THEN spec [of _ k]] by (cases "ci_find k acc") simp_all
qed

lemma bound_in_absent:
  assumes "\<not> ci_count k0 acc" and "mi_copy v0 = Inr v'" and "bound_in (ci_set k0 v' acc) ins r"
  shows "bound_in acc ((k0, v0) # ins) r"
  unfolding bound_in_def
proof
  fix k
  have r: "case ci_find k (ci_set k0 v' acc) of Some v \<Rightarrow> ci_find k r = Some v
       | None \<Rightarrow> map_option Inr (ci_find k r) = map_option mi_copy (ci_find k ins)"
    using assms(3) unfolding bound_in_def by blast
  show "case ci_find k acc of Some v \<Rightarrow> ci_find k r = Some v
       | None \<Rightarrow> map_option Inr (ci_find k r) = map_option mi_copy (ci_find k ((k0, v0) # ins))"
  proof (cases "ci_fold k0 = ci_fold k")
    case True
    then have "ci_find k acc = None" "ci_find k (ci_set k0 v' acc) = Some v'"
      using assms(1) om_find_cong_key [of ci_fold k0 k acc] by (auto simp: om_count_def om_find_set)
    then show ?thesis using r assms(2) True by simp
  next
    case False
    then have "ci_find k (ci_set k0 v' acc) = ci_find k acc" by (auto simp: om_find_set)
    then show ?thesis using r False by (simp split: option.splits)
  qed
qed

lemma bind_loop:
  assumes "map_ok input_ok acc" and "\<forall>(k, v) \<in> set ins. input_ok v"
  shows "\<exists>r. foldR bind_input ins acc = Inr r \<and> map_ok input_ok r \<and> bound_in acc ins r"
  using assms
proof (induction ins arbitrary: acc)
  case Nil
  then show ?case by (auto simp: bound_in_def split: option.splits)
next
  case (Cons p ins)
  obtain k0 v0 where p: "p = (k0, v0)" by (cases p)
  show ?case
  proof (cases "ci_count k0 acc")
    case True
    obtain r where "foldR bind_input ins acc = Inr r" "map_ok input_ok r" "bound_in acc ins r"
      using Cons.IH [OF Cons.prems(1)] Cons.prems(2) by auto
    then show ?thesis using bound_in_present [OF True] True by (simp add: p)
  next
    case False
    obtain v' where v': "mi_copy v0 = Inr v'" "input_ok v'"
      using Cons.prems(2) mi_copy_ok [of v0] by (auto simp: p)
    have "map_ok input_ok (ci_set k0 v' acc)"
      using Cons.prems(1) v'(2) False by (auto simp: map_ok_def om_set_def om_count_def set_om_ins om_wf_ins)
    then obtain r where "foldR bind_input ins (ci_set k0 v' acc) = Inr r" "map_ok input_ok r"
        "bound_in (ci_set k0 v' acc) ins r"
      using Cons.IH [of "ci_set k0 v' acc"] Cons.prems(2) by auto
    then show ?thesis using bound_in_absent [OF False v'(1)] False v'(1) by (simp add: p)
  qed
qed

lemma im_copy_ok:
  assumes "map_ok input_ok m"
  obtains m' where "im_copy m = Inr m'" "map_ok input_ok m'" "same_map same_input m m'"
    "\<And>k. map_option Inr (ci_find k m') = map_option mi_copy (ci_find k m)"
    "list_all (\<lambda>(k, v). mi_ready v) m'"
proof -
  have "\<exists>m'. im_copy m = Inr m' \<and> (\<forall>(k, v) \<in> set m'. input_ok v \<and> mi_ready v) \<and> same_map same_input m m' \<and>
      map fst m' = map fst m \<and> (\<forall>k. map_option Inr (ci_find k m') = map_option mi_copy (ci_find k m))"
    if "\<forall>(k, v) \<in> set m. input_ok v"
    using that
  proof (induction m)
    case (Cons p m)
    obtain k v where p: "p = (k, v)" by (cases p)
    have "input_ok v" using Cons.prems by (simp add: p)
    then obtain v' where "mi_copy v = Inr v'" "input_ok v'" "same_input v v'" "mi_ready v'"
      by (rule mi_copy_ok)
    then show ?case using Cons by (auto simp: p om_copy_def same_map_def)
  qed (simp add: om_copy_def same_map_def)
  then obtain m' where "im_copy m = Inr m'" "\<forall>(k, v) \<in> set m'. input_ok v \<and> mi_ready v" "same_map same_input m m'"
      "map fst m' = map fst m" "\<forall>k. map_option Inr (ci_find k m') = map_option mi_copy (ci_find k m)"
    using assms by (auto simp: map_ok_def)
  then show ?thesis
    using assms that [of m'] om_wf_keys [of m' m ci_fold] by (auto simp: map_ok_def list_all_iff)
qed

lemma uuids_input_ok:
  obtains i where "uuids_input u = Inr i" "mip_value (mi_pimpl i) = make_any_field By_value (CUuids u)" "input_ok i"
proof -
  obtain i where "uc_wrap_inputs' (CUuids u) = Inr [('''', i)]"
      and i: "mip_value (mi_pimpl i) = make_any_field By_value (CUuids u)"
    using wrap_inputs_cxx [of "CUuids u"] by auto
  then have "uuids_input u = Inr i"
    by (auto simp: uuids_input_def uc_wrap_inputs'_def bindR_Inr_iff split: prod.splits sum.splits)
  then show ?thesis by (rule that [OF _ i]) (simp add: i input_ok_def)
qed

text \<open>The input of the merged map that a name finds: the given one, else the bound one.\<close>

definition effective_input :: "input_map \<Rightarrow> input_map \<Rightarrow> string \<Rightarrow> module_input option" where
  "effective_input given bound k = (case ci_find k given of Some v \<Rightarrow> Some v | None \<Rightarrow> ci_find k bound)"

lemma merge_loop:
  assumes "map_ok input_ok given" and "map_ok input_ok bound"
  obtains given' r where "im_copy given = Inr given'" "foldR bind_input bound given' = Inr r" "map_ok input_ok r"
    "\<And>k. map_option Inr (ci_find k r) = map_option mi_copy (effective_input given bound k)"
proof -
  obtain given' where g: "im_copy given = Inr given'" "map_ok input_ok given'"
      "\<And>k. map_option Inr (ci_find k given') = map_option mi_copy (ci_find k given)"
    by (rule im_copy_ok [OF assms(1)]) blast
  obtain r where r: "foldR bind_input bound given' = Inr r" "map_ok input_ok r" "bound_in given' bound r"
    using bind_loop [OF g(2), of bound] assms(2) by (auto simp: map_ok_def)
  have "map_option Inr (ci_find k r) = map_option mi_copy (effective_input given bound k)" for k
    using g(3) [of k] r(3) [unfolded bound_in_def, THEN spec [of _ k]]
    by (cases "ci_find k given"; cases "ci_find k given'") (simp_all add: effective_input_def)
  then show ?thesis by (rule that [OF g(1) r(1,2)])
qed

text \<open>The key of a run: its inputs and the UUIDs of the submodules.\<close>

definition memo_key :: "input_map \<Rightarrow> input_map \<Rightarrow> (string \<times> uuid) list \<Rightarrow> input_map \<Rightarrow> bool" where
  "memo_key given bound uuids key \<longleftrightarrow> map_ok input_ok key \<and>
     (\<forall>k. if ci_fold k = ci_fold submod_key \<and> effective_input given bound k = None
          then \<exists>i. ci_find k key = Some i \<and> mip_value (mi_pimpl i) = make_any_field By_value (CUuids uuids)
          else map_option Inr (ci_find k key) = map_option mi_copy (effective_input given bound k))"

lemma merge_ok:
  assumes "hp_mods h a = Some m" and "mp_has_module (mo_pimpl m)"
    and "map_ok input_ok given" and "map_ok input_ok (mp_inputs (mo_pimpl m))"
    and "mod_submod_uuids (Suc n) h a = Inr uuids"
  shows "\<exists>key. mod_merge_inputs n h a given = Inr key \<and>
    memo_key given (mp_inputs (mo_pimpl m)) uuids key"
proof -
  let ?bound = "mp_inputs (mo_pimpl m)"
  obtain given' r where r: "im_copy given = Inr given'" "foldR bind_input ?bound given' = Inr r" "map_ok input_ok r"
      "\<And>k. map_option Inr (ci_find k r) = map_option mi_copy (effective_input given ?bound k)"
    by (rule merge_loop [OF assms(3,4)]) blast
  obtain i where i: "uuids_input uuids = Inr i" "mip_value (mi_pimpl i) = make_any_field By_value (CUuids uuids)" "input_ok i"
    by (rule uuids_input_ok)
  obtain i' where i': "mi_copy i = Inr i'" "input_ok i'"
      "any_val (mip_value (mi_pimpl i')) = any_val (mip_value (mi_pimpl i))"
    by (rule mi_copy_ok [OF i(3)]) blast
  have v: "mip_value (mi_pimpl i') = make_any_field By_value (CUuids uuids)"
    using i'(1) i(2) by (auto simp: mi_copy_def mip_clone_def any_copy_cxx make_any_field_def bindR_Inr_iff)
  have u: "mp_submod_uuids (mod_submod_uuids n h) (mod_uuid h) (mo_pimpl m) = Inr uuids"
    using assms(1,5) by (simp add: mod_submod_uuids_def uuids_step_def mod_at_def)
  have "map_ok input_ok (ci_emplace submod_key i' r)"
    using r(3) i'(2) om_wf_emplace [of ci_fold r submod_key i'] by (auto simp: map_ok_def om_emplace_def set_om_ins)
  moreover have "mod_merge_inputs n h a given = Inr (ci_emplace submod_key i' r)"
    using assms(1) r(1,2) i(1) i'(1) u by (simp add: mod_merge_inputs_def mp_merge_inputs'_def mod_at_def)
  moreover have "if ci_fold k = ci_fold submod_key \<and> effective_input given ?bound k = None
      then \<exists>i. ci_find k (ci_emplace submod_key i' r) = Some i \<and>
        mip_value (mi_pimpl i) = make_any_field By_value (CUuids uuids)
      else map_option Inr (ci_find k (ci_emplace submod_key i' r)) =
        map_option mi_copy (effective_input given ?bound k)" for k
  proof (cases "ci_fold k = ci_fold submod_key")
    case True
    then have "ci_find submod_key r = ci_find k r" by (auto intro: om_find_cong_key)
    then show ?thesis
      using r(4) [of k] v True by (cases "effective_input given ?bound k") (auto simp: om_find_emplace)
  next
    case False
    then have "ci_find k (ci_emplace submod_key i' r) = ci_find k r" by (auto simp: om_find_emplace)
    then show ?thesis using r(4) [of k] False by simp
  qed
  ultimately show ?thesis by (auto simp: memo_key_def)
qed

section \<open>A run, step by step\<close>

lemma bindS_query [simp]:
  "bindS (\<lambda>s. (q s, s)) f s = (case q s of Inl e \<Rightarrow> (Inl e, s) | Inr x \<Rightarrow> f x s)"
  by (simp add: bindS_def split: sum.split)

lemma mod_ready_has_module:
  assumes "mod_ready n h (a, ps) = Inr True"
  obtains n' m where "n = Suc n'" "hp_mods h a = Some m" "mp_has_module (mo_pimpl m)"
  using assms by (cases n) (auto simp: mod_ready_True_iff, simp add: mod_ready_def)

lemma run_ready:
  assumes "hp_mods h a = Some m" and "list_all (\<lambda>(k, v). mi_ready v) ps" and "mod_ready n h (a, ps) = Inr True"
    and "mod_merge_inputs n h a ps = Inr key" and "mod_is_memoizable n h a = Inr memo"
  shows "mod_run pycast n a ps h =
    bindS (cache_hit (mp_cache (mo_pimpl m)) memo key) (\<lambda>hit.
      if hit then bindS (liftS (deref (mp_cache (mo_pimpl m)))) (\<lambda>c. uncached c key)
      else mp_run_new pycast n (mod_run pycast (n - 1)) a (mo_pimpl m) key) (lock_set {b. reaches h a b} h)"
proof -
  obtain n' where n: "n = Suc n'" and m: "mp_has_module (mo_pimpl m)"
    using mod_ready_has_module [OF assms(3)] assms(1) by auto
  have "\<not> list_ex (\<lambda>(k, v). \<not> mi_ready v) ps"
    using assms(2) by (auto simp: list_all_iff list_ex_iff)
  moreover have "mod_lock n a h = (Inr (), lock_set {b. reaches h a b} h)"
    using mod_lock_ready [OF assms(3), of "{}"] by simp
  ultimately show ?thesis
    using assms m unfolding n
    by (simp add: mp_run_def Let_def mod_at_def mp_assert_mod'_def bindS_Inr del: mod_lock.simps cong del: if_weak_cong)
qed

lemma run_refused:
  assumes "hp_mods h a = Some m"
  shows "\<not> mp_has_module (mo_pimpl m) \<Longrightarrow>
      mod_run pycast (Suc n) a ps h = (Inl (runtime_error ''Module does not contain an implementation''), h)"
    and "mp_has_module (mo_pimpl m) \<Longrightarrow> (k, v) \<in> set ps \<Longrightarrow> \<not> mi_ready v \<Longrightarrow>
      mod_run pycast (Suc n) a ps h = (Inl (runtime_error ''Inputs are not ready''), h)"
    and "mod_ready (Suc n) h (a, ps) \<noteq> Inr True \<Longrightarrow> \<exists>e. mod_run pycast (Suc n) a ps h = (Inl e, h)"
proof -
  show 1: "mod_run pycast (Suc n) a ps h = (Inl (runtime_error ''Module does not contain an implementation''), h)"
    if "\<not> mp_has_module (mo_pimpl m)"
    using assms that by (simp add: mp_run_def Let_def mod_at_def mp_assert_mod'_def)
  have list: "list_ex (\<lambda>(k, v). \<not> mi_ready v) ps \<Longrightarrow> mp_has_module (mo_pimpl m) \<Longrightarrow>
      mod_run pycast (Suc n) a ps h = (Inl (runtime_error ''Inputs are not ready''), h)"
    using assms by (simp add: mp_run_def Let_def mod_at_def mp_assert_mod'_def)
  then show "mp_has_module (mo_pimpl m) \<Longrightarrow> (k, v) \<in> set ps \<Longrightarrow> \<not> mi_ready v \<Longrightarrow>
      mod_run pycast (Suc n) a ps h = (Inl (runtime_error ''Inputs are not ready''), h)"
    by (auto simp: list_ex_iff)
  show "\<exists>e. mod_run pycast (Suc n) a ps h = (Inl e, h)" if r: "mod_ready (Suc n) h (a, ps) \<noteq> Inr True"
  proof (cases "mp_has_module (mo_pimpl m) \<and> \<not> list_ex (\<lambda>(k, v). \<not> mi_ready v) ps")
    case True
    show ?thesis
    proof (cases "mod_ready (Suc n) h (a, ps)")
      case (Inr b)
      then have "\<not> b" using r by auto
      then show ?thesis
        using assms True Inr
        by (cases "mp_copy (mo_pimpl m)"; cases "print_not_ready (Suc n) h (projr (mp_copy (mo_pimpl m))) ps []")
          (simp_all add: mp_run_def Let_def mod_at_def mp_assert_mod'_def)
    qed (use assms True in \<open>simp add: mp_run_def Let_def mod_at_def mp_assert_mod'_def\<close>)
  qed (use 1 list in blast)
qed

lemma on_cw_query [simp]: "on_cw (\<lambda>w. (q w, w)) h = (q (hp_cw h), h)"
  by (simp add: on_cw_def)

lemma uncached_eval [simp]: "uncached c ps h = (mc_uncache c ps (hp_cw h), h)"
  by (simp add: uncached_def)

lemma cache_hit_memory:
  assumes "implements (hp_cw h) S" and "map_ok input_ok key"
  shows "cache_hit (Some (memory_cache c)) memo key h = (Inr (memo \<and> S c key \<noteq> None), h)"
  using implements_query(1) [OF assms, of c] by (simp add: cache_hit_def)

lemma implements_lock: "implements (hp_cw (lock_set A h)) S \<longleftrightarrow> implements (hp_cw h) S"
  by simp

lemma run_hit:
  assumes "hp_mods h a = Some m" and "mp_cache (mo_pimpl m) = Some (memory_cache c)"
    and "list_all (\<lambda>(k, v). mi_ready v) ps" and "mod_ready n h (a, ps) = Inr True"
    and "mod_merge_inputs n h a ps = Inr key" and "map_ok input_ok key"
    and "mod_is_memoizable n h a = Inr True"
    and "implements (hp_cw h) S" and "S c key = Some r"
  shows "mod_run pycast n a ps h = (Inr r, lock_set {b. reaches h a b} h)"
proof -
  let ?h = "lock_set {b. reaches h a b} h"
  have "implements (hp_cw ?h) S" using assms(8) by simp
  note hit = cache_hit_memory [OF this assms(6), of c True] and val = implements_query(2) [OF this assms(6), of c]
  show ?thesis
    using hit val assms(9) unfolding run_ready [OF assms(1,3,4,5,7)] by (simp add: assms(2) bindS_Inr)
qed

lemma run_miss:
  assumes "hp_mods h a = Some m" and "list_all (\<lambda>(k, v). mi_ready v) ps" and "mod_ready n h (a, ps) = Inr True"
    and "mod_merge_inputs n h a ps = Inr key" and "mod_is_memoizable n h a = Inr memo"
    and "cache_hit (mp_cache (mo_pimpl m)) memo key (lock_set {b. reaches h a b} h) = (Inr False, lock_set {b. reaches h a b} h)"
    and "mp_base_of h (mo_pimpl m) = Inr b"
    and "mb_run_on pycast (mod_run_as pycast (n - 1)) b key (mp_submods (mo_pimpl m)) (lock_set {b. reaches h a b} h) = (r, h1)"
    and "keeps h h1"
  shows "mod_run pycast n a ps h = (case r of Inl e \<Rightarrow> (Inl e, h1) | Inr rv \<Rightarrow>
      (case mp_cache (mo_pimpl m) of None \<Rightarrow> (Inr rv, h1) | Some c \<Rightarrow>
        if memo then bindS (on_cw (mc_cache c key rv)) (\<lambda>_. uncached c key) h1 else (Inr rv, h1)))"
proof -
  have memo1: "mod_is_memoizable n h1 a = Inr memo" using keeps_query(2) [OF assms(9)] assms(5) by simp
  have run: "mb_run_on pycast (mod_run_as_by pycast (mod_run pycast (n - 1))) b key (mp_submods (mo_pimpl m))
      (lock_set {b. reaches h a b} h) = (r, h1)"
    using assms(8) by (simp add: mod_run_as_def)
  have "mod_run pycast n a ps h = mp_run_new pycast n (mod_run pycast (n - 1)) a (mo_pimpl m) key (lock_set {b. reaches h a b} h)"
    unfolding run_ready [OF assms(1-5)] bindS_def assms(6) by simp
  moreover have "mp_base_of (lock_set {b. reaches h a b} h) (mo_pimpl m) = Inr b" using assms(7) by simp
  ultimately show ?thesis
    using memo1 run by (cases r; cases "mp_cache (mo_pimpl m)") (simp_all add: mp_run_new_def bindS_def)
qed

lemma alg_keeps:
  "keeps h (snd (mb_run_on pycast (mod_run_as pycast n) b key submods h))"
proof -
  have "preserves keeps (mb_run_on pycast (mod_run_as_by pycast (mod_run pycast n)) b key submods)"
    unfolding mb_run_on_def sr_run_as_def by (intro frames) (auto intro!: frames)
  then show ?thesis unfolding preserves_def mod_run_as_def by blast
qed

section \<open>Memoized runs\<close>

text \<open>The run of module \<open>a\<close> on \<open>ps\<close> can use its cache, number \<open>c\<close>, and looks results up under \<open>key\<close>.\<close>

definition memo_ready :: "nat \<Rightarrow> 'd heap \<Rightarrow> nat \<Rightarrow> input_map \<Rightarrow> nat \<Rightarrow> input_map \<Rightarrow> bool" where
  "memo_ready n h a ps c key \<longleftrightarrow>
     (\<exists>m. hp_mods h a = Some m \<and> mp_cache (mo_pimpl m) = Some (memory_cache c)) \<and>
     list_all (\<lambda>(k, v). mi_ready v) ps \<and> mod_ready n h (a, ps) = Inr True \<and>
     mod_merge_inputs n h a ps = Inr key \<and> map_ok input_ok key \<and> mod_is_memoizable n h a = Inr True"

lemma memo_ready_keeps:
  assumes "memo_ready n h a ps c key" and "keeps h h'"
  shows "memo_ready n h' a ps c key"
proof -
  obtain A w where h': "h' = (lock_set A h)\<lparr>hp_cw := w\<rparr>" using assms(2) by (auto simp: keeps_def)
  then have "hp_mods h' a = (if a \<in> A then map_option lock' (hp_mods h a) else hp_mods h a)"
    by (simp add: lock_set_mods)
  then show ?thesis using assms(1) keeps_query [OF assms(2)] by (auto simp: memo_ready_def)
qed

lemma run_hit':
  assumes "memo_ready n h a ps c key" and "implements (hp_cw h) S" and "S c key = Some r"
  shows "mod_run pycast n a ps h = (Inr r, lock_set {b. reaches h a b} h)"
  using assms(1) unfolding memo_ready_def by (elim exE conjE) (rule run_hit [OF _ _ _ _ _ _ _ assms(2,3)])

lemma run_miss_memo:
  assumes "memo_ready n h a ps c key" and "implements (hp_cw h) S" and "S c key = None"
    and "hp_mods h a = Some m" and "mp_base_of h (mo_pimpl m) = Inr b"
    and "mb_run_on pycast (mod_run_as pycast (n - 1)) b key (mp_submods (mo_pimpl m)) (lock_set {b. reaches h a b} h) = (r, h1)"
    and "implements (hp_cw h1) S1"
  shows "case r of Inl e \<Rightarrow> mod_run pycast n a ps h = (Inl e, h1)
    | Inr rv \<Rightarrow> \<exists>w. mod_run pycast n a ps h = (Inr rv, h1\<lparr>hp_cw := w\<rparr>) \<and>
        implements w (spec_event (Ev_cache c key rv) S1) \<and> spec_event (Ev_cache c key rv) S1 c key = Some rv \<and>
        keeps (lock_set {b. reaches h a b} h) (h1\<lparr>hp_cw := w\<rparr>)"
proof -
  let ?h = "lock_set {b. reaches h a b} h"
  have k1: "keeps ?h h1" using alg_keeps [of ?h pycast "n - 1" b key "mp_submods (mo_pimpl m)"] assms(6) by simp
  then have k: "keeps h h1" using keeps_trans keeps_lock by blast
  have c: "mp_cache (mo_pimpl m) = Some (memory_cache c)" and ok: "map_ok input_ok key"
    using assms(1,4) by (auto simp: memo_ready_def)
  have "implements (hp_cw ?h) S" using assms(2) by simp
  from cache_hit_memory [OF this ok, of c True]
  have hit: "cache_hit (mp_cache (mo_pimpl m)) True key ?h = (Inr False, ?h)"
    by (simp add: c assms(3))
  have run: "mod_run pycast n a ps h = (case r of Inl e \<Rightarrow> (Inl e, h1)
      | Inr rv \<Rightarrow> bindS (on_cw (mc_cache (memory_cache c) key rv)) (\<lambda>_. uncached (memory_cache c) key) h1)"
    using run_miss [OF assms(4) _ _ _ _ hit assms(5,6) k] assms(1)
    by (simp add: memo_ready_def c split: sum.splits)
  show ?thesis
  proof (cases r)
    case (Inr rv)
    obtain w where w: "mc_cache (memory_cache c) key rv (hp_cw h1) = (Inr (), w)"
        "implements w (spec_event (Ev_cache c key rv) S1)"
      using implements_cache [OF assms(7) ok] by blast
    have same: "same_map same_input key key" by (simp add: same_map_def list_all2_refl case_prod_unfold)
    then have "mc_uncache (memory_cache c) key w = Inr rv"
      using implements_query(2) [OF w(2) ok, of c] by simp
    then have "mod_run pycast n a ps h = (Inr rv, h1\<lparr>hp_cw := w\<rparr>)"
      using run by (simp add: Inr bindS_def on_cw_def w(1))
    moreover have "keeps ?h (h1\<lparr>hp_cw := w\<rparr>)" using k1 keeps_trans keeps_cw by blast
    ultimately show ?thesis using w(2) same by (auto simp: Inr)
  qed (simp add: run)
qed

lemma locked_again: "keeps (lock_set A h) h' \<Longrightarrow> lock_set A h' = h'"
  by (auto simp: keeps_def Un_ac)

section \<open>Properties\<close>


text \<open>C3: A run that is refused has no effect. Without an implementation, with a given input that is
  not ready, or when the module is not ready for the inputs given, a run throws and leaves
  everything, locks and caches included, as it was.\<close>

theorem run_refused_unchanged:
  assumes "hp_mods h a = Some m"
  shows "(\<not> mp_has_module (mo_pimpl m) \<longrightarrow>
      mod_run pycast (Suc n) a ps h = (Inl (runtime_error ''Module does not contain an implementation''), h)) \<and>
    (mp_has_module (mo_pimpl m) \<and> (\<exists>(k, v) \<in> set ps. \<not> mi_ready v) \<longrightarrow>
      mod_run pycast (Suc n) a ps h = (Inl (runtime_error ''Inputs are not ready''), h)) \<and>
    (mod_ready (Suc n) h (a, ps) \<noteq> Inr True \<longrightarrow> (\<exists>e. mod_run pycast (Suc n) a ps h = (Inl e, h)))"
  using run_refused [OF assms] by blast

theorem run_refused_unchanged_witness:
  "mod_run Inr 1 0 [(''Option'', mi_new)] option_heap = (Inl (runtime_error ''Inputs are not ready''), option_heap)"
  using run_refused_unchanged [of option_heap 0 option_module Inr 0 "[(''Option'', mi_new)]"]
  by (simp add: option_heap_def option_module_def mp_has_module_def mi_ready_def mi_new_def mip_new_def
      mip_is_ready_def mip_is_optional_def mip_has_value_def any_has_value_def)

text \<open>C4: Which inputs a module computes with. When all inputs hold C++ values, merging succeeds, and
  the merged map holds under each name (of any case) a copy of the input that was given, or
  else of the one bound to the module, or else nothing; in addition, and unless an input has
  its reserved name, it holds the UUIDs of the submodules.\<close>

theorem merge_precedence:
  assumes "hp_mods h a = Some m" and "mp_has_module (mo_pimpl m)"
    and "map_ok input_ok given" and "map_ok input_ok (mp_inputs (mo_pimpl m))"
    and "mod_submod_uuids (Suc n) h a = Inr uuids"
  shows "\<exists>key. mod_merge_inputs n h a given = Inr key \<and> map_ok input_ok key \<and>
    (\<forall>k. case effective_input given (mp_inputs (mo_pimpl m)) k of
       Some v \<Rightarrow> \<exists>v'. ci_find k key = Some v' \<and> mi_copy v = Inr v' \<and> same_input v v'
     | None \<Rightarrow> if ci_fold k = ci_fold submod_key
               then \<exists>i. ci_find k key = Some i \<and> mip_value (mi_pimpl i) = make_any_field By_value (CUuids uuids)
               else ci_find k key = None)"
proof -
  let ?eff = "effective_input given (mp_inputs (mo_pimpl m))"
  obtain key where key: "mod_merge_inputs n h a given = Inr key" "memo_key given (mp_inputs (mo_pimpl m)) uuids key"
    using merge_ok [OF assms] by blast
  have "\<exists>v'. ci_find k key = Some v' \<and> mi_copy v = Inr v' \<and> same_input v v'" if v: "?eff k = Some v" for k v
  proof -
    have "(\<exists>k'. (k', v) \<in> set given) \<or> (\<exists>k'. (k', v) \<in> set (mp_inputs (mo_pimpl m)))"
      using v by (auto simp: effective_input_def dest: om_find_Some_set split: option.splits)
    then have "input_ok v" using assms(3,4) by (auto simp: map_ok_def)
    then obtain v' where "mi_copy v = Inr v'" "same_input v v'" by (rule mi_copy_ok)
    moreover have "map_option Inr (ci_find k key) = map_option mi_copy (Some v)"
      using key(2) v by (simp add: memo_key_def)
    ultimately show ?thesis by auto
  qed
  moreover have "if ci_fold k = ci_fold submod_key
      then \<exists>i. ci_find k key = Some i \<and> mip_value (mi_pimpl i) = make_any_field By_value (CUuids uuids)
      else ci_find k key = None" if "?eff k = None" for k
    using key(2) [unfolded memo_key_def, THEN conjunct2, THEN spec [of _ k]] that by (simp split: if_splits)
  ultimately show ?thesis using key by (auto simp: memo_key_def split: option.split)
qed

text \<open>C1: A memoized run. When results are stored in a module's cache under its merged inputs, and the
  module and its submodules may be memoized, running it returns those results; the
  algorithm is not run (the outcome does not depend on it), the caches stay as they are and the module and
  everything it reaches is locked.\<close>

theorem run_memoized:
  assumes "memo_ready n h a ps c key" and "implements (hp_cw h) S" and "S c key = Some r"
  shows "mod_run pycast n a ps h = (Inr r, lock_set {b. reaches h a b} h)"
  by (rule run_hit' [OF assms])


text \<open>C36: What the memoization does not see. The key of a run holds the UUIDs of the submodules'
  implementations but not the inputs bound to the submodules: two modules with one
  implementation and one cache (a module and its copy) and the same inputs, whose submodules
  are copies of each other, share their results even when an input bound to the
  submodules differs.  A run of the copy returns what was stored for the original.\<close>

theorem submodule_inputs_not_in_key:
  assumes "memo_ready n h a ps c key" and "implements (hp_cw h) S" and "S c key = Some r"
    and "hp_mods h a = Some m" and "hp_mods h a' = Some m'"
    and "mp_has_module (mo_pimpl m')" and "mp_cache (mo_pimpl m') = mp_cache (mo_pimpl m)"
    and "mp_inputs (mo_pimpl m') = mp_inputs (mo_pimpl m)"
    and "mod_submod_uuids (Suc n) h a' = mod_submod_uuids (Suc n) h a"
    and "mod_ready n h (a', ps) = Inr True" and "mod_is_memoizable n h a' = Inr True"
  shows "mod_run pycast n a' ps h = (Inr r, lock_set {b. reaches h a' b} h)"
proof -
  have "mp_submod_uuids (mod_submod_uuids n h) (mod_uuid h) (mo_pimpl m') =
      mp_submod_uuids (mod_submod_uuids n h) (mod_uuid h) (mo_pimpl m)"
    using assms(4,5,9) by (simp add: mod_submod_uuids_def uuids_step_def mod_at_def)
  then have "mp_merge_inputs' (mod_submod_uuids n h) (mod_uuid h) (mo_pimpl m') =
      mp_merge_inputs' (mod_submod_uuids n h) (mod_uuid h) (mo_pimpl m)"
    using assms(8) by (simp add: mp_merge_inputs'_def fun_eq_iff)
  then have "mod_merge_inputs n h a' ps = mod_merge_inputs n h a ps"
    using assms(4,5) by (simp add: mod_merge_inputs_def mod_at_def)
  then have "memo_ready n h a' ps c key"
    using assms(1,4,5,7,10,11) by (auto simp: memo_ready_def)
  then show ?thesis by (rule run_hit' [OF _ assms(2,3)])
qed

section \<open>Examples\<close>

text \<open>Two copies of a module whose submodules are copies that differ in a bound input.\<close>

definition energy_module :: "nat \<Rightarrow> 'd module" where
  "energy_module fock = \<lparr>mo_pimpl = mp_new\<lparr>mp_base := Some 0, mp_cache := Some (memory_cache 0),
     mp_submods := [(''Fock'', \<lparr>sr_desc = None, sr_type = Some (mk_rtti ''Fock''), sr_inputs = [], sr_module = Some fock\<rparr>)]\<rparr>,
     mo_name = None\<rparr>"

definition fock_module :: "int \<Rightarrow> 'd module" where
  "fock_module x = \<lparr>mo_pimpl = mp_new\<lparr>mp_base := Some 1, mp_inputs := example_key x\<rparr>, mo_name = None\<rparr>"

definition energy_heap :: "unit heap" where
  "energy_heap = (hp_init (cw_init example_gen ()))\<lparr>
     hp_mods := [0 \<mapsto> energy_module 1, 1 \<mapsto> fock_module 1, 2 \<mapsto> energy_module 3, 3 \<mapsto> fock_module 2],
     hp_bases := [0 \<mapsto> (mb_new (mk_rtti ''Energy'') (\<lambda>_ _. Ret []))\<lparr>mb_uuid := ''e''\<rparr>,
                  1 \<mapsto> (mb_new (mk_rtti ''Fock'') (\<lambda>_ _. Ret []))\<lparr>mb_uuid := ''f''\<rparr>]\<rparr>"

lemma energy_mods [simp]:
  "hp_mods energy_heap 0 = Some (energy_module 1)" "hp_mods energy_heap (Suc 0) = Some (fock_module 1)"
  "hp_mods energy_heap 2 = Some (energy_module 3)" "hp_mods energy_heap 3 = Some (fock_module 2)"
  "hp_bases energy_heap 0 = Some ((mb_new (mk_rtti ''Energy'') (\<lambda>_ _. Ret []))\<lparr>mb_uuid := ''e''\<rparr>)"
  "hp_bases energy_heap (Suc 0) = Some ((mb_new (mk_rtti ''Fock'') (\<lambda>_ _. Ret []))\<lparr>mb_uuid := ''f''\<rparr>)"
  by (simp_all add: energy_heap_def)

lemma energy_ready:
  assumes "(a, s :: nat, x :: int) = (0, 1, 1) \<or> (a, s, x) = (2, 3, 2)"
  shows "mod_ready 2 energy_heap (a, []) = Inr True" "mod_is_memoizable 2 energy_heap a = Inr True"
    "mod_submod_uuids (Suc 2) energy_heap a = Inr [(''Fock'', ''f'')]"
proof -
  have a: "hp_mods energy_heap a = Some (energy_module s)" "hp_mods energy_heap s = Some (fock_module x)"
    using assms by auto
  have "mod_ready (Suc 0) energy_heap (s, []) = Inr True"
    using a(2) by (auto simp: mod_ready_True_iff fock_module_def mp_has_module_def mp_new_def example_key_def
        mi_ready_def mip_is_ready_def mip_has_value_def any_has_value_def make_any_field_def)
  then have "mod_ready (Suc (Suc 0)) energy_heap (a, []) = Inr True"
    unfolding mod_ready_True_iff [of "Suc 0"]
    using a(1) by (simp add: energy_module_def mp_has_module_def mp_new_def sr_has_defs)
  then show "mod_ready 2 energy_heap (a, []) = Inr True" by (simp add: numeral_2_eq_2)
  note defs = mod_at_def base_at_def mp_base_of_def mp_assert_mod'_def mp_has_module_def energy_module_def
    fock_module_def mp_new_def mb_new_def
  have "calls (memo_step energy_heap) (Suc (Suc 0)) a = Inr True"
    using a by (simp add: memo_step_def mp_is_memoizable_def mb_has_uuid_def srp_value_def sr_has_defs defs)
  then show "mod_is_memoizable 2 energy_heap a = Inr True" by (simp add: mod_is_memoizable_def numeral_2_eq_2)
  have "calls (uuids_step energy_heap) (Suc (Suc (Suc 0))) a = Inr [(''Fock'', ''f'')]"
    using a by (simp add: uuids_step_def mp_submod_uuids_def mp_submods'_def srp_submod_uuids_eq mod_uuid_def
        mp_uuid_def om_emplace_def om_count_def defs)
  then show "mod_submod_uuids (Suc 2) energy_heap a = Inr [(''Fock'', ''f'')]"
    by (simp add: mod_submod_uuids_def numeral_2_eq_2)
qed

lemma energy_memo:
  assumes "(a, s :: nat, x :: int) = (0, 1, 1) \<or> (a, s, x) = (2, 3, 2)"
  obtains key where "memo_ready 2 energy_heap a [] 0 key" "\<exists>key'. im_copy key = Inr key'"
proof -
  have m: "hp_mods energy_heap a = Some (energy_module s)" using assms by auto
  moreover have "mp_has_module (mo_pimpl (energy_module s :: unit module))"
    by (simp add: energy_module_def mp_has_module_def)
  moreover have "map_ok input_ok []" "map_ok input_ok (mp_inputs (mo_pimpl (energy_module s :: unit module)))"
    by (simp_all add: energy_module_def mp_new_def map_ok_def)
  ultimately obtain key where key: "mod_merge_inputs 2 energy_heap a [] = Inr key" "map_ok input_ok key"
    using merge_ok [OF _ _ _ _ energy_ready(3) [OF assms]] unfolding memo_key_def by blast
  show ?thesis
  proof (rule that)
    show "memo_ready 2 energy_heap a [] 0 key"
      using m key energy_ready(1,2) [OF assms] by (simp add: memo_ready_def energy_module_def)
    show "\<exists>key'. im_copy key = Inr key'" using im_copy_ok [OF key(2)] by blast
  qed
qed

lemma energy_filled:
  assumes "map_ok input_ok key"
  obtains w where "implements w ((\<lambda>_ _. None)(0 := (\<lambda>m. if same_map same_input key m then Some r else None)))"
    "keeps energy_heap (energy_heap\<lparr>hp_cw := w\<rparr>)"
proof -
  have "implements (cw_init example_gen ()) (\<lambda>_ _. None)" by (rule implements_init [OF example_gen_inj])
  from implements_cache [OF this assms, of 0 r] show ?thesis using that by (auto intro: keeps_cw)
qed

theorem merge_precedence_witness:
  "\<exists>key v. mod_merge_inputs 0 energy_heap 1 (example_key 5) = Inr key \<and> ci_find ''x'' key = Some v \<and>
     any_val (mip_value (mi_pimpl v)) = CInt 5"
proof -
  have u: "mod_submod_uuids (Suc 0) energy_heap 1 = Inr []"
    by (simp add: mod_submod_uuids_def uuids_step_def mod_at_def fock_module_def mp_submod_uuids_def mp_submods'_def
        mp_assert_mod'_def mp_has_module_def mp_new_def)
  have p: "mp_has_module (mo_pimpl (fock_module 1 :: unit module))"
      "map_ok input_ok (mp_inputs (mo_pimpl (fock_module 1 :: unit module)))"
    by (simp_all add: fock_module_def mp_has_module_def)
  have m: "hp_mods energy_heap 1 = Some (fock_module 1)" by simp
  obtain v where "effective_input (example_key 5) (mp_inputs (mo_pimpl (fock_module 1 :: unit module))) ''x'' = Some v"
      "any_val (mip_value (mi_pimpl v)) = CInt 5"
    by (simp add: effective_input_def example_key_def make_any_field_def)
  then show ?thesis
    using merge_precedence [OF m p(1) example_key_ok p(2) u, of 5] by (fastforce split: option.splits)
qed

theorem run_memoized_witness:
  "\<exists>w. mod_run Inr 2 0 [] (energy_heap\<lparr>hp_cw := w\<rparr>) =
     (Inr [(''y'', None)], lock_set {b. reaches energy_heap 0 b} (energy_heap\<lparr>hp_cw := w\<rparr>))"
proof -
  obtain key where k: "memo_ready 2 energy_heap 0 [] 0 key" by (rule energy_memo [of 0 1 1]) simp_all
  obtain w where w: "implements w ((\<lambda>_ _. None)(0 := (\<lambda>m. if same_map same_input key m then Some [(''y'', None)] else None)))"
      "keeps energy_heap (energy_heap\<lparr>hp_cw := w\<rparr>)"
    using k energy_filled [of key "[(''y'', None)]"] unfolding memo_ready_def by blast
  have "same_map same_input key key" by (simp add: same_map_def list_all2_refl case_prod_unfold)
  then show ?thesis
    using run_memoized [OF memo_ready_keeps [OF k w(2)], of _ "[(''y'', None)]"] w(1) by fastforce
qed


theorem submodule_inputs_not_in_key_witness:
  "\<exists>w. mod_run Inr 2 2 [] (energy_heap\<lparr>hp_cw := w\<rparr>) =
     (Inr [(''y'', None)], lock_set {b. reaches energy_heap 2 b} (energy_heap\<lparr>hp_cw := w\<rparr>)) \<and>
   fock_module 1 \<noteq> (fock_module 2 :: unit module)"
proof -
  obtain key where k: "memo_ready 2 energy_heap 0 [] 0 key" by (rule energy_memo [of 0 1 1]) simp_all
  obtain w where w: "implements w ((\<lambda>_ _. None)(0 := (\<lambda>m. if same_map same_input key m then Some [(''y'', None)] else None)))"
      "keeps energy_heap (energy_heap\<lparr>hp_cw := w\<rparr>)"
    using k energy_filled [of key "[(''y'', None)]"] unfolding memo_ready_def by blast
  let ?h = "energy_heap\<lparr>hp_cw := w\<rparr>"
  have same: "same_map same_input key key" by (simp add: same_map_def list_all2_refl case_prod_unfold)
  have i: "implements (hp_cw ?h) ((\<lambda>_ _. None)(0 := (\<lambda>m. if same_map same_input key m then Some [(''y'', None)] else None)))"
    using w(1) by simp
  have u: "mod_submod_uuids (Suc 2) ?h 2 = mod_submod_uuids (Suc 2) ?h 0"
    using energy_ready(3) [of 0 1 1] energy_ready(3) [of 2 3 2] by simp
  have r: "mod_ready 2 ?h (2, []) = Inr True" "mod_is_memoizable 2 ?h 2 = Inr True"
    using energy_ready(1,2) [of 2 3 2] by simp_all
  have "mod_run Inr 2 2 [] ?h = (Inr [(''y'', None)], lock_set {b. reaches ?h 2 b} ?h)"
    by (rule submodule_inputs_not_in_key [OF memo_ready_keeps [OF k w(2)] i _ _ _ _ _ _ u r, of _ "energy_module 1" "energy_module 3"])
      (simp_all add: same energy_module_def mp_has_module_def)
  moreover have "fock_module 1 \<noteq> (fock_module 2 :: unit module)"
    by (simp add: fock_module_def example_key_def make_any_field_def mp_new_def mi_new_def mip_new_def)
  ultimately show ?thesis by auto
qed

end
