(* ===== verification/Module_Manager.thy ===== *)
theory Module_Manager
  imports Memoization
begin

text \<open>
  \<open>ModuleManagerPIMPL\<close> (\<open>module_manager/detail_/module_manager_pimpl\<close>) and \<open>ModuleManager\<close>
  (\<open>module_manager/module_manager_class\<close>), which hands every call on to it: the modules a user
  can run, by key, the implementations they share, the defaults submodules are filled in
  from and the caches.  An operation acts on a manager and the heap its modules live in; the
  runtime is an opaque pointer.  The object \<open>m_pcaches\<close> points to belongs to one manager here.
\<close>

section \<open>State\<close>

abbreviation ti_find :: "rtti \<Rightarrow> (rtti, 'v) omap \<Rightarrow> 'v option" where "ti_find \<equiv> om_find rt_ord"
abbreviation ti_count :: "rtti \<Rightarrow> (rtti, 'v) omap \<Rightarrow> bool" where "ti_count \<equiv> om_count rt_ord"
abbreviation ti_at :: "rtti \<Rightarrow> (rtti, 'v) omap \<Rightarrow> 'v res" where "ti_at \<equiv> om_at rt_ord"
abbreviation ti_set :: "rtti \<Rightarrow> 'v \<Rightarrow> (rtti, 'v) omap \<Rightarrow> (rtti, 'v) omap" where "ti_set \<equiv> om_set rt_ord"

record 'd manager =
  mm_bases :: "(rtti, nat) omap"
  mm_modules :: "(string, nat) omap"
  mm_py_bases :: "(string, nat) omap"
  mm_pcaches :: "'d mmc option"
  mm_defaults :: "(rtti, string) omap"
  mm_inputs :: "(rtti, input_map) omap"
  mm_runtime :: "nat option"

type_synonym 'd mm_state = "'d manager \<times> 'd heap"

definition mm_new :: "nat option \<Rightarrow> 'd mmc option \<Rightarrow> 'd manager" where
  "mm_new runtime cache = \<lparr>mm_bases = [], mm_modules = [], mm_py_bases = [], mm_pcaches = cache,
     mm_defaults = [], mm_inputs = [], mm_runtime = runtime\<rparr>"

text \<open>Operations on one half of the state, and one that only asks.\<close>

definition on_heap :: "('d heap, 'a) op \<Rightarrow> ('d mm_state, 'a) op" where
  "on_heap m s = (case s of (mm, h) \<Rightarrow> (case m h of (r, h') \<Rightarrow> (r, (mm, h'))))"

definition on_mm :: "('d manager \<Rightarrow> 'd manager) \<Rightarrow> ('d mm_state, unit) op" where
  "on_mm f s = (Inr (), (f (fst s), snd s))"

definition asks :: "('d mm_state \<Rightarrow> 'a res) \<Rightarrow> ('d mm_state, 'a) op" where
  "asks q s = (q s, s)"

definition on_caches :: "('d mmc_state, 'a) op \<Rightarrow> ('d mm_state, 'a option) op" where
  "on_caches m s = (case s of (mm, h) \<Rightarrow>
     (case mm_pcaches mm of
        None \<Rightarrow> (Inr None, s)
      | Some c \<Rightarrow>
          (case m (c, hp_cw h) of (r, (c', w)) \<Rightarrow>
             (bindR r (\<lambda>x. Inr (Some x)), (mm\<lparr>mm_pcaches := Some c'\<rparr>, h\<lparr>hp_cw := w\<rparr>)))))"

definition upd_base :: "nat \<Rightarrow> ('d module_base \<Rightarrow> 'd module_base) \<Rightarrow> ('d heap, unit) op" where
  "upd_base a f h = (case base_at h a of Inl e \<Rightarrow> (Inl e, h)
     | Inr b \<Rightarrow> (Inr (), h\<lparr>hp_bases := (hp_bases h)(a \<mapsto> f b)\<rparr>))"

definition on_base :: "nat \<Rightarrow> ('d module_base \<Rightarrow> 'd module_base) \<Rightarrow> ('d mm_state, unit) op" where
  "on_base a f = on_heap (upd_base a f)"

section \<open>ModuleManagerPIMPL\<close>

definition mm_count :: "'d manager \<Rightarrow> string \<Rightarrow> bool" where
  "mm_count mm key = ci_count key (mm_modules mm)"

definition mm_size :: "'d manager \<Rightarrow> nat" where
  "mm_size mm = length (mm_modules mm)"

definition mm_assert_unique_key' :: "'d manager \<Rightarrow> string \<Rightarrow> unit res" where
  "mm_assert_unique_key' mm key = (if mm_count mm key then Inl (invalid_argument ''Key is in use'') else Inr ())"

definition mm_set_default' :: "rtti \<Rightarrow> input_map \<Rightarrow> string \<Rightarrow> 'd manager \<Rightarrow> 'd manager res" where
  "mm_set_default' t inputs key mm =
     bindR (if \<not> mm_count mm key then bindR (ci_at key (mm_modules mm)) (\<lambda>_. Inr ()) else Inr ()) (\<lambda>_.
     Inr (mm\<lparr>mm_defaults := ti_set t key (mm_defaults mm), mm_inputs := ti_set t inputs (mm_inputs mm)\<rparr>))"

text \<open>The implementation a new module uses: its own in Python, else the first of its class.\<close>

definition mm_base_for :: "string \<Rightarrow> nat \<Rightarrow> ('d mm_state, nat) op" where
  "mm_base_for key base =
     bindS (asks (\<lambda>(mm, h). base_at h base)) (\<lambda>b.
     if mb_is_python b then
       bindS (on_mm (mm_py_bases_update (std_set key base))) (\<lambda>_.
       asks (\<lambda>(mm, h). std_at key (mm_py_bases mm)))
     else
       bindS (on_mm (mm_bases_update (om_emplace rt_ord (mb_type b) base))) (\<lambda>_.
       asks (\<lambda>(mm, h). ti_at (mb_type b) (mm_bases mm))))"

text \<open>A new shared module, named after its key.\<close>

definition mm_register :: "string \<Rightarrow> 'd module \<Rightarrow> ('d mm_state, unit) op" where
  "mm_register key m = bindS (on_heap (alloc_mod (set_name key m))) (\<lambda>ptr. on_mm (mm_modules_update (ci_emplace key ptr)))"

definition mm_add_module :: "string \<Rightarrow> nat \<Rightarrow> ('d mm_state, unit) op" where
  "mm_add_module key base =
     bindS (asks (\<lambda>(mm, h). mm_assert_unique_key' mm key)) (\<lambda>_.
     bindS (on_heap (on_cw generate_uuid)) (\<lambda>uuid.
     bindS (asks (\<lambda>(mm, h). Inr (mm_runtime mm))) (\<lambda>runtime.
     bindS (on_base base (mb_set_runtime runtime)) (\<lambda>_.
     bindS (on_base base (mb_set_uuid uuid)) (\<lambda>_.
     bindS (on_caches (mmc_get_or_make_user_cache uuid)) (\<lambda>internal_cache.
     bindS (case internal_cache of None \<Rightarrow> retS () | Some c \<Rightarrow> on_base base (mb_set_cache internal_cache)) (\<lambda>_.
     bindS (on_caches (mmc_get_or_make_module_cache key)) (\<lambda>module_cache.
     bindS (mm_base_for key base) (\<lambda>b.
     bindS (asks (\<lambda>(mm, h). mp_make h (Some b) module_cache)) (\<lambda>pimpl.
     mm_register key \<lparr>mo_pimpl = pimpl, mo_name = None\<rparr>))))))))))"

definition mm_erase :: "string \<Rightarrow> 'd manager \<Rightarrow> 'd manager" where
  "mm_erase key mm = mm\<lparr>mm_modules := ci_erase key (mm_modules mm)\<rparr>"

definition mm_copy_module :: "string \<Rightarrow> string \<Rightarrow> ('d mm_state, unit) op" where
  "mm_copy_module old_key new_key =
     bindS (asks (\<lambda>(mm, h). mm_assert_unique_key' mm new_key)) (\<lambda>_.
     bindS (asks (\<lambda>(mm, h). bindR (ci_at old_key (mm_modules mm)) (\<lambda>a. bindR (mod_at h a) unlocked_copy))) (\<lambda>m.
     mm_register new_key m))"

text \<open>
  \<open>at\<close>: the loop is over the slots of the module, whose request is read when its turn comes;
  \<open>rec\<close> is the recursive call.
\<close>

definition mm_fill_slot :: "(string \<Rightarrow> ('d heap, nat) op) \<Rightarrow> nat \<Rightarrow> 'd manager \<Rightarrow> nat \<Rightarrow> string \<Rightarrow> ('d heap, unit) op" where
  "mm_fill_slot rec r mm a k =
     bindS (\<lambda>h. (bindR (mod_at h a) (\<lambda>m. bindR (mp_submods' (mo_pimpl m)) (ci_at k)), h)) (\<lambda>v.
     bindS (liftS (srp_type v)) (\<lambda>t.
     bindS (\<lambda>h. (sr_ready (mod_ready r h) v, h)) (\<lambda>ok.
     if \<not> ok \<and> ti_count t (mm_defaults mm) then
       bindS (liftS (ti_at t (mm_defaults mm))) (\<lambda>dkey.
       bindS (rec dkey) (\<lambda>default_mod.
       bindS (liftS (ti_at t (mm_inputs mm))) (\<lambda>inps.
       bindS (\<lambda>h. (mod_ready r h (default_mod, inps), h)) (\<lambda>ready.
       if ready then mod_change_submod a k (Some default_mod) else retS ()))))
     else retS ())))"

definition mm_at_step :: "(string \<Rightarrow> ('d heap, nat) op) \<Rightarrow> nat \<Rightarrow> 'd manager \<Rightarrow> string \<Rightarrow> ('d heap, nat) op" where
  "mm_at_step rec r mm key =
     (if \<not> mm_count mm key
      then throwS (out_of_range (''ModuleManager has no module with key: '' @ [CHR 0x27] @ key @ [CHR 0x27]))
      else bindS (liftS (ci_at key (mm_modules mm))) (\<lambda>a.
           bindS (\<lambda>h. (bindR (mod_at h a) (\<lambda>m. mp_submods' (mo_pimpl m)), h)) (\<lambda>slots.
           bindS (forS (mm_fill_slot rec r mm a) (map fst slots)) (\<lambda>_.
           retS a))))"

text \<open>\<open>n\<close> bounds the recursion of \<open>at\<close>, \<open>r\<close> that of the readiness it asks for.\<close>

fun mm_at :: "nat \<Rightarrow> nat \<Rightarrow> 'd manager \<Rightarrow> string \<Rightarrow> ('d heap, nat) op" where
  "mm_at r 0 mm key = throwS Out_of_fuel"
| "mm_at r (Suc n) mm key = mm_at_step (mm_at r n mm) r mm key"

text \<open>\<open>==\<close>: the loops go over the maps of the right side.\<close>

fun all_found :: "('k \<Rightarrow> 'v option) \<Rightarrow> ('v \<times> 'v \<Rightarrow> bool res) \<Rightarrow> ('k, 'v) omap \<Rightarrow> bool res" where
  "all_found look differ [] = Inr True"
| "all_found look differ ((k, v) # m) = (case look k of
      None \<Rightarrow> Inr False
    | Some u \<Rightarrow> bindR (differ (u, v)) (\<lambda>d. if d then Inr False else all_found look differ m))"

definition mm_equal' :: "nat \<Rightarrow> 'd heap \<Rightarrow> 'd manager \<Rightarrow> 'd manager \<Rightarrow> bool res" where
  "mm_equal' n h lhs rhs =
     (if length (mm_bases lhs) \<noteq> length (mm_bases rhs) then Inr False
      else if length (mm_modules lhs) \<noteq> length (mm_modules rhs) then Inr False
      else if length (mm_defaults lhs) \<noteq> length (mm_defaults rhs) then Inr False
      else if length (mm_py_bases lhs) \<noteq> length (mm_py_bases rhs) then Inr False
      else andR (all_found (\<lambda>k. std_find k (mm_py_bases lhs))
                   (\<lambda>(u, v). bindR (base_at h u) (\<lambda>l. bindR (base_at h v) (\<lambda>r. mb_not_equal (mod_equal n h) l r)))
                   (mm_py_bases rhs))
          (andR (all_found (\<lambda>k. ti_find k (mm_bases lhs)) (\<lambda>_. Inr False) (mm_bases rhs))
          (andR (all_found (\<lambda>k. ci_find k (mm_modules lhs)) (mod_not_equal n h) (mm_modules rhs))
          (Inr (mm_defaults lhs = mm_defaults rhs)))))"

definition mm_not_equal' :: "nat \<Rightarrow> 'd heap \<Rightarrow> 'd manager \<Rightarrow> 'd manager \<Rightarrow> bool res" where
  "mm_not_equal' n h lhs rhs = bindR (mm_equal' n h lhs rhs) (\<lambda>b. Inr (\<not> b))"

definition mm_set_runtime :: "nat option \<Rightarrow> 'd manager \<Rightarrow> 'd manager" where
  "mm_set_runtime runtime mm = mm\<lparr>mm_runtime := runtime\<rparr>"

definition mm_get_runtime :: "'d manager \<Rightarrow> nat res" where
  "mm_get_runtime mm = deref (mm_runtime mm)"

definition mm_keys :: "'d manager \<Rightarrow> string list" where
  "mm_keys mm = map fst (mm_modules mm)"

definition mm_has_cache :: "'d manager \<Rightarrow> bool" where
  "mm_has_cache mm \<longleftrightarrow> mm_pcaches mm \<noteq> None"

section \<open>ModuleManager\<close>

text \<open>\<open>add_module<T>(key)\<close> makes the implementation; the overload takes a pointer to one.\<close>

definition add_new_module :: "string \<Rightarrow> 'd module_base \<Rightarrow> ('d mm_state, unit) op" where
  "add_new_module key b = bindS (on_heap (alloc_base b)) (mm_add_module key)"

definition at_key :: "nat \<Rightarrow> string \<Rightarrow> ('d mm_state, nat) op" where
  "at_key n key s = on_heap (mm_at n n (fst s) key) s"

definition rename_module :: "string \<Rightarrow> string \<Rightarrow> ('d mm_state, unit) op" where
  "rename_module old_key new_key = bindS (mm_copy_module old_key new_key) (\<lambda>_. on_mm (mm_erase old_key))"

definition set_default :: "(cval \<Rightarrow> cval res) \<Rightarrow> property_type \<Rightarrow> string \<Rightarrow> ('d mm_state, unit) op" where
  "set_default pycast pt key s =
     (case bindR (pt_inputs pycast pt) (\<lambda>temp.
         mm_set_default' (pt_rtti pt) (om_insert_all ci_fold (ft_values temp) []) key (fst s)) of
        Inl e \<Rightarrow> (Inl e, s)
      | Inr mm \<Rightarrow> (Inr (), (mm, snd s)))"

definition change_input_at :: "nat \<Rightarrow> string \<Rightarrow> string \<Rightarrow> cxx_arg \<Rightarrow> ('d mm_state, unit) op" where
  "change_input_at n key option new_value = bindS (at_key n key) (\<lambda>a. on_heap (mod_change_input a option new_value))"

definition change_submod_at :: "nat \<Rightarrow> string \<Rightarrow> string \<Rightarrow> string \<Rightarrow> ('d mm_state, unit) op" where
  "change_submod_at n module_key callback_key new_key =
     bindS (at_key n module_key) (\<lambda>a. bindS (at_key n new_key) (\<lambda>s. on_heap (mod_change_submod a callback_key (Some s))))"

definition run_as_at :: "(cval \<Rightarrow> cval res) \<Rightarrow> nat \<Rightarrow> property_type \<Rightarrow> string \<Rightarrow> pt_arg list \<Rightarrow> ('d mm_state, cval list) op" where
  "run_as_at pycast n pt key args = bindS (at_key n key) (\<lambda>a. on_heap (mod_run_as pycast n a pt args))"

section \<open>What the operations leave alone\<close>

text \<open>Everything of a module but its lock, its inputs and its submodules.\<close>

definition essence :: "'d module \<Rightarrow> 'd module" where
  "essence m = m\<lparr>mo_pimpl := (mo_pimpl m)\<lparr>mp_locked := False, mp_inputs := [], mp_submods := []\<rparr>\<rparr>"

definition same_shape :: "'d heap \<Rightarrow> 'd heap \<Rightarrow> bool" where
  "same_shape h h' \<longleftrightarrow> hp_bases h' = hp_bases h \<and> hp_next_mod h' = hp_next_mod h \<and> hp_next_base h' = hp_next_base h \<and>
     (\<forall>a. map_option essence (hp_mods h' a) = map_option essence (hp_mods h a))"

interpretation shape_frames: frame_rule same_shape
  by unfold_locales (auto simp: same_shape_def)

lemma essence_lock [simp]: "essence (lock' m) = essence m"
  by (simp add: essence_def lock'_def)

lemma keeps_shape: "keeps h h' \<Longrightarrow> same_shape h h'"
  by (auto simp: keeps_def same_shape_def lock_set_mods option.map_comp comp_def)

lemma preserves_mono: "preserves R m \<Longrightarrow> (\<And>s s'. R s s' \<Longrightarrow> R' s s') \<Longrightarrow> preserves R' m"
  by (simp add: preserves_def)

lemma shape_on_mod:
  assumes "\<And>m m'. f m = Inr m' \<Longrightarrow> essence m' = essence m"
  shows "preserves same_shape (on_mod a f)"
  unfolding preserves_def
proof
  fix h
  show "same_shape h (snd (on_mod a f h))"
  proof (cases "hp_mods h a")
    case (Some m)
    then show ?thesis
      using assms by (cases "f m") (auto simp: on_mod_def mod_at_def upd_mod_def same_shape_def)
  qed (simp add: on_mod_def mod_at_def same_shape_def)
qed

lemma shape_change_input [frames]: "preserves same_shape (mod_change_input a key x)"
  unfolding mod_change_input_def
  by (rule shape_on_mod) (auto simp: mo_change_input_def bindR_Inr_iff essence_def split: if_splits)

lemma shape_change_submod [frames]: "preserves same_shape (mod_change_submod a key ptr)"
proof -
  have "preserves same_shape (on_mod a (mo_change_submod types key ptr))" for types
    by (rule shape_on_mod) (auto simp: mo_change_submod_def bindR_Inr_iff essence_def split: if_splits)
  then show ?thesis by (auto simp: preserves_def mod_change_submod_def)
qed

lemma shape_at [frames]: "preserves same_shape (mm_at r n mm key)"
proof (induction n arbitrary: key)
  case (Suc n)
  show ?case
    by (auto simp: mm_at_step_def mm_fill_slot_def intro!: frames Suc)
qed (simp add: frames)

lemma shape_run_as [frames]: "preserves same_shape (mod_run_as pycast n a pt args)"
proof -
  have "preserves keeps (mod_run_as pycast n a pt args)"
    unfolding mod_run_as_def by (intro frames)
  then show ?thesis by (rule preserves_mono) (rule keeps_shape)
qed

section \<open>The life of a manager\<close>

text \<open>The calls a user can make, whatever their outcome, and the making of an implementation.\<close>

inductive mm_step :: "(cval \<Rightarrow> cval res) \<Rightarrow> 'd mm_state \<Rightarrow> 'd mm_state \<Rightarrow> bool" for pycast where
  base: "mm_step pycast s (snd (on_heap (alloc_base b) s))"
| add: "mm_step pycast s (snd (mm_add_module key p s))"
| copy: "mm_step pycast s (snd (mm_copy_module old_key new_key s))"
| rename: "mm_step pycast s (snd (rename_module old_key new_key s))"
| erase: "mm_step pycast s (snd (on_mm (mm_erase key) s))"
| set_default: "mm_step pycast s (snd (set_default pycast pt key s))"
| at: "mm_step pycast s (snd (at_key n key s))"
| change_input: "mm_step pycast s (snd (change_input_at n key option x s))"
| change_submod: "mm_step pycast s (snd (change_submod_at n key slot key' s))"
| run: "mm_step pycast s (snd (run_as_at pycast n pt key args s))"
| set_runtime: "mm_step pycast s (snd (on_mm (mm_set_runtime rt) s))"

inductive mm_reachable :: "(cval \<Rightarrow> cval res) \<Rightarrow> 'd mm_state \<Rightarrow> bool" for pycast where
  new: "mm_reachable pycast (mm_new runtime cache, hp_init w)"
| step: "mm_reachable pycast s \<Longrightarrow> mm_step pycast s s' \<Longrightarrow> mm_reachable pycast s'"

inductive_cases mm_stepE: "mm_step pycast s s'"

fun mm_inv :: "'d mm_state \<Rightarrow> bool" where
  "mm_inv (mm, h) \<longleftrightarrow>
     om_wf ci_fold (mm_modules mm) \<and> distinct (map snd (mm_modules mm)) \<and>
     (\<forall>(k, a) \<in> set (mm_modules mm). \<exists>m. hp_mods h a = Some m \<and> mo_name m = Some k) \<and>
     (\<forall>a. hp_mods h a \<noteq> None \<longrightarrow> a < hp_next_mod h) \<and>
     (\<forall>b. hp_bases h b \<noteq> None \<longrightarrow> b < hp_next_base h) \<and>
     (\<forall>(t, b) \<in> set (mm_bases mm). \<exists>x. hp_bases h b = Some x \<and> mb_type x = t \<and> \<not> mb_is_python x) \<and>
     (\<forall>t. ti_count t (mm_defaults mm) = ti_count t (mm_inputs mm))"

declare mm_inv.simps [simp del]
lemmas mm_invs = mm_inv.simps

abbreviation keeps_inv :: "'d mm_state \<Rightarrow> 'd mm_state \<Rightarrow> bool" where
  "keeps_inv s s' \<equiv> mm_inv s \<longrightarrow> mm_inv s'"

interpretation inv_frames: frame_rule keeps_inv
  by unfold_locales auto

lemma essence_name: "essence m = essence m' \<Longrightarrow> mo_name m = mo_name m'"
  by (cases m; cases m') (simp add: essence_def)

lemma inv_shape:
  assumes "mm_inv (mm, h)" and "same_shape h h'"
  shows "mm_inv (mm, h')"
proof -
  have none: "hp_mods h' a = None \<longleftrightarrow> hp_mods h a = None" for a
    using assms(2) unfolding same_shape_def by (metis option.map_disc_iff)
  have "\<exists>m'. hp_mods h' a = Some m' \<and> mo_name m' = mo_name m" if "hp_mods h a = Some m" for a m
  proof -
    have "map_option essence (hp_mods h' a) = Some (essence m)"
      using assms(2) that by (simp add: same_shape_def)
    then show ?thesis using essence_name by auto
  qed
  then have "\<forall>(k, a) \<in> set (mm_modules mm). \<exists>m. hp_mods h' a = Some m \<and> mo_name m = Some k"
    using assms(1) by (fastforce simp: mm_invs)
  then show ?thesis using assms none by (auto simp: mm_invs same_shape_def)
qed

lemma inv_on_heap [frames]: "preserves same_shape m \<Longrightarrow> preserves keeps_inv (on_heap m)"
  unfolding preserves_def
proof
  fix s :: "'a mm_state"
  assume m: "\<forall>h. same_shape h (snd (m h))"
  obtain mm h r h' where s: "s = (mm, h)" "m h = (r, h')" by (metis surj_pair)
  then have "same_shape h h'" using m by (metis snd_conv)
  then show "keeps_inv s (snd (on_heap m s))"
    using inv_shape by (simp add: s on_heap_def) blast
qed

lemma inv_asks [frames]: "preserves keeps_inv (asks q)"
  by (simp add: preserves_def asks_def)

lemma shape_on_cw [frames]: "preserves same_shape (on_cw m)"
  by (simp add: preserves_def on_cw_def same_shape_def split: prod.split)

lemma inv_on_caches [frames]: "preserves keeps_inv (on_caches m)"
  by (auto simp: preserves_def on_caches_def mm_invs split: prod.split option.split)

lemma inv_upd_base:
  assumes "\<And>b. mb_type (f b) = mb_type b \<and> mb_is_python (f b) = mb_is_python b"
  shows "preserves keeps_inv (on_base a f)"
  unfolding preserves_def on_base_def
proof
  fix s :: "'a mm_state"
  obtain mm h where s: "s = (mm, h)" by (cases s)
  show "keeps_inv s (snd (on_heap (upd_base a f) s))"
  proof (cases "hp_bases h a")
    case (Some b)
    have "mm_inv (mm, h\<lparr>hp_bases := (hp_bases h)(a \<mapsto> f b)\<rparr>)" if inv: "mm_inv (mm, h)"
    proof -
      have "\<exists>y. ((hp_bases h)(a \<mapsto> f b)) c = Some y \<and> mb_type y = t \<and> \<not> mb_is_python y"
        if "(t, c) \<in> set (mm_bases mm)" for t c
        using that inv assms [of b] Some by (cases "c = a") (fastforce simp: mm_invs)+
      then show ?thesis using inv Some by (fastforce simp: mm_invs)
    qed
    then show ?thesis by (simp add: s on_heap_def upd_base_def base_at_def Some)
  qed (simp add: s on_heap_def upd_base_def base_at_def)
qed

lemma inv_on_mm:
  assumes "\<And>mm h. mm_inv (mm, h) \<Longrightarrow> mm_inv (f mm, h)"
  shows "preserves keeps_inv (on_mm f)"
  unfolding preserves_def on_mm_def using assms by (simp add: split_paired_all)

lemma inv_base_for [frames]: "preserves keeps_inv (mm_base_for key base)"
  unfolding preserves_def
proof
  fix s :: "'a mm_state"
  obtain mm h where s: "s = (mm, h)" by (cases s)
  show "keeps_inv s (snd (mm_base_for key base s))"
  proof (cases "hp_bases h base")
    case (Some b)
    have "mm_inv (mm_bases_update (om_emplace rt_ord (mb_type b) base) mm, h)"
      if "mm_inv (mm, h)" "\<not> mb_is_python b"
      using that Some by (auto simp: mm_invs om_emplace_def set_om_ins)
    moreover have "mm_inv (mm_py_bases_update f mm, h) = mm_inv (mm, h)" for f by (simp add: mm_invs)
    ultimately show ?thesis
      by (auto simp: s mm_base_for_def bindS_def asks_def on_mm_def base_at_def Some)
  qed (simp add: s mm_base_for_def bindS_def asks_def base_at_def)
qed

lemma inv_register [frames]: "preserves keeps_inv (mm_register key m)"
  unfolding preserves_def
proof
  fix s :: "'a mm_state"
  obtain mm h where s: "s = (mm, h)" by (cases s)
  let ?a = "hp_next_mod h"
  let ?h = "h\<lparr>hp_mods := (hp_mods h)(?a \<mapsto> set_name key m), hp_next_mod := Suc ?a\<rparr>"
  let ?mm = "mm_modules_update (ci_emplace key ?a) mm"
  have "mm_inv (?mm, ?h)" if inv: "mm_inv (mm, h)"
  proof -
    have old: "(k, c) \<in> set (mm_modules mm) \<Longrightarrow> c < ?a" for k c using inv by (auto simp: mm_invs)
    then have "?a \<notin> snd ` set (mm_modules mm)" by force
    then have "distinct (map snd (mm_modules ?mm))"
      using inv by (auto simp: mm_invs om_emplace_def simp: distinct_om_ins)
    moreover have "\<exists>m'. hp_mods ?h c = Some m' \<and> mo_name m' = Some k" if "(k, c) \<in> set (mm_modules ?mm)" for k c
      using that inv old by (auto simp: mm_invs om_emplace_def set_om_ins set_name_def split: if_splits)
    then have "\<forall>(k, c) \<in> set (mm_modules ?mm). \<exists>m'. hp_mods ?h c = Some m' \<and> mo_name m' = Some k" by blast
    moreover have "om_wf ci_fold (mm_modules ?mm)" using inv by (simp add: mm_invs om_wf_emplace)
    moreover have "\<forall>a. hp_mods ?h a \<noteq> None \<longrightarrow> a < hp_next_mod ?h" using inv by (simp add: mm_invs less_Suc_eq)
    ultimately show ?thesis using inv by (simp add: mm_invs)
  qed
  then show "keeps_inv s (snd (mm_register key m s))"
    by (simp add: s mm_register_def bindS_def on_heap_def alloc_mod_def on_mm_def)
qed

lemma inv_setters [frames]:
  "preserves keeps_inv (on_base p (mb_set_runtime rt))" "preserves keeps_inv (on_base p (mb_set_uuid u))"
  "preserves keeps_inv (on_base p (mb_set_cache c))"
  by (rule inv_upd_base, simp add: mb_set_runtime_def mb_set_uuid_def mb_set_cache_def)+

lemma inv_add_module [frames]: "preserves keeps_inv (mm_add_module key p)"
  unfolding mm_add_module_def by (intro frames) (auto intro!: frames split: option.split)

lemma inv_copy_module [frames]: "preserves keeps_inv (mm_copy_module old_key new_key)"
  unfolding mm_copy_module_def by (intro frames)

lemma inv_erase [frames]: "preserves keeps_inv (on_mm (mm_erase key))"
  by (rule inv_on_mm)
    (auto simp: mm_invs mm_erase_def om_wf_erase, auto simp: om_erase_def distinct_map intro: inj_on_subset)

lemma ti_count_set: "ti_count t' (ti_set t v m) \<longleftrightarrow> t' = t \<or> ti_count t' m"
  by (auto simp: om_count_def om_find_set)

lemma inv_set_default' : "mm_set_default' t i key mm = Inr mm' \<Longrightarrow> mm_inv (mm, h) \<Longrightarrow> mm_inv (mm', h)"
  by (auto simp: mm_set_default'_def bindR_Inr_iff mm_invs ti_count_set)

lemma inv_set_default [frames]: "preserves keeps_inv (set_default pycast pt key)"
  unfolding preserves_def
proof
  fix s :: "'a mm_state"
  obtain mm h where s: "s = (mm, h)" by (cases s)
  show "keeps_inv s (snd (set_default pycast pt key s))"
    by (auto simp: s set_default_def bindR_Inr_iff split: sum.splits intro: inv_set_default')
qed

lemma inv_at_key [frames]: "preserves keeps_inv (at_key n key)"
  unfolding preserves_def
proof
  fix s :: "'a mm_state"
  have "preserves keeps_inv (on_heap (mm_at n n (fst s) key))" by (rule inv_on_heap [OF shape_at])
  then show "keeps_inv s (snd (at_key n key s))" unfolding preserves_def at_key_def by blast
qed

lemma inv_alloc_base: "preserves keeps_inv (on_heap (alloc_base b))"
  unfolding preserves_def
proof
  fix s :: "'a mm_state"
  obtain mm h where s: "s = (mm, h)" by (cases s)
  have "c < hp_next_base h" if "(t, c) \<in> set (mm_bases mm)" "mm_inv (mm, h)" for t c
    using that by (fastforce simp: mm_invs)
  then have "c \<noteq> hp_next_base h" if "(t, c) \<in> set (mm_bases mm)" "mm_inv (mm, h)" for t c
    using that by blast
  then show "keeps_inv s (snd (on_heap (alloc_base b) s))"
    by (fastforce simp: s on_heap_def alloc_base_def mm_invs less_Suc_eq)
qed

lemma inv_rest [frames]:
  "preserves keeps_inv (rename_module old_key new_key)" "preserves keeps_inv (change_input_at n key option x)"
  "preserves keeps_inv (change_submod_at n key slot key')" "preserves keeps_inv (run_as_at pycast n pt key args)"
  unfolding rename_module_def change_input_at_def change_submod_at_def run_as_at_def by (intro frames)+

lemma inv_set_runtime [frames]: "preserves keeps_inv (on_mm (mm_set_runtime rt))"
  by (rule inv_on_mm) (simp add: mm_set_runtime_def mm_invs)

lemma preserves_inv: "preserves keeps_inv m \<Longrightarrow> mm_inv s \<Longrightarrow> mm_inv (snd (m s))"
  unfolding preserves_def by blast

lemma inv_step: "mm_step pycast s s' \<Longrightarrow> mm_inv s \<Longrightarrow> mm_inv s'"
  by (erule mm_stepE) (auto intro!: preserves_inv frames inv_alloc_base)

lemma inv_reachable: "mm_reachable pycast s \<Longrightarrow> mm_inv s"
  by (induction rule: mm_reachable.induct) (auto simp: mm_invs mm_new_def hp_init_def om_count_def intro: inv_step)

section \<open>Filling in submodules\<close>

text \<open>
  What \<open>at\<close> may do: give a request that is not ready another module.  That no request that is
  ready changes, not even through changes of other requests, makes it transitive.
\<close>

definition may_fill :: "(nat \<times> input_map \<Rightarrow> bool res) \<Rightarrow> string \<times> submodule_request \<Rightarrow> string \<times> submodule_request \<Rightarrow> bool" where
  "may_fill rdy = (\<lambda>(k, q) (k', q'). k' = k \<and>
     (q' = q \<or> (sr_ready rdy q \<noteq> Inr True \<and> (\<exists>c. q' = q\<lparr>sr_module := Some c\<rparr>))))"

definition fills_mod :: "(nat \<times> input_map \<Rightarrow> bool res) \<Rightarrow> 'd module \<Rightarrow> 'd module \<Rightarrow> bool" where
  "fills_mod rdy m m' \<longleftrightarrow> (\<exists>s. list_all2 (may_fill rdy) (mp_submods (mo_pimpl m)) s \<and>
     m' = m\<lparr>mo_pimpl := (mo_pimpl m)\<lparr>mp_submods := s\<rparr>\<rparr>)"

definition fills :: "nat \<Rightarrow> 'd heap \<Rightarrow> 'd heap \<Rightarrow> bool" where
  "fills r h h' \<longleftrightarrow> (\<exists>mods. h' = h\<lparr>hp_mods := mods\<rparr> \<and> (\<forall>a. rel_option (fills_mod (mod_ready r h)) (hp_mods h a) (mods a)))"

lemma may_fill_refl [simp]: "may_fill rdy p p"
  by (simp add: may_fill_def split: prod.split)

lemma fills_mod_refl [simp]: "fills_mod rdy m m"
  by (auto simp: fills_mod_def list_all2_refl intro!: exI [of _ "mp_submods (mo_pimpl m)"])

lemma fills_refl [simp]: "fills r h h"
  by (auto simp: fills_def option.rel_refl intro!: exI [of _ "hp_mods h"])

text \<open>Readiness for more fuel.\<close>

lemma mod_ready_more: "mod_ready n h x = Inr True \<Longrightarrow> n \<le> r \<Longrightarrow> mod_ready r h x = Inr True"
proof (induction n arbitrary: x r)
  case (Suc n)
  obtain a ins where x: "x = (a, ins)" by (cases x)
  obtain r' where r: "r = Suc r'" "n \<le> r'" using Suc.prems(2) by (cases r) auto
  show ?case
    using Suc.prems(1) Suc.IH [OF _ r(2)] unfolding x r(1) mod_ready_True_iff by fastforce
qed (simp add: mod_ready_def)

lemma list_all2_id: "list_all2 P xs ys \<Longrightarrow> \<forall>x \<in> set xs. \<forall>y. P x y \<longrightarrow> y = x \<Longrightarrow> ys = xs"
  by (induction rule: list_all2_induct) auto

lemma fills_ready:
  assumes "fills r h h'"
  shows "n \<le> r \<Longrightarrow> mod_ready n h x = Inr True \<Longrightarrow> mod_ready n h' x = Inr True"
proof (induction n arbitrary: x)
  case (Suc n)
  obtain a ins where x: "x = (a, ins)" by (cases x)
  obtain m where m: "hp_mods h a = Some m" "mp_has_module (mo_pimpl m)"
      "\<forall>(k, v) \<in> set (mp_inputs (mo_pimpl m)). mi_ready v \<or> k \<in> fst ` set ins"
      "\<forall>(k, q) \<in> set (mp_submods (mo_pimpl m)). sr_has_type q \<and>
         (\<exists>c. sr_module q = Some c \<and> mod_ready n h (c, sr_inputs q) = Inr True)"
    using Suc.prems(2) unfolding x mod_ready_True_iff by blast
  obtain m' where m': "hp_mods h' a = Some m'" "fills_mod (mod_ready r h) m m'"
    using assms m(1) unfolding fills_def by (auto simp: option_rel_Some1 dest!: spec [of _ a])
  have "sr_ready (mod_ready r h) q = Inr True" if "(k, q) \<in> set (mp_submods (mo_pimpl m))" for k q
    using that m(4) mod_ready_more [of n h _ r] Suc.prems(1) by (fastforce simp: sr_ready_True_iff)
  then have "\<forall>p \<in> set (mp_submods (mo_pimpl m)). \<forall>p'. may_fill (mod_ready r h) p p' \<longrightarrow> p' = p"
    by (auto simp: may_fill_def)
  then have "m' = m" using m'(2) list_all2_id by (fastforce simp: fills_mod_def)
  then show ?case
    using m m'(1) Suc.IH Suc.prems(1) unfolding x mod_ready_True_iff by fastforce
qed (simp add: mod_ready_def)

lemma sr_ready_fills:
  assumes "fills r h h'" and "sr_ready (mod_ready r h) q = Inr True"
  shows "sr_ready (mod_ready r h') q = Inr True"
  using assms(2) fills_ready [OF assms(1), of r] by (auto simp: sr_ready_True_iff)

lemma may_fill_trans:
  assumes "fills r h h'" and "may_fill (mod_ready r h) p p'" and "may_fill (mod_ready r h') p' p''"
  shows "may_fill (mod_ready r h) p p''"
  using assms(2,3) sr_ready_fills [OF assms(1), of "snd p"] by (fastforce simp: may_fill_def split: prod.splits)

lemma fills_trans:
  assumes f: "fills r h h1" and g: "fills r h1 h2"
  shows "fills r h h2"
proof -
  obtain mods where h1: "h1 = h\<lparr>hp_mods := mods\<rparr>" "\<And>a. rel_option (fills_mod (mod_ready r h)) (hp_mods h a) (mods a)"
    using f by (auto simp: fills_def)
  obtain mods' where h2: "h2 = h1\<lparr>hp_mods := mods'\<rparr>" "\<And>a. rel_option (fills_mod (mod_ready r h1)) (mods a) (mods' a)"
    using g by (auto simp: fills_def h1(1))
  have "fills_mod (mod_ready r h) m m''"
    if m: "fills_mod (mod_ready r h) m m'" and m': "fills_mod (mod_ready r h1) m' m''" for m m' m''
  proof -
    obtain s where s: "list_all2 (may_fill (mod_ready r h)) (mp_submods (mo_pimpl m)) s"
        "m' = m\<lparr>mo_pimpl := (mo_pimpl m)\<lparr>mp_submods := s\<rparr>\<rparr>"
      using m by (auto simp: fills_mod_def)
    obtain s' where s': "list_all2 (may_fill (mod_ready r h1)) s s'"
        "m'' = m'\<lparr>mo_pimpl := (mo_pimpl m')\<lparr>mp_submods := s'\<rparr>\<rparr>"
      using m' s(2) by (auto simp: fills_mod_def)
    have "list_all2 (may_fill (mod_ready r h)) (mp_submods (mo_pimpl m)) s'"
      by (rule list_all2_trans [OF _ s(1) s'(1)]) (rule may_fill_trans [OF f])
    then show ?thesis using s(2) s'(2) by (auto simp: fills_mod_def)
  qed
  then have "rel_option (fills_mod (mod_ready r h)) (hp_mods h a) (mods' a)" for a
    using h1(2) [of a] h2(2) [of a] by (cases "hp_mods h a"; cases "mods a"; cases "mods' a") auto
  then show ?thesis by (auto simp: fills_def h1(1) h2(1))
qed

interpretation fill_frames: frame_rule "fills r" for r
  by unfold_locales (simp, rule fills_trans)

lemma may_fill_upd:
  assumes "list_all2 (may_fill rdy) L s" and "om_find f k L = Some v" and "sr_ready rdy v \<noteq> Inr True"
    and "om_find f k s = Some q"
  shows "list_all2 (may_fill rdy) L (om_upd f k (q\<lparr>sr_module := Some c\<rparr>) s)"
  using assms
proof (induction rule: list_all2_induct)
  case (Cons p L p' s)
  then show ?case by (cases p; cases p') (auto simp: may_fill_def split: if_splits)
qed simp

lemma fills_change:
  assumes f: "fills r h h1" and m: "hp_mods h a = Some m" and v: "ci_find k (mp_submods (mo_pimpl m)) = Some v"
    and unready: "sr_ready (mod_ready r h) v \<noteq> Inr True"
  shows "fills r h (snd (mod_change_submod a k (Some d) h1))"
proof -
  obtain mods where h1: "h1 = h\<lparr>hp_mods := mods\<rparr>" "\<And>a. rel_option (fills_mod (mod_ready r h)) (hp_mods h a) (mods a)"
    using f by (auto simp: fills_def)
  obtain s where s: "list_all2 (may_fill (mod_ready r h)) (mp_submods (mo_pimpl m)) s"
      "mods a = Some (m\<lparr>mo_pimpl := (mo_pimpl m)\<lparr>mp_submods := s\<rparr>\<rparr>)"
    using h1(2) [of a] m by (auto simp: option_rel_Some1 fills_mod_def)
  let ?m1 = "m\<lparr>mo_pimpl := (mo_pimpl m)\<lparr>mp_submods := s\<rparr>\<rparr>"
  show ?thesis
  proof (cases "mo_change_submod (mod_types h1) k (Some d) ?m1")
    case (Inl e)
    then show ?thesis using f s(2) by (simp add: mod_change_submod_def on_mod_def mod_at_def h1(1))
  next
    case (Inr m2)
    then obtain q where q: "ci_find k s = Some q"
        "m2 = m\<lparr>mo_pimpl := (mo_pimpl m)\<lparr>mp_submods := om_upd ci_fold k (q\<lparr>sr_module := Some d\<rparr>) s\<rparr>\<rparr>"
      by (auto simp: mo_change_submod_def bindR_Inr_iff om_at_Inr_iff mp_submods'_def sr_change_def
          srp_set_module_def om_set_def om_count_def split: if_splits)
    then have "fills_mod (mod_ready r h) m m2"
      using may_fill_upd [OF s(1) v unready q(1)] by (auto simp: fills_mod_def)
    then have "rel_option (fills_mod (mod_ready r h)) (hp_mods h b) ((mods(a \<mapsto> m2)) b)" for b
      using h1(2) [of b] m by simp
    then show ?thesis
      using Inr s(2) by (auto simp: mod_change_submod_def on_mod_def mod_at_def upd_mod_def h1(1) fills_def)
  qed
qed

lemma fills_slot:
  assumes "\<And>key. preserves (fills r) (rec key)"
  shows "preserves (fills r) (mm_fill_slot rec r mm a k)"
  unfolding preserves_def
proof
  fix h
  let ?rest = "\<lambda>v t ok. if \<not> ok \<and> ti_count t (mm_defaults mm) then
       bindS (liftS (ti_at t (mm_defaults mm))) (\<lambda>dkey.
       bindS (rec dkey) (\<lambda>default_mod.
       bindS (liftS (ti_at t (mm_inputs mm))) (\<lambda>inps.
       bindS (\<lambda>h. (mod_ready r h (default_mod, inps), h)) (\<lambda>ready.
       if ready then mod_change_submod a k (Some default_mod) else retS ()))))
     else retS ()"
  show "fills r h (snd (mm_fill_slot rec r mm a k h))"
  proof (cases "bindR (mod_at h a) (\<lambda>m. bindR (mp_submods' (mo_pimpl m)) (ci_at k))")
    case (Inr v)
    then obtain m where m: "hp_mods h a = Some m" "ci_find k (mp_submods (mo_pimpl m)) = Some v"
      by (cases "hp_mods h a") (auto simp: bindR_Inr_iff mod_at_def mp_submods'_def om_at_Inr_iff)
    show ?thesis
    proof (cases "srp_type v")
      case (Inr t)
      show ?thesis
      proof (cases "sr_ready (mod_ready r h) v")
        case (Inr ok)
        have "fills r h (snd (?rest v t ok h))"
        proof (cases "ok \<or> ti_find t (mm_defaults mm) = None \<or> (\<exists>dkey. ti_find t (mm_defaults mm) = Some dkey \<and> isl (fst (rec dkey h)))")
          case True
          have "rec key h = (res, h1) \<Longrightarrow> fills r h h1" for key res h1
            by (rule preservesD [OF assms])
          with True show ?thesis
            by (auto simp: om_count_def om_at_def bindS_def split: prod.split sum.split)
        next
          case False
          then obtain dkey where dkey: "\<not> ok" "ti_find t (mm_defaults mm) = Some dkey" "\<not> isl (fst (rec dkey h))"
            by auto
          obtain res h1 where rec: "rec dkey h = (res, h1)" by (cases "rec dkey h")
          then obtain d where "res = Inr d" using dkey(3) by (cases res) simp_all
          then have d: "\<not> ok" "ti_find t (mm_defaults mm) = Some dkey" "rec dkey h = (Inr d, h1)"
            using dkey rec by simp_all
          have f: "fills r h h1" by (rule preservesD [OF assms d(3)])
          have "sr_ready (mod_ready r h) v \<noteq> Inr True" using Inr d(1) by simp
          from fills_change [OF f m this] show ?thesis
            using f d by (auto simp: om_count_def om_at_def bindS_def split: option.split sum.split)
        qed
        then show ?thesis using \<open>bindR _ _ = Inr v\<close> \<open>srp_type v = _\<close> Inr by (simp add: mm_fill_slot_def bindS_def)
      qed (use \<open>bindR _ _ = Inr v\<close> Inr in \<open>simp add: mm_fill_slot_def bindS_def\<close>)
    qed (use Inr in \<open>simp add: mm_fill_slot_def bindS_def\<close>)
  qed (simp add: mm_fill_slot_def bindS_def)
qed

lemma fills_at [frames]: "preserves (fills r) (mm_at r n mm key)"
proof (induction n arbitrary: key)
  case (Suc n)
  show ?case by (auto simp: mm_at_step_def intro!: frames fills_slot Suc)
qed (simp add: frames)

section \<open>Adding a module\<close>

lemma mmc_get_total:
  "\<exists>mc c' w'. mmc_get r (c, w) = (Inr mc, (c', w')) \<and> mmc_find r c' = Some mc \<and>
     (\<forall>r'. mmc_find r' c \<noteq> None \<longrightarrow> mmc_find r' c' = mmc_find r' c)"
proof (cases "mmc_find r c")
  case None
  let ?w = "w\<lparr>cw_next_db := Suc (cw_next_db w)\<rparr>"
  show ?thesis
  proof (cases r)
    case (Req_module key)
    let ?mc = "Some (df_default_module_db (cw_next_db w) key (mmc_db_factory (mmc_pimpl' c)))"
    let ?c = "Some (mmc_module_caches_update (std_emplace key ?mc) (mmc_pimpl' c))"
    have "mmc_find r' ?c = (if r' = r then Some ?mc else mmc_find r' c)" for r'
      using None unfolding Req_module by (rule mmc_find_emplace(1))
    moreover have "mmc_get r (c, w) = (Inr ?mc, (?c, ?w))"
      using None Req_module
      by (simp add: mmc_get_or_make_module_cache_def Let_def bindS_def om_count_def om_at_def om_simps mmc_make_module_cache'_def)
    ultimately show ?thesis using None by auto
  next
    case (Req_user key)
    let ?mc = "Some (df_default_module_db (cw_next_db w) (mmc_mangle key) (mmc_db_factory (mmc_pimpl' c)))"
    let ?c = "Some (mmc_user_caches_update (std_emplace (mmc_mangle key) ?mc) (mmc_pimpl' c))"
    have "mmc_find r' ?c = (if r' = r then Some ?mc else mmc_find r' c)" for r'
      using None unfolding Req_user by (rule mmc_find_emplace(2))
    moreover have "mmc_get r (c, w) = (Inr ?mc, (?c, ?w))"
      using None Req_user
      by (simp add: mmc_get_or_make_user_cache_def Let_def bindS_def om_count_def om_at_def om_simps mmc_make_module_cache'_def)
    ultimately show ?thesis using None by auto
  qed
qed (auto simp: mmc_get_found)

text \<open>The caches of a manager after a request, and what it finds later under the same request.\<close>

definition mm_finds :: "cache_request \<Rightarrow> 'd manager \<Rightarrow> 'd module_cache option" where
  "mm_finds r mm = (case mm_pcaches mm of None \<Rightarrow> None | Some c \<Rightarrow> mmc_find r c)"

definition mm_caches_grow :: "'d manager \<Rightarrow> 'd manager \<Rightarrow> bool" where
  "mm_caches_grow mm mm' \<longleftrightarrow> (\<exists>pc. mm' = mm\<lparr>mm_pcaches := pc\<rparr>) \<and> mm_has_cache mm' = mm_has_cache mm \<and>
     (\<forall>r. mm_finds r mm \<noteq> None \<longrightarrow> mm_finds r mm' = mm_finds r mm)"

lemma on_caches_get:
  "\<exists>mc mm' w. on_caches (mmc_get r) (mm, h) = (Inr mc, (mm', h\<lparr>hp_cw := w\<rparr>)) \<and> mm_caches_grow mm mm' \<and>
     mc = mm_finds r mm' \<and> (mc = None \<longleftrightarrow> \<not> mm_has_cache mm)"
proof (cases "mm_pcaches mm")
  case (Some c)
  obtain mc c' w where g: "mmc_get r (c, hp_cw h) = (Inr mc, (c', w))" "mmc_find r c' = Some mc"
      "\<forall>r'. mmc_find r' c \<noteq> None \<longrightarrow> mmc_find r' c' = mmc_find r' c"
    using mmc_get_total [of r c "hp_cw h"] by blast
  then show ?thesis by (auto simp: on_caches_def Some mm_has_cache_def mm_finds_def mm_caches_grow_def)
next
  case None
  have "mm = mm\<lparr>mm_pcaches := None\<rparr>" using None by simp
  then have "mm_caches_grow mm mm" unfolding mm_caches_grow_def by blast
  moreover have "h = h\<lparr>hp_cw := hp_cw h\<rparr>" by simp
  ultimately show ?thesis by (auto simp: on_caches_def None mm_has_cache_def mm_finds_def intro!: exI [of _ "hp_cw h"])
qed

lemmas on_caches_user = on_caches_get [of "Req_user u" for u, unfolded mmc_get.simps]
lemmas on_caches_module = on_caches_get [of "Req_module key" for key, unfolded mmc_get.simps]

lemma on_base_eval:
  "hp_bases h p = Some b \<Longrightarrow> on_base p f (mm, h) = (Inr (), (mm, h\<lparr>hp_bases := (hp_bases h)(p \<mapsto> f b)\<rparr>))"
  by (simp add: on_base_def on_heap_def upd_base_def base_at_def)

definition same_fields :: "'d module_base \<Rightarrow> 'd module_base \<Rightarrow> bool" where
  "same_fields b b' \<longleftrightarrow> mb_inputs b' = mb_inputs b \<and> mb_submods b' = mb_submods b \<and>
     mb_property_types b' = mb_property_types b \<and> mb_python_property_types b' = mb_python_property_types b \<and>
     mb_type b' = mb_type b \<and> mb_is_python b' = mb_is_python b \<and> mb_run b' = mb_run b"

lemma mp_make_fields:
  assumes "hp_bases h q = Some b" and "hp_bases h' q = Some b'" and "same_fields b b'"
  shows "mp_make h' (Some q) mc = bindR (mp_make h (Some q) None) (\<lambda>p. Inr (p\<lparr>mp_cache := mc\<rparr>))"
  using assms by (cases "im_copy (mb_inputs b)"; cases "om_copy sr_clone (mb_submods b)")
    (simp_all add: mp_make_def base_at_def same_fields_def mp_new_def)

text \<open>The setters \<open>add_module\<close> calls on the implementation.\<close>

definition configured :: "uuid \<Rightarrow> nat option \<Rightarrow> 'd user_cache option \<Rightarrow> 'd module_base \<Rightarrow> 'd module_base" where
  "configured u rt uc b =
     (let b' = mb_set_uuid u (mb_set_runtime rt b) in case uc of None \<Rightarrow> b' | Some c \<Rightarrow> mb_set_cache uc b')"

lemma same_fields_configured [simp]: "same_fields b (configured u rt uc b)"
  by (cases uc) (simp_all add: same_fields_def configured_def mb_set_uuid_def mb_set_runtime_def mb_set_cache_def)

text \<open>The implementation a module added from \<open>p\<close> runs.\<close>

definition base_used :: "'d manager \<Rightarrow> nat \<Rightarrow> 'd module_base \<Rightarrow> nat" where
  "base_used mm p b = (if mb_is_python b then p
     else case ti_find (mb_type b) (mm_bases mm) of Some q \<Rightarrow> q | None \<Rightarrow> p)"

lemma mm_base_for_eval:
  assumes "hp_bases h p = Some b"
  shows "\<exists>mm'. mm_base_for key p (mm, h) = (Inr (base_used mm p b), (mm', h)) \<and> mm_modules mm' = mm_modules mm \<and>
    mm_pcaches mm' = mm_pcaches mm \<and> mm_defaults mm' = mm_defaults mm"
proof (cases "mb_is_python b")
  case True
  then show ?thesis
    using assms by (simp add: mm_base_for_def asks_def bindS_def on_mm_def base_at_def om_at_def om_find_set base_used_def)
next
  case False
  then show ?thesis
    using assms by (simp add: mm_base_for_def asks_def bindS_def on_mm_def base_at_def om_at_def om_find_emplace
        base_used_def split: option.split)
qed

lemma base_used_grow:
  "mm_caches_grow mm mm' \<Longrightarrow> same_fields b b' \<Longrightarrow> base_used mm' p b' = base_used mm p b"
  by (auto simp: base_used_def mm_caches_grow_def same_fields_def)

lemma mm_caches_grow_trans:
  "mm_caches_grow mm mm1 \<Longrightarrow> mm_caches_grow mm1 mm2 \<Longrightarrow> mm_caches_grow mm mm2"
  unfolding mm_caches_grow_def by (elim exE conjE, simp) blast

text \<open>The first half of \<open>add_module\<close>: the implementation gets its runtime, its UUID and its cache,
  and the rest goes on from there.\<close>

lemma set_up_eval:
  assumes b: "hp_bases h p = Some b" and u: "u = cw_gen (hp_cw h) (cw_next_uuid (hp_cw h))"
  shows "\<exists>uc mm1 h1. mm_caches_grow mm mm1 \<and> uc = mm_finds (Req_user u) mm1 \<and> (uc = None \<longleftrightarrow> \<not> mm_has_cache mm) \<and>
    hp_bases h1 = (hp_bases h)(p \<mapsto> configured u (mm_runtime mm) uc b) \<and> hp_mods h1 = hp_mods h \<and>
    hp_next_mod h1 = hp_next_mod h \<and>
    (\<forall>K. bindS (on_heap (on_cw generate_uuid)) (\<lambda>uuid.
       bindS (asks (\<lambda>(mm, h). Inr (mm_runtime mm))) (\<lambda>runtime.
       bindS (on_base p (mb_set_runtime runtime)) (\<lambda>_.
       bindS (on_base p (mb_set_uuid uuid)) (\<lambda>_.
       bindS (on_caches (mmc_get_or_make_user_cache uuid)) (\<lambda>internal_cache.
       bindS (case internal_cache of None \<Rightarrow> retS () | Some c \<Rightarrow> on_base p (mb_set_cache internal_cache)) (\<lambda>_.
       K :: ('d mm_state, unit) op)))))) (mm, h) = K (mm1, h1))"
proof -
  let ?h1 = "h\<lparr>hp_cw := (hp_cw h)\<lparr>cw_next_uuid := Suc (cw_next_uuid (hp_cw h))\<rparr>\<rparr>"
  let ?h3 = "?h1\<lparr>hp_bases := (hp_bases h)(p \<mapsto> mb_set_uuid u (mb_set_runtime (mm_runtime mm) b))\<rparr>"
  have 1: "on_heap (on_cw generate_uuid) (mm, h) = (Inr u, (mm, ?h1))"
    by (simp add: on_heap_def on_cw_def generate_uuid_def u)
  have 2: "on_base p (mb_set_runtime (mm_runtime mm)) (mm, ?h1) =
      (Inr (), (mm, ?h1\<lparr>hp_bases := (hp_bases h)(p \<mapsto> mb_set_runtime (mm_runtime mm) b)\<rparr>))"
    using b by (simp add: on_base_eval)
  have 3: "on_base p (mb_set_uuid u) (mm, ?h1\<lparr>hp_bases := (hp_bases h)(p \<mapsto> mb_set_runtime (mm_runtime mm) b)\<rparr>) = (Inr (), (mm, ?h3))"
    by (simp add: on_base_eval)
  obtain uc mm1 h4 where 4: "on_caches (mmc_get_or_make_user_cache u) (mm, ?h3) = (Inr uc, (mm1, h4))"
      and uc: "mm_caches_grow mm mm1" "uc = mm_finds (Req_user u) mm1" "uc = None \<longleftrightarrow> \<not> mm_has_cache mm"
      and h4: "hp_bases h4 = hp_bases ?h3" "hp_mods h4 = hp_mods h" "hp_next_mod h4 = hp_next_mod h"
    using on_caches_user [of u mm ?h3] by (elim exE conjE) (rule that, assumption+, simp_all)
  obtain h5 where 5: "(case uc of None \<Rightarrow> retS () | Some c \<Rightarrow> on_base p (mb_set_cache uc)) (mm1, h4) = (Inr (), (mm1, h5))"
      and h5: "hp_bases h5 = (hp_bases h)(p \<mapsto> configured u (mm_runtime mm) uc b)" "hp_mods h5 = hp_mods h" "hp_next_mod h5 = hp_next_mod h"
    using h4 by (cases uc) (simp_all add: on_base_eval configured_def)
  show ?thesis
    by (intro exI [of _ uc] exI [of _ mm1] exI [of _ h5] conjI uc h5) (simp add: bindS_def asks_def 1 2 3 4 5)
qed

text \<open>The caches of one request outlive the next one.\<close>

lemma mm_finds_grow:
  assumes "mm_caches_grow mm mm1" "mm_caches_grow mm1 mm2" "uc = mm_finds r mm1" "uc = None \<longleftrightarrow> \<not> mm_has_cache mm"
  shows "mm_finds r mm2 = uc"
proof (cases uc)
  case None
  then have "mm_pcaches mm2 = None" using assms by (simp add: mm_caches_grow_def mm_has_cache_def)
  then show ?thesis by (simp add: None mm_finds_def)
qed (use assms in \<open>simp add: mm_caches_grow_def\<close>)

lemma add_module_eval:
  assumes fresh: "\<not> mm_count (mm :: 'd manager) key" and b: "hp_bases h p = Some b"
    and q: "hp_bases h (base_used mm p b) = Some bq" and make: "mp_make h (Some (base_used mm p b)) None = Inr pimpl"
  shows "\<exists>mm' h' u uc mc. mm_add_module key p (mm, h) = (Inr (), (mm', h')) \<and>
    mm_modules mm' = ci_emplace key (hp_next_mod h) (mm_modules mm) \<and> mm_defaults mm' = mm_defaults mm \<and>
    hp_mods h' = (hp_mods h)(hp_next_mod h \<mapsto> \<lparr>mo_pimpl = pimpl\<lparr>mp_cache := mc\<rparr>, mo_name = Some key\<rparr>) \<and>
    hp_bases h' = (hp_bases h)(p \<mapsto> configured u (mm_runtime mm) uc b) \<and>
    u = cw_gen (hp_cw h) (cw_next_uuid (hp_cw h)) \<and>
    uc = mm_finds (Req_user u) mm' \<and> mc = mm_finds (Req_module key) mm' \<and>
    (\<forall>r. mm_finds r mm \<noteq> None \<longrightarrow> mm_finds r mm' = mm_finds r mm) \<and> mm_has_cache mm' = mm_has_cache mm \<and>
    (mc = None \<longleftrightarrow> \<not> mm_has_cache mm) \<and> hp_next_mod h' = Suc (hp_next_mod h)"
proof -
  define u where "u = cw_gen (hp_cw h) (cw_next_uuid (hp_cw h))"
  obtain uc mm1 h1 where g1: "mm_caches_grow mm mm1"
      and uc: "uc = mm_finds (Req_user u) mm1" "uc = None \<longleftrightarrow> \<not> mm_has_cache mm"
      and h1: "hp_bases h1 = (hp_bases h)(p \<mapsto> configured u (mm_runtime mm) uc b)" "hp_mods h1 = hp_mods h"
        "hp_next_mod h1 = hp_next_mod h"
      and up: "\<And>K. bindS (on_heap (on_cw generate_uuid)) (\<lambda>uuid.
       bindS (asks (\<lambda>(mm, h). Inr (mm_runtime mm))) (\<lambda>runtime.
       bindS (on_base p (mb_set_runtime runtime)) (\<lambda>_.
       bindS (on_base p (mb_set_uuid uuid)) (\<lambda>_.
       bindS (on_caches (mmc_get_or_make_user_cache uuid)) (\<lambda>internal_cache.
       bindS (case internal_cache of None \<Rightarrow> retS () | Some c \<Rightarrow> on_base p (mb_set_cache internal_cache)) (\<lambda>_.
       K :: ('d mm_state, unit) op)))))) (mm, h) = K (mm1, h1)"
    using set_up_eval [OF b u_def, of mm] by (elim exE conjE) (rule that, auto)
  obtain mc mm2 w2 where 1: "on_caches (mmc_get_or_make_module_cache key) (mm1, h1) = (Inr mc, (mm2, h1\<lparr>hp_cw := w2\<rparr>))"
      and g2: "mm_caches_grow mm1 mm2" and mc: "mc = mm_finds (Req_module key) mm2" "mc = None \<longleftrightarrow> \<not> mm_has_cache mm1"
    using on_caches_module [of key mm1 h1] by (elim exE conjE) (rule that)
  let ?h2 = "h1\<lparr>hp_cw := w2\<rparr>"
  have g: "mm_caches_grow mm mm2" by (rule mm_caches_grow_trans [OF g1 g2])
  obtain mm3 where 2: "mm_base_for key p (mm2, ?h2) = (Inr (base_used mm p b), (mm3, ?h2))"
      and mm3: "mm_modules mm3 = mm_modules mm2" "mm_pcaches mm3 = mm_pcaches mm2" "mm_defaults mm3 = mm_defaults mm2"
    using mm_base_for_eval [of ?h2 p _ key mm2] base_used_grow [OF g same_fields_configured] h1(1) by fastforce
  have "\<exists>b'. hp_bases ?h2 (base_used mm p b) = Some b' \<and> same_fields bq b'"
    using q b h1(1) by (cases "base_used mm p b = p") (simp_all add: same_fields_def [of bq bq])
  then have 3: "mp_make ?h2 (Some (base_used mm p b)) mc = Inr (pimpl\<lparr>mp_cache := mc\<rparr>)"
    using mp_make_fields [OF q] make by auto
  let ?mm = "mm_modules_update (ci_emplace key (hp_next_mod h)) mm3"
  let ?h = "?h2\<lparr>hp_mods := (hp_mods h)(hp_next_mod h \<mapsto> \<lparr>mo_pimpl = pimpl\<lparr>mp_cache := mc\<rparr>, mo_name = Some key\<rparr>),
      hp_next_mod := Suc (hp_next_mod h)\<rparr>"
  have "mm_add_module key p (mm, h) = mm_register key \<lparr>mo_pimpl = pimpl\<lparr>mp_cache := mc\<rparr>, mo_name = None\<rparr> (mm3, ?h2)"
    unfolding mm_add_module_def using fresh by (simp add: mm_assert_unique_key'_def bindS_def [of "asks _"] asks_def up) (simp add: bindS_def asks_def 1 2 3)
  also have "\<dots> = (Inr (), (?mm, ?h))"
    using h1 by (simp add: mm_register_def bindS_def on_heap_def alloc_mod_def on_mm_def set_name_def)
  finally have run: "mm_add_module key p (mm, h) = (Inr (), (?mm, ?h))" .
  have finds: "mm_finds r ?mm = mm_finds r mm2" and has: "mm_has_cache ?mm = mm_has_cache mm" for r
    using g mm3(2) by (simp_all add: mm_finds_def mm_has_cache_def mm_caches_grow_def)
  have mods: "mm_modules ?mm = ci_emplace key (hp_next_mod h) (mm_modules mm)" "mm_defaults ?mm = mm_defaults mm"
      "mm_has_cache mm1 = mm_has_cache mm"
    using g g1 mm3 by (auto simp: mm_caches_grow_def)
  have "\<forall>r. mm_finds r mm \<noteq> None \<longrightarrow> mm_finds r ?mm = mm_finds r mm" using g finds by (simp add: mm_caches_grow_def)
  then show ?thesis
    using run finds has mods mc mm_finds_grow [OF g1 g2 uc] h1(1) u_def
    by (intro exI [of _ ?mm] exI [of _ ?h] exI [of _ u] exI [of _ uc] exI [of _ mc]) simp
qed

end
