(* ===== verification/Manager_Properties.thy ===== *)
theory Manager_Properties
  imports Module_Manager
begin

text \<open>
  What the manager of \<open>Module_Manager\<close> promises: the invariant of its maps, what adding, copying
  and renaming a module do, which requests \<open>at\<close> fills in, and what happens when a default
  names a module that is gone or that needs itself.
\<close>

section \<open>Copying\<close>

lemma om_copy_keys:
  "om_copy sr_clone s = Inr s' \<Longrightarrow> map (\<lambda>(k, r). (k, sr_type r, sr_module r)) s' = map (\<lambda>(k, r). (k, sr_type r, sr_module r)) s"
proof (induction s arbitrary: s')
  case (Cons p s)
  then show ?case by (cases p) (auto simp: om_copy_def sr_clone_def bindR_Inr_iff)
qed (simp add: om_copy_def)

lemma copy_eval:
  assumes "\<not> mm_count mm new_key" and "ci_find old_key (mm_modules mm) = Some a" and "hp_mods h a = Some m"
    and "mp_copy (mo_pimpl m) = Inr p"
  shows "mm_copy_module old_key new_key (mm, h) = (Inr (),
    (mm_modules_update (ci_emplace new_key (hp_next_mod h)) mm,
     h\<lparr>hp_mods := (hp_mods h)(hp_next_mod h \<mapsto> \<lparr>mo_pimpl = p\<lparr>mp_locked := False\<rparr>, mo_name = Some new_key\<rparr>),
       hp_next_mod := Suc (hp_next_mod h)\<rparr>))"
  using assms by (simp add: mm_copy_module_def mm_assert_unique_key'_def asks_def bindS_def om_at_def mod_at_def
      unlocked_copy_def mo_copy_def unlock'_def mm_register_def on_heap_def alloc_mod_def on_mm_def set_name_def)

lemma mm_find_register:
  "\<not> mm_count mm key \<Longrightarrow> ci_find k (ci_emplace key v (mm_modules mm)) =
     (if ci_fold k = ci_fold key then Some v else ci_find k (mm_modules mm))"
  by (auto simp: mm_count_def om_count_def om_find_emplace)

lemma on_mod_other: "b \<noteq> a \<Longrightarrow> hp_mods (snd (on_mod a f h)) b = hp_mods h b"
  by (simp add: on_mod_def upd_mod_def split: sum.split)

section \<open>What the invariant gives\<close>

lemma mm_inv_named:
  assumes "mm_inv (mm, h)" and k: "ci_find k (mm_modules mm) = Some a"
  shows "\<exists>m name. mod_at h a = Inr m \<and> get_name m = Inr name \<and> ci_fold name = ci_fold k \<and> name \<in> set (mm_keys mm)"
proof -
  obtain j where j: "(j, a) \<in> set (mm_modules mm)" "ci_fold j = ci_fold k" using om_find_Some_set [OF k] by blast
  have "\<forall>(k, a) \<in> set (mm_modules mm). \<exists>m. hp_mods h a = Some m \<and> mo_name m = Some k"
    using assms(1) by (simp add: mm_invs)
  from bspec [OF this j(1)] obtain m where "hp_mods h a = Some m" "mo_name m = Some j" by auto
  then show ?thesis using j by (force simp: mod_at_def get_name_def mm_keys_def)
qed

lemma mm_inv_unique:
  assumes "mm_inv (mm, h)" and k: "ci_find k (mm_modules mm) = Some a" and k': "ci_find k' (mm_modules mm) = Some a"
  shows "ci_fold k = ci_fold k'"
proof -
  obtain j where j: "(j, a) \<in> set (mm_modules mm)" "ci_fold j = ci_fold k" using om_find_Some_set [OF k] by blast
  obtain j' where j': "(j', a) \<in> set (mm_modules mm)" "ci_fold j' = ci_fold k'" using om_find_Some_set [OF k'] by blast
  have "inj_on snd (set (mm_modules mm))" using assms(1) by (simp add: mm_invs distinct_map)
  from inj_onD [OF this _ j(1) j'(1)] show ?thesis using j(2) j'(2) by simp
qed

lemma mm_inv_class:
  assumes "mm_inv (mm, h)" and t: "ti_find t (mm_bases mm) = Some b"
  shows "\<exists>x. base_at h b = Inr x \<and> mb_type x = t \<and> \<not> mb_is_python x"
proof -
  have "(t, b) \<in> set (mm_bases mm)" using om_find_Some_set [OF t] by auto
  moreover have "\<forall>(t, b) \<in> set (mm_bases mm). \<exists>x. hp_bases h b = Some x \<and> mb_type x = t \<and> \<not> mb_is_python x"
    using assms(1) by (simp add: mm_invs)
  ultimately obtain x where "hp_bases h b = Some x" "mb_type x = t" "\<not> mb_is_python x" by fast
  then show ?thesis by (simp add: base_at_def)
qed

section \<open>Properties\<close>

text \<open>C10: The invariant of a module manager. In every state a sequence of its calls can reach,
  whatever their outcomes, the keys are sorted and distinct ignoring case and as many as
  \<open>size\<close> says; every key leads to a module of its own, whose name is the key as it was given; the
  implementation registered for a C++ class is of that class; and a property type has a default
  exactly when it has the inputs to test that default with.\<close>

theorem manager_invariant:
  assumes "mm_reachable pycast (mm, h)"
  shows "sorted_wrt (<) (map ci_fold (mm_keys mm)) \<and> mm_size mm = length (mm_keys mm) \<and>
    (\<forall>k. mm_count mm k = (\<exists>a. ci_find k (mm_modules mm) = Some a)) \<and>
    (\<forall>k a. ci_find k (mm_modules mm) = Some a \<longrightarrow>
       (\<exists>m name. mod_at h a = Inr m \<and> get_name m = Inr name \<and> ci_fold name = ci_fold k \<and> name \<in> set (mm_keys mm))) \<and>
    (\<forall>k k' a. ci_find k (mm_modules mm) = Some a \<and> ci_find k' (mm_modules mm) = Some a \<longrightarrow> ci_fold k = ci_fold k') \<and>
    (\<forall>t b. ti_find t (mm_bases mm) = Some b \<longrightarrow> (\<exists>x. base_at h b = Inr x \<and> mb_type x = t \<and> \<not> mb_is_python x)) \<and>
    (\<forall>t. ti_count t (mm_defaults mm) = ti_count t (mm_inputs mm))"
proof -
  have inv: "mm_inv (mm, h)" by (rule inv_reachable [OF assms])
  have "sorted_wrt (<) (map ci_fold (mm_keys mm))"
    using inv by (simp add: mm_invs om_wf_def mm_keys_def comp_def case_prod_unfold)
  moreover have "\<forall>t. ti_count t (mm_defaults mm) = ti_count t (mm_inputs mm)" using inv by (simp add: mm_invs)
  moreover have "mm_size mm = length (mm_keys mm)" by (simp add: mm_size_def mm_keys_def)
  moreover have "\<forall>k. mm_count mm k = (\<exists>a. ci_find k (mm_modules mm) = Some a)" by (simp add: mm_count_def om_count_def)
  ultimately show ?thesis
    using mm_inv_named [OF inv] mm_inv_unique [OF inv] mm_inv_class [OF inv] by blast
qed

text \<open>C11: What adding a module does. Under a key that is free, the new module has that name, is
  neither locked nor changed from what its developer set up, and uses the cache the manager
  keeps for the key; every other key leads where it did and every other module is as
  it was.  The implementation is the one given only in Python or if it is the first of its C++
  class: otherwise the module runs the implementation of that class that was added first and the
  one given, with its new UUID, is never used, even if it is an object with other behaviour.\<close>

theorem add_module_effect:
  assumes "\<not> mm_count mm key" and "hp_bases h p = Some b"
    and "hp_bases h (base_used mm p b) = Some bq" and "mp_make h (Some (base_used mm p b)) None = Inr pimpl"
  shows "\<exists>mm' h' u uc mc. mm_add_module key p (mm, h) = (Inr (), (mm', h')) \<and>
    (\<forall>k. ci_find k (mm_modules mm') = (if ci_fold k = ci_fold key then Some (hp_next_mod h) else ci_find k (mm_modules mm))) \<and>
    hp_mods h' = (hp_mods h)(hp_next_mod h \<mapsto> \<lparr>mo_pimpl = pimpl\<lparr>mp_cache := mc\<rparr>, mo_name = Some key\<rparr>) \<and>
    mp_base pimpl = Some (base_used mm p b) \<and> \<not> mp_locked pimpl \<and> mc = mm_finds (Req_module key) mm' \<and>
    hp_bases h' = (hp_bases h)(p \<mapsto> configured u (mm_runtime mm) uc b) \<and>
    mb_uuid (configured u (mm_runtime mm) uc b) = u \<and> u = cw_gen (hp_cw h) (cw_next_uuid (hp_cw h))"
proof -
  have "mp_base pimpl = Some (base_used mm p b) \<and> \<not> mp_locked pimpl"
    using assms(4) by (auto simp: mp_make_def bindR_Inr_iff mp_new_def)
  moreover have "mb_uuid (configured u rt uc b) = u" for u rt uc
    by (cases uc) (simp_all add: configured_def mb_set_uuid_def mb_set_cache_def)
  ultimately show ?thesis
    using add_module_eval [OF assms] mm_find_register [OF assms(1)] by fastforce
qed

text \<open>Keys are not reused. While a key is taken, no module is added, copied or renamed to it or to
  a spelling that differs in case: the call throws and changes nothing.\<close>

theorem keys_not_reused:
  assumes "mm_count mm key" and "ci_fold key' = ci_fold key"
  shows "(let e = (Inl (invalid_argument ''Key is in use''), (mm, h)) in
    mm_add_module key' p (mm, h) = e \<and> mm_copy_module old_key key' (mm, h) = e \<and> rename_module old_key key' (mm, h) = e)"
proof -
  have "mm_count mm key'" using assms om_find_cong_key [of ci_fold key' key "mm_modules mm"] by (simp add: mm_count_def om_count_def)
  then have "mm_assert_unique_key' mm key' = Inl (invalid_argument ''Key is in use'')"
    by (simp add: mm_assert_unique_key'_def)
  then show ?thesis
    by (simp add: Let_def mm_add_module_def mm_copy_module_def rename_module_def asks_def bindS_def)
qed

text \<open>C12: A copy is independent. Copying a module makes a new, unlocked one with copies of the inputs and
  requests, the same implementation and cache and the same submodules (which are shared, not copied);
  changing an input or a submodule of the copy afterwards leaves every other module, the
  original included, as it was.\<close>

theorem copy_module_independent:
  assumes "mm_reachable pycast (mm, h)" and "\<not> mm_count mm new_key"
    and "ci_find old_key (mm_modules mm) = Some a" and "hp_mods h a = Some m" and "mp_copy (mo_pimpl m) = Inr p"
  shows "\<exists>mm' h' c. mm_copy_module old_key new_key (mm, h) = (Inr (), (mm', h')) \<and> hp_mods h c = None \<and>
    (\<forall>k. ci_find k (mm_modules mm') = (if ci_fold k = ci_fold new_key then Some c else ci_find k (mm_modules mm))) \<and>
    hp_mods h' = (hp_mods h)(c \<mapsto> \<lparr>mo_pimpl = p\<lparr>mp_locked := False\<rparr>, mo_name = Some new_key\<rparr>) \<and>
    mp_base p = mp_base (mo_pimpl m) \<and> mp_cache p = mp_cache (mo_pimpl m) \<and> im_copy (mp_inputs (mo_pimpl m)) = Inr (mp_inputs p) \<and>
    map (\<lambda>(k, r). (k, sr_type r, sr_module r)) (mp_submods p) =
      map (\<lambda>(k, r). (k, sr_type r, sr_module r)) (mp_submods (mo_pimpl m)) \<and>
    (\<forall>b k x ptr. b \<noteq> c \<longrightarrow> hp_mods (snd (mod_change_input c k x h')) b = hp_mods h b \<and>
       hp_mods (snd (mod_change_submod c k ptr h')) b = hp_mods h b)"
proof -
  have "\<not> hp_next_mod h < hp_next_mod h" by simp
  then have fresh: "hp_mods h (hp_next_mod h) = None"
    using inv_reachable [OF assms(1)] unfolding mm_invs by blast
  have p: "mp_base p = mp_base (mo_pimpl m)" "mp_cache p = mp_cache (mo_pimpl m)"
      "im_copy (mp_inputs (mo_pimpl m)) = Inr (mp_inputs p)" "om_copy sr_clone (mp_submods (mo_pimpl m)) = Inr (mp_submods p)"
    using assms(5) by (auto simp: mp_copy_def bindR_Inr_iff)
  let ?mm = "mm_modules_update (ci_emplace new_key (hp_next_mod h)) mm"
  let ?h = "h\<lparr>hp_mods := (hp_mods h)(hp_next_mod h \<mapsto> \<lparr>mo_pimpl = p\<lparr>mp_locked := False\<rparr>, mo_name = Some new_key\<rparr>),
       hp_next_mod := Suc (hp_next_mod h)\<rparr>"
  show ?thesis
  proof (intro exI conjI)
    show "mm_copy_module old_key new_key (mm, h) = (Inr (), (?mm, ?h))" by (rule copy_eval [OF assms(2-5)])
    show "hp_mods h (hp_next_mod h) = None" by (rule fresh)
    show "\<forall>k. ci_find k (mm_modules ?mm) = (if ci_fold k = ci_fold new_key then Some (hp_next_mod h) else ci_find k (mm_modules mm))"
      using mm_find_register [OF assms(2), of _ "hp_next_mod h"] by simp
  qed (use p om_copy_keys [OF p(4)] in \<open>simp_all add: mod_change_input_def mod_change_submod_def on_mod_other\<close>)
qed

text \<open>A default that needs itself. If the first request of a module is empty and the module is
  itself the default for the property type of that request, retrieving it never returns: \<open>at\<close>
  calls itself without end, whatever bound is put on its recursion.\<close>

theorem default_of_itself_diverges:
  assumes "ci_find key (mm_modules mm) = Some a" and "hp_mods h a = Some m" and "mp_has_module (mo_pimpl m)"
    and "mp_submods (mo_pimpl m) = (k, q) # rest" and "sr_type q = Some t" and "sr_module q = None"
    and "ti_find t (mm_defaults mm) = Some key"
  shows "mm_at r n mm key h = (Inl Out_of_fuel, h)"
proof (induction n)
  case (Suc n)
  have "mm_fill_slot (mm_at r n mm) r mm a k h = (Inl Out_of_fuel, h)"
    using assms Suc
    by (simp add: mm_fill_slot_def mod_at_def mp_submods'_def mp_assert_mod'_def om_at_def srp_type_def sr_ready_def
        srp_ready_def sr_has_defs om_count_def bindS_def)
  then show ?case
    using assms by (simp add: mm_at_step_def mm_count_def om_count_def om_at_def mod_at_def mp_submods'_def
        mp_assert_mod'_def bindS_def)
qed simp

text \<open>A default whose module is gone. After the module that is the default for a property type has
  been erased, as renaming it does, too, retrieving a module whose first request is empty and of
  that type throws: the default still names the old key.\<close>

theorem erased_default_dangles:
  assumes "ci_find key (mm_modules mm) = Some a" and "hp_mods h a = Some m" and "mp_has_module (mo_pimpl m)"
    and "mp_submods (mo_pimpl m) = (k, q) # rest" and "sr_type q = Some t" and "sr_module q = None"
    and "ti_find t (mm_defaults mm) = Some dkey" and "ci_fold dkey \<noteq> ci_fold key"
  shows "mm_at r (Suc (Suc n)) (mm_erase dkey mm) key h =
    (Inl (out_of_range (''ModuleManager has no module with key: '' @ [CHR 0x27] @ dkey @ [CHR 0x27])), h)"
proof -
  let ?e = "Inl (out_of_range (''ModuleManager has no module with key: '' @ [CHR 0x27] @ dkey @ [CHR 0x27]))"
  have "mm_at r (Suc n) (mm_erase dkey mm) dkey h = (?e, h)"
    by (simp add: mm_at_step_def mm_count_def om_count_def mm_erase_def om_find_erase)
  then have "mm_fill_slot (mm_at r (Suc n) (mm_erase dkey mm)) r (mm_erase dkey mm) a k h = (?e, h)"
    using assms
    by (simp add: mm_fill_slot_def mod_at_def mp_submods'_def mp_assert_mod'_def om_at_def srp_type_def sr_ready_def
        srp_ready_def sr_has_defs om_count_def bindS_def mm_erase_def)
  moreover have "ci_find key (mm_modules (mm_erase dkey mm)) = Some a"
    using assms(1,8) by (simp add: mm_erase_def om_find_erase)
  ultimately show ?thesis
    using assms(2-4) by (simp add: mm_at_step_def mm_count_def om_count_def om_at_def mod_at_def mp_submods'_def
        mp_assert_mod'_def bindS_def)
qed

section \<open>Examples\<close>

definition demo_base :: "result_map \<Rightarrow> 'd module_base" where
  "demo_base r = mb_new (mk_rtti ''Demo'') (\<lambda>_ _. Ret r)"

lemma demo_make: "hp_bases h p = Some (demo_base r) \<Longrightarrow> mp_make h (Some p) None = Inr (mp_new\<lparr>mp_base := Some p\<rparr>)"
  by (simp add: mp_make_def base_at_def demo_base_def mb_new_def om_copy_def mp_new_def)

text \<open>A module whose only request is empty.\<close>

definition needy_heap :: "unit heap" where
  "needy_heap = (hp_init (cw_init example_gen ()))\<lparr>hp_mods := [0 \<mapsto> \<lparr>mo_pimpl = mp_new\<lparr>mp_base := Some 0,
     mp_submods := [(''Fock'', \<lparr>sr_desc = None, sr_type = Some (mk_rtti ''Fock''), sr_inputs = [], sr_module = None\<rparr>)]\<rparr>,
     mo_name = Some ''SCF''\<rparr>]\<rparr>"

definition needy_manager :: "string \<Rightarrow> unit manager" where
  "needy_manager dkey = (mm_new None None)\<lparr>mm_modules := [(''SCF'', 0)], mm_defaults := [(mk_rtti ''Fock'', dkey)],
     mm_inputs := [(mk_rtti ''Fock'', [])]\<rparr>"

text \<open>A manager with one module.\<close>

lemma demo_added:
  obtains mm h m where "mm_reachable pycast (mm, h)" "ci_find ''SCF'' (mm_modules mm) = Some 0"
    "\<not> mm_count mm ''MP2''" "hp_mods h 0 = Some m" "mp_copy (mo_pimpl m) = Inr (mo_pimpl m)" "hp_cw h = hp_cw (h :: unit heap)"
proof -
  let ?s0 = "(mm_new None (Some None), hp_init (cw_init example_gen ())) :: unit mm_state"
  let ?h1 = "(hp_init (cw_init example_gen ()))\<lparr>hp_bases := [0 \<mapsto> demo_base []], hp_next_base := 1\<rparr> :: unit heap"
  have s1: "snd (on_heap (alloc_base (demo_base [])) ?s0) = (mm_new None (Some None), ?h1)"
    by (simp add: on_heap_def alloc_base_def hp_init_def)
  have r1: "mm_reachable pycast (mm_new None (Some None), ?h1)"
    using mm_reachable.step [OF mm_reachable.new mm_step.base] s1 by metis
  have used: "base_used (mm_new None (Some None)) 0 (demo_base [] :: unit module_base) = 0"
    by (simp add: base_used_def mm_new_def demo_base_def mb_new_def)
  let ?mm0 = "mm_new None (Some None) :: unit manager"
  have fresh: "\<not> mm_count ?mm0 ''SCF''" by (simp add: mm_count_def om_count_def mm_new_def)
  have b: "hp_bases ?h1 0 = Some (demo_base [])" by simp
  have b': "hp_bases ?h1 (base_used ?mm0 0 (demo_base [])) = Some (demo_base [])" by (simp only: used b)
  have make: "mp_make ?h1 (Some (base_used ?mm0 0 (demo_base []))) None = Inr (mp_new\<lparr>mp_base := Some 0\<rparr>)"
    unfolding used by (rule demo_make [OF b])
  obtain mm' h' mc where a: "mm_add_module ''SCF'' 0 (?mm0, ?h1) = (Inr (), (mm', h'))"
      "mm_modules mm' = ci_emplace ''SCF'' (hp_next_mod ?h1) (mm_modules ?mm0)"
      "hp_mods h' = (hp_mods ?h1)(hp_next_mod ?h1 \<mapsto> \<lparr>mo_pimpl = (mp_new\<lparr>mp_base := Some 0\<rparr>)\<lparr>mp_cache := mc\<rparr>, mo_name = Some ''SCF''\<rparr>)"
    using add_module_eval [OF fresh b b' make] by (elim exE conjE) (rule that)
  then have add: "mm_add_module ''SCF'' 0 (?mm0, ?h1) = (Inr (), (mm', h'))" "mm_modules mm' = [(''SCF'', 0)]"
      "hp_mods h' 0 = Some \<lparr>mo_pimpl = mp_new\<lparr>mp_base := Some 0, mp_cache := mc\<rparr>, mo_name = Some ''SCF''\<rparr>"
    by (simp_all add: mm_new_def om_emplace_def om_count_def hp_init_def)
  have "mm_reachable pycast (mm', h')"
    using mm_reachable.step [OF r1 mm_step.add, of "''SCF''" 0] add(1) by simp
  moreover have "\<not> mm_count mm' ''MP2''" "ci_find ''SCF'' (mm_modules mm') = Some 0"
    unfolding mm_count_def om_count_def add(2) by code_simp+
  moreover have "mp_copy (mp_new\<lparr>mp_base := Some 0, mp_cache := mc\<rparr>) = Inr (mp_new\<lparr>mp_base := Some 0, mp_cache := mc\<rparr>)"
    by (simp add: mp_copy_def mp_new_def om_copy_def)
  ultimately show ?thesis using that add(3) by fastforce
qed

theorem manager_invariant_witness:
  "\<exists>mm h m name. mm_reachable Inr (mm, h :: unit heap) \<and> mod_at h 0 = Inr m \<and> get_name m = Inr name \<and> ci_fold name = ci_fold ''SCF''"
proof -
  obtain mm h where s: "mm_reachable Inr (mm, h :: unit heap)" "ci_find ''SCF'' (mm_modules mm) = Some 0"
    using demo_added [of Inr] by metis
  from manager_invariant [OF s(1)] s(2) have "\<exists>m name. mod_at h 0 = Inr m \<and> get_name m = Inr name \<and> ci_fold name = ci_fold ''SCF''"
    by (elim conjE allE [of _ "''SCF''"] allE [of _ 0]) blast
  then show ?thesis using s(1) by blast
qed

theorem copy_module_independent_witness:
  "\<exists>mm h mm' h' c. mm_reachable Inr (mm, h :: unit heap) \<and> mm_copy_module ''SCF'' ''MP2'' (mm, h) = (Inr (), (mm', h')) \<and>
     hp_mods (snd (mod_change_input c ''x'' (Arg_rvalue (CInt 1)) h')) 0 = hp_mods h 0"
proof -
  obtain mm h m where s: "mm_reachable Inr (mm, h :: unit heap)" "\<not> mm_count mm ''MP2''"
      "ci_find ''SCF'' (mm_modules mm) = Some 0" "hp_mods h 0 = Some m" "mp_copy (mo_pimpl m) = Inr (mo_pimpl m)"
    using demo_added [of Inr] by metis
  obtain mm' h' c where c: "mm_copy_module ''SCF'' ''MP2'' (mm, h) = (Inr (), (mm', h'))" "hp_mods h c = None"
      "\<forall>b k x ptr. b \<noteq> c \<longrightarrow> hp_mods (snd (mod_change_input c k x h')) b = hp_mods h b \<and>
       hp_mods (snd (mod_change_submod c k ptr h')) b = hp_mods h b"
    using copy_module_independent [OF s] by blast
  have "0 \<noteq> c" using c(2) s(4) by (intro notI) simp
  then show ?thesis using s(1) c(1,3) by blast
qed

theorem keys_not_reused_witness:
  "\<exists>mm. fst (mm_copy_module ''MP2'' ''scf'' (mm, needy_heap)) = Inl (invalid_argument ''Key is in use'')"
proof -
  let ?mm = "(mm_new None None)\<lparr>mm_modules := [(''SCF'', 0)]\<rparr> :: unit manager"
  have "ci_fold ''scf'' = ci_fold ''SCF''" by code_simp
  from keys_not_reused [OF _ this, of ?mm needy_heap] show ?thesis
    by (intro exI [of _ ?mm]) (simp add: Let_def mm_count_def om_count_def)
qed

text \<open>Two objects of one C++ class that compute different results.\<close>

theorem add_module_effect_witness:
  "\<exists>mm' h' m. mm_add_module ''B'' 1 ((mm_new None None)\<lparr>mm_bases := [(mk_rtti ''Demo'', 0)], mm_modules := [(''A'', 0)]\<rparr>,
      (hp_init (cw_init example_gen ()))\<lparr>hp_mods := [0 \<mapsto> \<lparr>mo_pimpl = mp_new\<lparr>mp_base := Some 0\<rparr>, mo_name = Some ''A''\<rparr>],
        hp_next_mod := 1, hp_bases := [0 \<mapsto> demo_base [(''a'', None)], 1 \<mapsto> demo_base [(''b'', None)]], hp_next_base := 2\<rparr>) =
      (Inr (), (mm', h')) \<and> hp_mods h' 1 = Some m \<and> mp_base (mo_pimpl m) = Some 0 \<and>
      map_option mb_run (hp_bases h' 0) \<noteq> map_option mb_run (hp_bases h' 1)"
proof -
  let ?mm = "(mm_new None None)\<lparr>mm_bases := [(mk_rtti ''Demo'', 0)], mm_modules := [(''A'', 0)]\<rparr> :: unit manager"
  let ?h = "(hp_init (cw_init example_gen ()))\<lparr>hp_mods := [0 \<mapsto> \<lparr>mo_pimpl = mp_new\<lparr>mp_base := Some 0\<rparr>, mo_name = Some ''A''\<rparr>],
        hp_next_mod := 1, hp_bases := [0 \<mapsto> demo_base [(''a'', None)], 1 \<mapsto> demo_base [(''b'', None)]], hp_next_base := 2\<rparr>"
  have "ci_fold ''A'' \<noteq> ci_fold ''B''" by code_simp
  then have fresh: "\<not> mm_count ?mm ''B''" by (simp add: mm_count_def om_count_def)
  have used: "base_used ?mm 1 (demo_base [(''b'', None)]) = 0"
    by (simp add: base_used_def demo_base_def mb_new_def)
  have run: "mb_run (configured u rt uc (demo_base [(''b'', None)])) \<noteq> mb_run (demo_base [(''a'', None)])" for u rt uc
    by (cases uc) (auto simp: configured_def mb_set_uuid_def mb_set_runtime_def mb_set_cache_def demo_base_def mb_new_def fun_eq_iff)
  have make: "mp_make ?h (Some (base_used ?mm 1 (demo_base [(''b'', None)]))) None = Inr (mp_new\<lparr>mp_base := Some 0\<rparr>)"
    unfolding used by (rule demo_make) simp
  have "hp_bases ?h 1 = Some (demo_base [(''b'', None)])"
      "hp_bases ?h (base_used ?mm 1 (demo_base [(''b'', None)])) = Some (demo_base [(''a'', None)])"
    unfolding used by simp_all
  from add_module_effect [OF fresh this make]
  obtain mm' h' u uc mc where a: "mm_add_module ''B'' 1 (?mm, ?h) = (Inr (), (mm', h'))"
      "hp_mods h' = (hp_mods ?h)(hp_next_mod ?h \<mapsto> \<lparr>mo_pimpl = (mp_new\<lparr>mp_base := Some 0\<rparr>)\<lparr>mp_cache := mc\<rparr>, mo_name = Some ''B''\<rparr>)"
      "hp_bases h' = (hp_bases ?h)(1 \<mapsto> configured u (mm_runtime ?mm) uc (demo_base [(''b'', None)]))"
    by blast
  show ?thesis
  proof (intro exI conjI)
    show "mm_add_module ''B'' 1 (?mm, ?h) = (Inr (), (mm', h'))" by (rule a(1))
    show "hp_mods h' 1 = Some \<lparr>mo_pimpl = (mp_new\<lparr>mp_base := Some 0\<rparr>)\<lparr>mp_cache := mc\<rparr>, mo_name = Some ''B''\<rparr>"
      using a(2) by simp
    have "mb_run (demo_base [(''a'', None)]) \<noteq> mb_run (configured u (mm_runtime ?mm) uc (demo_base [(''b'', None)]))"
      by (rule not_sym [OF run])
    then show "map_option mb_run (hp_bases h' 0) \<noteq> map_option mb_run (hp_bases h' 1)"
      using a(3) by simp
  qed simp
qed

theorem default_of_itself_diverges_witness:
  "\<forall>n. mm_at 5 n (needy_manager ''SCF'') ''SCF'' needy_heap = (Inl Out_of_fuel, needy_heap)"
  using default_of_itself_diverges [of "''SCF''" "needy_manager ''SCF''" 0 needy_heap]
  by (simp add: needy_manager_def needy_heap_def mp_has_module_def)

theorem erased_default_dangles_witness:
  "fst (mm_at 5 2 (mm_erase ''Fock builder'' (needy_manager ''Fock builder'')) ''SCF'' needy_heap) =
     Inl (out_of_range (''ModuleManager has no module with key: '' @ [CHR 0x27] @ ''Fock builder'' @ [CHR 0x27]))"
proof -
  have "ci_fold ''Fock builder'' \<noteq> ci_fold ''SCF''" by code_simp
  from erased_default_dangles [OF _ _ _ _ _ _ _ this, of "needy_manager ''Fock builder''" 0 needy_heap _ _ _ _ _ 5 0]
  show ?thesis by (simp add: needy_manager_def needy_heap_def mp_has_module_def numeral_2_eq_2)
qed


end
