(* ===== verification/Default_Filling.thy ===== *)
theory Default_Filling
  imports Manager_Properties
begin

text \<open>
  When \<open>ModuleManagerPIMPL::at\<close> completes a module: with defaults that cover every request and do
  not need each other in a circle it returns, and the module it returns is ready to run.
\<close>

section \<open>Defaults that cover a manager\<close>

text \<open>A module of the manager, by address.\<close>

definition managed :: "'d manager \<Rightarrow> nat \<Rightarrow> bool" where
  "managed mm a \<longleftrightarrow> (\<exists>key. ci_find key (mm_modules mm) = Some a)"

text \<open>
  A request of module \<open>a\<close> has a type with a default, which is a module of the manager that has
  that type and is below \<open>a\<close> in \<open>rank\<close>; if it holds a module already, that is one below, too.
\<close>

definition slot_covered :: "'d manager \<Rightarrow> 'd heap \<Rightarrow> (nat \<Rightarrow> nat) \<Rightarrow> nat \<Rightarrow> submodule_request \<Rightarrow> bool" where
  "slot_covered mm h rank a q \<longleftrightarrow>
     (\<exists>t dkey d ts. sr_type q = Some t \<and> ti_find t (mm_defaults mm) = Some dkey \<and> ti_count t (mm_inputs mm) \<and>
        ci_find dkey (mm_modules mm) = Some d \<and> rank d < rank a \<and> mod_types h d = Inr ts \<and> t \<in> set ts) \<and>
     (\<forall>c. sr_module q = Some c \<longrightarrow> managed mm c \<and> rank c < rank a)"

definition module_covered :: "'d manager \<Rightarrow> 'd heap \<Rightarrow> (nat \<Rightarrow> nat) \<Rightarrow> nat \<Rightarrow> 'd module \<Rightarrow> bool" where
  "module_covered mm h rank a m \<longleftrightarrow> mp_has_module (mo_pimpl m) \<and> \<not> mp_locked (mo_pimpl m) \<and>
     (\<forall>(k, v) \<in> set (mp_inputs (mo_pimpl m)). mi_ready v) \<and> om_wf ci_fold (mp_submods (mo_pimpl m)) \<and>
     (\<forall>(k, q) \<in> set (mp_submods (mo_pimpl m)). slot_covered mm h rank a q)"

definition defaults_cover :: "'d manager \<Rightarrow> (nat \<Rightarrow> nat) \<Rightarrow> 'd heap \<Rightarrow> bool" where
  "defaults_cover mm rank h \<longleftrightarrow> (\<forall>a. managed mm a \<longrightarrow> (\<exists>m. hp_mods h a = Some m \<and> module_covered mm h rank a m))"

lemma coverE:
  assumes "defaults_cover mm rank h" and "managed mm a"
  obtains m where "hp_mods h a = Some m" "module_covered mm h rank a m"
  using assms by (auto simp: defaults_cover_def)

lemma cover_slot: "module_covered mm h rank a m \<Longrightarrow> (k, q) \<in> set (mp_submods (mo_pimpl m)) \<Longrightarrow> slot_covered mm h rank a q"
  by (auto simp: module_covered_def)

lemma not_set_guts_total: "\<forall>(k, v) \<in> set m. \<exists>b. f v = Inr b \<Longrightarrow> \<exists>ks. not_set_guts' f m = Inr ks"
  by (induction m) auto

text \<open>Readiness answers, and the fuel it gets plays no part above the rank.\<close>

lemma cover_ready:
  assumes "defaults_cover mm rank h"
  shows "managed mm a \<Longrightarrow> rank a < n \<Longrightarrow> mod_ready n h (a, ps) = mod_ready (Suc (rank a)) h (a, ps) \<and>
    (\<exists>b. mod_ready n h (a, ps) = Inr b)"
proof (induction "rank a" arbitrary: a n ps rule: less_induct)
  case less
  obtain l where n: "n = Suc l" using less.prems(2) by (cases n) auto
  obtain m where m: "hp_mods h a = Some m" "module_covered mm h rank a m" by (rule coverE [OF assms less.prems(1)])
  have low: "mod_ready l h (c, i) = mod_ready (rank a) h (c, i) \<and> (\<exists>b. mod_ready l h (c, i) = Inr b)"
    if "(k, q) \<in> set (mp_submods (mo_pimpl m))" "sr_module q = Some c" for k q c i
  proof -
    have c: "managed mm c" "rank c < rank a" using cover_slot [OF m(2) that(1)] that(2) by (auto simp: slot_covered_def)
    then have "rank c < l" using less.prems(2) n by simp
    from less.hyps [OF c(2,1) this, of i] less.hyps [OF c(2,1,2), of i] show ?thesis by metis
  qed
  have "mod_ready l h y = mod_ready (rank a) h y" if "y \<in> ready_callees h (a, ps)" for y
    using that m(1) low by (auto simp: ready_callees_def submod_of_def)
  then have "mod_ready n h (a, ps) = mod_ready (Suc (rank a)) h (a, ps)"
    unfolding n mod_ready_Suc by (rule ready_calls.step_local)
  moreover have "\<exists>b. sr_ready (mod_ready l h) q = Inr b" if s: "(k, q) \<in> set (mp_submods (mo_pimpl m))" for k q
  proof (cases "sr_module q")
    case (Some c)
    obtain b where "mod_ready l h (c, sr_inputs q) = Inr b" using low [OF s Some] by blast
    then show ?thesis using Some by (simp add: sr_ready_def srp_ready_def sr_has_defs) blast
  qed (simp add: sr_ready_def srp_ready_def sr_has_defs, blast)
  then have "\<exists>ks. not_set_guts' (sr_ready (mod_ready l h)) (mp_submods (mo_pimpl m)) = Inr ks"
    by (intro not_set_guts_total) blast
  then have "\<exists>b. mod_ready n h (a, ps) = Inr b"
    using m by (auto simp: n mod_ready_Suc mod_ready_step_def mod_at_def mp_ready_def mp_not_set_def module_covered_def
        mp_assert_mod'_def not_set_guts_pure Let_def)
  ultimately show ?case by blast
qed

section \<open>Filling one request\<close>

lemma change_covered:
  assumes cover: "defaults_cover mm rank h" and a: "managed mm a" and m: "hp_mods h a = Some m"
    and q: "ci_find k (mp_submods (mo_pimpl m)) = Some q"
    and d: "sr_type q = Some t" "mod_types h d = Inr ts" "t \<in> set ts" "managed mm d" "rank d < rank a"
  obtains h' where "mod_change_submod a k (Some d) h = (Inr (), h')" "defaults_cover mm rank h'"
    "hp_mods h' a = Some (m\<lparr>mo_pimpl := (mo_pimpl m)\<lparr>mp_submods := om_upd ci_fold k (q\<lparr>sr_module := Some d\<rparr>) (mp_submods (mo_pimpl m))\<rparr>\<rparr>)"
    "\<forall>b. b \<noteq> a \<longrightarrow> hp_mods h' b = hp_mods h b"
proof -
  let ?q = "q\<lparr>sr_module := Some d\<rparr>"
  let ?m = "m\<lparr>mo_pimpl := (mo_pimpl m)\<lparr>mp_submods := om_upd ci_fold k ?q (mp_submods (mo_pimpl m))\<rparr>\<rparr>"
  let ?h = "upd_mod a (\<lambda>_. ?m) h"
  obtain m0 where "hp_mods h a = Some m0" "module_covered mm h rank a m0" by (rule coverE [OF cover a])
  then have mc: "module_covered mm h rank a m" using m by simp
  obtain k0 where k0: "(k0, q) \<in> set (mp_submods (mo_pimpl m))" using om_find_Some_set [OF q] by blast
  have "\<exists>x. anyR (\<lambda>t'. bindR (srp_type q) (\<lambda>t. Inr (rtti_equal t t'))) ts = Inr x \<and> x"
    using d(1,3) by (induction ts) (auto simp: srp_type_def)
  then have "sr_change (mod_types h) (Some d) q = Inr ?q"
    using d(2) by (auto simp: sr_change_def srp_set_module_def)
  then have run: "mod_change_submod a k (Some d) h = (Inr (), ?h)"
    using m q mc by (simp add: mod_change_submod_def on_mod_def mod_at_def mo_change_submod_def assert_not_locked'_def
        module_covered_def mp_submods'_def mp_assert_mod'_def om_count_def om_at_def om_set_def)
  have types: "mod_types ?h b = mod_types h b" for b
    using m by (simp add: mod_types_def mod_at_def upd_mod_def mp_property_types'_def mp_assert_mod'_def mp_has_module_def)
  have same: "slot_covered mm ?h rank b p = slot_covered mm h rank b p" for b p
    by (simp add: slot_covered_def types)
  have new: "slot_covered mm h rank a ?q"
    using cover_slot [OF mc k0] d(4,5) by (auto simp: slot_covered_def)
  have "module_covered mm ?h rank a ?m"
    using mc new same cover_slot [OF mc] set_om_upd [of _ _ ci_fold k ?q "mp_submods (mo_pimpl m)"]
      om_wf_keys [OF om_keys_upd, of ci_fold ci_fold k ?q "mp_submods (mo_pimpl m)"]
    by (fastforce simp: module_covered_def mp_has_module_def)
  moreover have "module_covered mm ?h rank b x = module_covered mm h rank b x" for b x
    by (simp add: module_covered_def same)
  ultimately have "defaults_cover mm rank ?h"
    using cover m by (auto simp: defaults_cover_def upd_mod_def)
  then show ?thesis using that [OF run] m by (simp add: upd_mod_def)
qed
text \<open>What \<open>fills\<close> leaves of the request under a key.\<close>

lemma fills_find:
  assumes f: "fills r h h1" and m: "hp_mods h a = Some m" and q: "ci_find k (mp_submods (mo_pimpl m)) = Some q"
  obtains m1 q1 where "hp_mods h1 a = Some m1" "ci_find k (mp_submods (mo_pimpl m1)) = Some q1"
    "map fst (mp_submods (mo_pimpl m1)) = map fst (mp_submods (mo_pimpl m))"
    "q1 = q \<or> sr_ready (mod_ready r h) q \<noteq> Inr True \<and> (\<exists>c. q1 = q\<lparr>sr_module := Some c\<rparr>)"
proof -
  obtain m1 s where m1: "hp_mods h1 a = Some m1" "list_all2 (may_fill (mod_ready r h)) (mp_submods (mo_pimpl m)) s"
      "m1 = m\<lparr>mo_pimpl := (mo_pimpl m)\<lparr>mp_submods := s\<rparr>\<rparr>"
    using f m by (auto simp: fills_def fills_mod_def option_rel_Some1 dest!: spec [of _ a])
  have "map fst L = map fst s \<and> (ci_find k L = Some q \<longrightarrow> (\<exists>q1. ci_find k s = Some q1 \<and>
      (q1 = q \<or> sr_ready (mod_ready r h) q \<noteq> Inr True \<and> (\<exists>c. q1 = q\<lparr>sr_module := Some c\<rparr>))))"
    if "list_all2 (may_fill (mod_ready r h)) L s" for L s
    using that
  proof (induction rule: list_all2_induct)
    case (Cons p L p' s)
    then show ?case by (cases p; cases p'; cases "ci_fold (fst p) = ci_fold k") (auto simp: may_fill_def)
  qed simp
  from this [OF m1(2)] q obtain q1 where "map fst (mp_submods (mo_pimpl m)) = map fst s" "ci_find k s = Some q1"
      "q1 = q \<or> sr_ready (mod_ready r h) q \<noteq> Inr True \<and> (\<exists>c. q1 = q\<lparr>sr_module := Some c\<rparr>)" by blast
  then show ?thesis using m1(3) by (intro that [OF m1(1), of q1]) simp_all
qed

text \<open>A module below \<open>a\<close> does not notice what happens to \<open>a\<close>.\<close>

lemma ready_below:
  assumes cover: "defaults_cover mm rank h" and same: "\<forall>b. b \<noteq> a \<longrightarrow> hp_mods h' b = hp_mods h b"
  shows "managed mm d \<Longrightarrow> rank d < rank a \<Longrightarrow> mod_ready n h (d, ps) = Inr True \<Longrightarrow> mod_ready n h' (d, ps) = Inr True"
proof (induction n arbitrary: d ps)
  case (Suc n)
  obtain m where m: "hp_mods h d = Some m" "module_covered mm h rank d m" by (rule coverE [OF cover Suc.prems(1)])
  have "mod_ready n h' (c, i) = Inr True"
    if "(k, q) \<in> set (mp_submods (mo_pimpl m))" "sr_module q = Some c" "mod_ready n h (c, i) = Inr True" for k q c i
  proof (rule Suc.IH [OF _ _ that(3)])
    show "managed mm c" "rank c < rank a"
      using cover_slot [OF m(2) that(1)] that(2) Suc.prems(2) by (auto simp: slot_covered_def)
  qed
  moreover have "hp_mods h' d = Some m" using same Suc.prems(2) m(1) by (cases "d = a") auto
  ultimately show ?case using Suc.prems(3) m(1) unfolding mod_ready_True_iff by fastforce
qed (simp add: mod_ready_def)

text \<open>The recursive call returns a module that is ready: then so does filling in one request.\<close>

definition completes :: "'d manager \<Rightarrow> (nat \<Rightarrow> nat) \<Rightarrow> nat \<Rightarrow> nat \<Rightarrow> string \<Rightarrow> nat \<Rightarrow> 'd heap \<Rightarrow> 'd heap \<Rightarrow> bool" where
  "completes mm rank r n key a h h' \<longleftrightarrow> mm_at r n mm key h = (Inr a, h') \<and> defaults_cover mm rank h' \<and>
     (\<forall>ps. mod_ready r h' (a, ps) = Inr True)"

text \<open>Of a covered request \<open>ready\<close> has an answer, and the default of its type is at hand.\<close>

lemma covered_slot:
  assumes cover: "defaults_cover mm rank h" and a: "managed mm a" "rank a < r" and m: "hp_mods h a = Some m"
    and q: "ci_find k (mp_submods (mo_pimpl m)) = Some q"
  obtains t dkey d inps ok where "sr_type q = Some t" "ti_find t (mm_defaults mm) = Some dkey"
    "ci_find dkey (mm_modules mm) = Some d" "rank d < rank a" "sr_ready (mod_ready r h) q = Inr ok"
    "mm_fill_slot at r mm a k h = (if ok then (Inr (), h) else bindS (at dkey) (\<lambda>d.
         bindS (\<lambda>h. (mod_ready r h (d, inps), h)) (\<lambda>ready. if ready then mod_change_submod a k (Some d) else retS ())) h)"
proof -
  have mc: "module_covered mm h rank a m" using coverE [OF cover a(1)] m by (metis option.inject)
  obtain k0 where k0: "(k0, q) \<in> set (mp_submods (mo_pimpl m))" using om_find_Some_set [OF q] by blast
  obtain t dkey d where t: "sr_type q = Some t" "ti_find t (mm_defaults mm) = Some dkey" "ti_count t (mm_inputs mm)"
      "ci_find dkey (mm_modules mm) = Some d" "rank d < rank a"
    using cover_slot [OF mc k0] by (auto simp: slot_covered_def)
  obtain inps where inps: "ti_find t (mm_inputs mm) = Some inps" using t(3) by (auto simp: om_count_def)
  obtain ok where ok: "sr_ready (mod_ready r h) q = Inr ok"
  proof (cases "sr_module q")
    case (Some c)
    then have c: "managed mm c" "rank c < r" using cover_slot [OF mc k0] a(2) by (auto simp: slot_covered_def)
    obtain b where b: "mod_ready r h (c, sr_inputs q) = Inr b" using cover_ready [OF cover c] by blast
    show ?thesis by (rule that [of "b"]) (use b Some t(1) in \<open>simp add: sr_ready_def srp_ready_def sr_has_defs\<close>)
  qed (intro that [of False], simp add: sr_ready_def srp_ready_def sr_has_defs)
  show ?thesis
  proof (rule that [OF t(1,2,4,5) ok])
    show "mm_fill_slot at r mm a k h = (if ok then (Inr (), h) else bindS (at dkey) (\<lambda>d.
         bindS (\<lambda>h. (mod_ready r h (d, inps), h)) (\<lambda>ready. if ready then mod_change_submod a k (Some d) else retS ())) h)"
      using m q mc t(1,2,3) inps ok
      by (simp add: mm_fill_slot_def bindS_def mod_at_def mp_submods'_def mp_assert_mod'_def om_at_def srp_type_def
          om_count_def module_covered_def split: sum.split prod.split)
  qed
qed

lemma fill_slot_completes:
  assumes cover: "defaults_cover mm rank h" and a: "managed mm a" "rank a < r" and m: "hp_mods h a = Some m"
    and q: "ci_find k (mp_submods (mo_pimpl m)) = Some q"
    and rec: "\<And>dkey d. ci_find dkey (mm_modules mm) = Some d \<Longrightarrow> rank d < rank a \<Longrightarrow> \<exists>h'. completes mm rank r n dkey d h h'"
  obtains h' m' q' where "mm_fill_slot (mm_at r n mm) r mm a k h = (Inr (), h')" "defaults_cover mm rank h'"
    "hp_mods h' a = Some m'" "ci_find k (mp_submods (mo_pimpl m')) = Some q'" "sr_ready (mod_ready r h') q' = Inr True"
proof -
  obtain t dkey d inps ok where t: "sr_type q = Some t" "ti_find t (mm_defaults mm) = Some dkey"
      "ci_find dkey (mm_modules mm) = Some d" "rank d < rank a" and ok: "sr_ready (mod_ready r h) q = Inr ok"
      and start: "mm_fill_slot (mm_at r n mm) r mm a k h = (if ok then (Inr (), h) else bindS (mm_at r n mm dkey) (\<lambda>d.
         bindS (\<lambda>h. (mod_ready r h (d, inps), h)) (\<lambda>ready. if ready then mod_change_submod a k (Some d) else retS ())) h)"
    by (rule covered_slot [OF cover a m q])
  show ?thesis
  proof (cases ok)
    case True
    then show ?thesis using that start cover m q ok by simp
  next
    case False
    obtain h1 where h1: "mm_at r n mm dkey h = (Inr d, h1)" "defaults_cover mm rank h1"
        "\<And>ps. mod_ready r h1 (d, ps) = Inr True"
      using rec [OF t(3,4)] by (auto simp: completes_def)
    have f: "fills r h h1" by (rule preservesD [OF fills_at h1(1)])
    obtain m1 q1 where m1: "hp_mods h1 a = Some m1" "ci_find k (mp_submods (mo_pimpl m1)) = Some q1"
        "q1 = q \<or> sr_ready (mod_ready r h) q \<noteq> Inr True \<and> (\<exists>c. q1 = q\<lparr>sr_module := Some c\<rparr>)"
      by (rule fills_find [OF f m q])
    have t1: "sr_type q1 = Some t" using m1(3) t(1) by auto
    have mc1: "module_covered mm h1 rank a m1" using coverE [OF h1(2) a(1)] m1(1) by (metis option.inject)
    obtain k1 where "(k1, q1) \<in> set (mp_submods (mo_pimpl m1))" using om_find_Some_set [OF m1(2)] by blast
    then obtain ts where ts: "mod_types h1 d = Inr ts" "t \<in> set ts"
      using cover_slot [OF mc1] t1 t(2,3) by (fastforce simp: slot_covered_def)
    have d: "managed mm d" using t(3) by (auto simp: managed_def)
    obtain h2 where h2: "mod_change_submod a k (Some d) h1 = (Inr (), h2)" "defaults_cover mm rank h2"
        "hp_mods h2 a = Some (m1\<lparr>mo_pimpl := (mo_pimpl m1)\<lparr>mp_submods := om_upd ci_fold k (q1\<lparr>sr_module := Some d\<rparr>) (mp_submods (mo_pimpl m1))\<rparr>\<rparr>)"
        "\<forall>b. b \<noteq> a \<longrightarrow> hp_mods h2 b = hp_mods h1 b"
      by (rule change_covered [OF h1(2) a(1) m1(1,2) t1 ts d t(4)])
    have "mm_fill_slot (mm_at r n mm) r mm a k h = (Inr (), h2)"
      using start ok False h1(1,3) h2(1) by (simp add: bindS_def)
    moreover have "ci_find k (om_upd ci_fold k (q1\<lparr>sr_module := Some d\<rparr>) (mp_submods (mo_pimpl m1))) = Some (q1\<lparr>sr_module := Some d\<rparr>)"
      using m1(2) by (simp add: om_find_upd)
    moreover have "sr_ready (mod_ready r h2) (q1\<lparr>sr_module := Some d\<rparr>) = Inr True"
      using ready_below [OF h1(2) h2(4) d t(4) h1(3)] t1 by (simp add: sr_ready_True_iff sr_has_defs)
    ultimately show ?thesis using that h2(2,3) by fastforce
  qed
qed

section \<open>Completing a module\<close>

text \<open>The loop of \<open>at\<close> with the keys \<open>ks\<close> left: every other request of the module is ready.\<close>

definition filled :: "'d manager \<Rightarrow> (nat \<Rightarrow> nat) \<Rightarrow> nat \<Rightarrow> nat \<Rightarrow> 'd heap \<Rightarrow> string list \<Rightarrow> string list \<Rightarrow> 'd heap \<Rightarrow> bool" where
  "filled mm rank r a h keys ks h1 \<longleftrightarrow> defaults_cover mm rank h1 \<and> fills r h h1 \<and> set ks \<subseteq> set keys \<and>
    (\<exists>m1. hp_mods h1 a = Some m1 \<and> map fst (mp_submods (mo_pimpl m1)) = keys \<and>
       (\<forall>k \<in> set keys - set ks. \<exists>q. ci_find k (mp_submods (mo_pimpl m1)) = Some q \<and> sr_ready (mod_ready r h1) q = Inr True))"

lemma filled_step:
  assumes I: "filled mm rank r a h keys (k # ks) h1" and a: "managed mm a" "rank a < r"
    and rec: "\<And>dkey d. ci_find dkey (mm_modules mm) = Some d \<Longrightarrow> rank d < rank a \<Longrightarrow> \<exists>h'. completes mm rank r n dkey d h1 h'"
  shows "\<exists>h'. mm_fill_slot (mm_at r n mm) r mm a k h1 = (Inr (), h') \<and> filled mm rank r a h keys ks h'"
proof -
  obtain m1 where m1: "hp_mods h1 a = Some m1" "map fst (mp_submods (mo_pimpl m1)) = keys"
      "\<forall>k \<in> set keys - set (k # ks). \<exists>q. ci_find k (mp_submods (mo_pimpl m1)) = Some q \<and> sr_ready (mod_ready r h1) q = Inr True"
      and h1: "defaults_cover mm rank h1" "fills r h h1" "k \<in> set keys" "set ks \<subseteq> set keys"
    using I unfolding filled_def by auto
  have "k \<in> set (map fst (mp_submods (mo_pimpl m1)))" using h1(3) m1(2) by simp
  then obtain q where q: "ci_find k (mp_submods (mo_pimpl m1)) = Some q" using om_find_in_set [of k _ _ ci_fold] by fastforce
  obtain h2 m2 q2 where h2: "mm_fill_slot (mm_at r n mm) r mm a k h1 = (Inr (), h2)" "defaults_cover mm rank h2"
      "hp_mods h2 a = Some m2" "ci_find k (mp_submods (mo_pimpl m2)) = Some q2" "sr_ready (mod_ready r h2) q2 = Inr True"
    by (rule fill_slot_completes [OF h1(1) a m1(1) q rec])
  have f: "fills r h1 h2" by (rule preservesD [OF fills_slot [OF fills_at] h2(1)])
  obtain m3 q3 where "hp_mods h2 a = Some m3" "map fst (mp_submods (mo_pimpl m3)) = map fst (mp_submods (mo_pimpl m1))"
    by (rule fills_find [OF f m1(1) q])
  then have keys: "map fst (mp_submods (mo_pimpl m2)) = keys" using h2(3) m1(2) by simp
  have "\<exists>p'. ci_find j (mp_submods (mo_pimpl m2)) = Some p' \<and> sr_ready (mod_ready r h2) p' = Inr True"
    if j: "j \<in> set keys - set ks" for j
  proof (cases "j = k")
    case False
    then obtain p where p: "ci_find j (mp_submods (mo_pimpl m1)) = Some p" "sr_ready (mod_ready r h1) p = Inr True"
      using m1(3) j by auto
    obtain m4 p' where "hp_mods h2 a = Some m4" "ci_find j (mp_submods (mo_pimpl m4)) = Some p'"
        "p' = p \<or> sr_ready (mod_ready r h1) p \<noteq> Inr True \<and> (\<exists>c. p' = p\<lparr>sr_module := Some c\<rparr>)"
      by (rule fills_find [OF f m1(1) p(1)])
    then show ?thesis using h2(3) p(2) sr_ready_fills [OF f p(2)] by simp
  qed (use h2(4,5) in simp)
  then have "filled mm rank r a h keys ks h2"
    using h2(2,3) h1(4) keys fills_trans [OF h1(2) f] unfolding filled_def by auto
  then show ?thesis using h2(1) by blast
qed

text \<open>With no key left the module is ready, whatever is passed.\<close>

lemma filled_ready:
  assumes I: "filled mm rank r a h keys [] h'" and a: "managed mm a" "rank a < r"
  shows "mod_ready r h' (a, ps) = Inr True"
proof -
  obtain m' where h': "defaults_cover mm rank h'" "hp_mods h' a = Some m'" "map fst (mp_submods (mo_pimpl m')) = keys"
      "\<forall>k \<in> set keys. \<exists>q. ci_find k (mp_submods (mo_pimpl m')) = Some q \<and> sr_ready (mod_ready r h') q = Inr True"
    using I unfolding filled_def by auto
  have m': "module_covered mm h' rank a m'" using coverE [OF h'(1) a(1)] h'(2) by (metis option.inject)
  obtain r' where r': "r = Suc r'" "rank a \<le> r'" using a(2) by (cases r) auto
  have "sr_has_type q \<and> (\<exists>c. sr_module q = Some c \<and> mod_ready r' h' (c, sr_inputs q) = Inr True)"
    if s: "(k, q) \<in> set (mp_submods (mo_pimpl m'))" for k q
  proof -
    have "k \<in> set (map fst (mp_submods (mo_pimpl m')))" using s by force
    moreover have "ci_find k (mp_submods (mo_pimpl m')) = Some q"
      using om_find_wf s m' by (auto simp: module_covered_def)
    ultimately have "sr_ready (mod_ready r h') q = Inr True" using h'(3,4) by force
    then obtain c where c: "sr_has_type q" "sr_module q = Some c" "mod_ready r h' (c, sr_inputs q) = Inr True"
      by (auto simp: sr_ready_True_iff)
    have "managed mm c" "rank c < rank a" using cover_slot [OF m' s] c(2) by (auto simp: slot_covered_def)
    then show ?thesis
      using c cover_ready [OF h'(1), of c r' "sr_inputs q"] cover_ready [OF h'(1), of c r "sr_inputs q"] r' a(2) by simp
  qed
  then show ?thesis
    using h'(2) m' unfolding r'(1) mod_ready_True_iff by (auto simp: module_covered_def)
qed

lemma at_step_completes:
  assumes cover: "defaults_cover mm rank h" and key: "ci_find key (mm_modules mm) = Some a" and r: "rank a < r"
    and rec: "\<And>dkey d h. defaults_cover mm rank h \<Longrightarrow> ci_find dkey (mm_modules mm) = Some d \<Longrightarrow> rank d < rank a \<Longrightarrow>
      \<exists>h'. completes mm rank r n dkey d h h'"
  shows "\<exists>h'. completes mm rank r (Suc n) key a h h'"
proof -
  have a: "managed mm a" using key by (auto simp: managed_def)
  obtain m where m: "hp_mods h a = Some m" "module_covered mm h rank a m" by (rule coverE [OF cover a])
  let ?keys = "map fst (mp_submods (mo_pimpl m))"
  have "\<exists>h'. forS (mm_fill_slot (mm_at r n mm) r mm a) ?keys h = (Inr (), h') \<and> filled mm rank r a h ?keys [] h'"
  proof (rule forS_invariant)
    show "filled mm rank r a h ?keys ?keys h" using cover m(1) by (simp add: filled_def)
    fix k ks h1
    assume I: "filled mm rank r a h ?keys (k # ks) h1"
    show "\<exists>h'. mm_fill_slot (mm_at r n mm) r mm a k h1 = (Inr (), h') \<and> filled mm rank r a h ?keys ks h'"
      by (rule filled_step [OF I a r rec]) (use I in \<open>simp add: filled_def\<close>)
  qed
  then obtain h' where h': "forS (mm_fill_slot (mm_at r n mm) r mm a) ?keys h = (Inr (), h')"
      "filled mm rank r a h ?keys [] h'" by blast
  have "mm_at r (Suc n) mm key h = (Inr a, h')"
    using key m h'(1) by (simp add: mm_at_step_def mm_count_def om_count_def om_at_def mod_at_def mp_submods'_def
        mp_assert_mod'_def module_covered_def bindS_def)
  then show ?thesis using h'(2) filled_ready [OF h'(2) a r] unfolding completes_def by (auto simp: filled_def)
qed

lemma at_rank_completes:
  assumes "\<And>b. managed mm b \<Longrightarrow> rank b < r"
  shows "defaults_cover mm rank h \<Longrightarrow> ci_find key (mm_modules mm) = Some a \<Longrightarrow> rank a < n \<Longrightarrow>
    \<exists>h'. completes mm rank r n key a h h'"
proof (induction n arbitrary: key a h)
  case (Suc n)
  have r: "rank a < r" using assms Suc.prems(2) by (auto simp: managed_def)
  show ?case
  proof (rule at_step_completes [OF Suc.prems(1,2) r])
    fix dkey d h1
    assume "defaults_cover mm rank h1" "ci_find dkey (mm_modules mm) = Some d" "rank d < rank a"
    then show "\<exists>h'. completes mm rank r n dkey d h1 h'" using Suc.IH Suc.prems(3) by simp
  qed
qed simp

text \<open>C13: Retrieving completes. If every request of every module of the manager has a default of its
  type, the inputs are set, nothing is locked, and no module needs itself through defaults or
  the submodules it holds (they go down in \<open>rank\<close>), then \<open>at\<close> returns the module of the key, and
  that module is ready to run, whatever is passed to it.  A recursion depth above the rank is enough.\<close>

theorem at_completes:
  assumes "defaults_cover mm rank h" and "\<And>b. managed mm b \<Longrightarrow> rank b < r"
    and "ci_find key (mm_modules mm) = Some a" and "rank a < n"
  shows "\<exists>h'. mm_at r n mm key h = (Inr a, h') \<and> defaults_cover mm rank h' \<and> (\<forall>ps. mod_ready r h' (a, ps) = Inr True)"
  using at_rank_completes [OF assms(2,1,3,4)] by (simp add: completes_def)

text \<open>A module with an empty request, and the default for it.\<close>

definition covered_heap :: "unit heap" where
  "covered_heap = (hp_init (cw_init example_gen ()))\<lparr>hp_mods := [
     0 \<mapsto> \<lparr>mo_pimpl = mp_new\<lparr>mp_base := Some 0,
        mp_submods := [(''Fock'', \<lparr>sr_desc = None, sr_type = Some (mk_rtti ''Fock''), sr_inputs = [], sr_module = None\<rparr>)]\<rparr>,
        mo_name = Some ''SCF''\<rparr>,
     1 \<mapsto> \<lparr>mo_pimpl = mp_new\<lparr>mp_base := Some 0, mp_property_types := [mk_rtti ''Fock'']\<rparr>, mo_name = Some ''Builder''\<rparr>]\<rparr>"

definition covered_manager :: "unit manager" where
  "covered_manager = (mm_new None None)\<lparr>mm_modules := [(''Builder'', 1), (''SCF'', 0)],
     mm_defaults := [(mk_rtti ''Fock'', ''Builder'')], mm_inputs := [(mk_rtti ''Fock'', [])]\<rparr>"

lemma covered_find:
  "ci_find k (mm_modules covered_manager) = (if ci_fold k = ''builder'' then Some 1 else if ci_fold k = ''scf'' then Some 0 else None)"
proof -
  have "ci_fold ''Builder'' = ''builder''" "ci_fold ''SCF'' = ''scf''" by code_simp+
  then show ?thesis by (auto simp: covered_manager_def mm_new_def)
qed

theorem at_completes_witness:
  "\<exists>h'. mm_at 2 2 covered_manager ''SCF'' covered_heap = (Inr 0, h') \<and> mod_ready 2 h' (0, []) = Inr True"
proof -
  let ?rank = "\<lambda>a. 1 - (a :: nat)"
  have scf: "ci_find ''SCF'' (mm_modules covered_manager) = Some 0" unfolding covered_find by code_simp
  have builder: "ci_find ''Builder'' (mm_modules covered_manager) = Some 1" unfolding covered_find by code_simp
  have addresses: "managed covered_manager b \<Longrightarrow> b = 0 \<or> b = 1" for b
    by (auto simp: managed_def covered_find split: if_splits)
  have types: "mod_types covered_heap 1 = Inr [mk_rtti ''Fock'']"
    by (simp add: mod_types_def mod_at_def covered_heap_def mp_property_types'_def mp_assert_mod'_def mp_has_module_def)
  have "slot_covered covered_manager covered_heap ?rank 0 \<lparr>sr_desc = None, sr_type = Some (mk_rtti ''Fock''), sr_inputs = [], sr_module = None\<rparr>"
    using builder types by (simp add: slot_covered_def covered_manager_def om_count_def)
  then have "defaults_cover covered_manager ?rank covered_heap"
    unfolding defaults_cover_def
    by (auto dest!: addresses simp: covered_heap_def module_covered_def mp_has_module_def mp_new_def om_wf_def)
  from at_completes [OF this _ scf, of 2 2]
  have "\<exists>h'. mm_at 2 2 covered_manager ''SCF'' covered_heap = (Inr 0, h') \<and>
      defaults_cover covered_manager ?rank h' \<and> (\<forall>ps. mod_ready 2 h' (0, ps) = Inr True)" by force
  then show ?thesis by blast
qed

end
