(* ===== verification/Printing.thy ===== *)
theory Printing
  imports Module_Manager
begin

text \<open>
  Documents about modules (\<open>printing/\<close>): the reST printer and the page of a module
  (\<open>rst_\<close>, \<open>document_module\<close>), the pages of all modules of a manager (\<open>document_modules\<close>) and the
  mermaid graph of their submodules.  What is written is a list of pieces, as they are or
  to be wrapped; \<open>WordWrapStream\<close>, which wraps them, the tables of libfort and the demangler are
  third-party code: \<open>fort\<close> is the text of a table, \<open>demangle\<close> the readable name of a type.
\<close>

section \<open>The reST printer\<close>

datatype piece = Verbatim "frag list" | Wrapped "frag list"

record rest_printer =
  rp_underline_chars :: string
  rp_overline_chars :: string
  rp_section :: nat
  rp_out :: "piece list"

abbreviation quote :: char where "quote \<equiv> CHR 0x22"

definition rp_new :: rest_printer where
  "rp_new = \<lparr>rp_underline_chars = ''#*=-^'' @ [quote], rp_overline_chars = ''#*      '', rp_section = 0, rp_out = []\<rparr>"

type_synonym 'a rst = "(rest_printer, 'a) op"

definition rst_put :: "piece \<Rightarrow> rest_printer \<Rightarrow> rest_printer" where
  "rst_put x p = p\<lparr>rp_out := rp_out p @ [x]\<rparr>"

definition rst_verbatim :: "string \<Rightarrow> unit rst" where
  "rst_verbatim message = modS (rst_put (Verbatim [Lit message]))"

definition rst_text :: "string \<Rightarrow> unit rst" where
  "rst_text message = modS (rst_put (Wrapped [Lit message]))"

definition start_section :: "string \<Rightarrow> unit rst" where
  "start_section header p =
     (let n = rp_section p in
      if length (rp_underline_chars p) \<le> n then (Inl (runtime_error ''Not enough underline characters''), p)
      else if length (rp_overline_chars p) \<le> n then (Inl (runtime_error ''Not enough overline characters''), p)
      else let ochar = rp_overline_chars p ! n; uchar = rp_underline_chars p ! n; nchars = length header in
        (Inr (), rst_put (Verbatim [Lit ((if ochar \<noteq> CHR '' '' then replicate nchars ochar @ newline else []) @
           header @ newline @ replicate nchars uchar @ newline)]) (p\<lparr>rp_section := Suc n\<rparr>)))"

definition finish_section :: "unit rst" where
  "finish_section p = (if rp_section p = 0 then (Inl (runtime_error ''Not in a section''), p)
     else (Inr (), p\<lparr>rp_section := rp_section p - 1\<rparr>))"

section \<open>Inputs, results and submodules\<close>

definition input_desc :: "unit rst" where
  "input_desc = rst_text (''This section details the full list of inputs that the module accepts.'' @
     '' Inputs that are not listed as optional must have their value set '' @
     ''before the module can be run. Inputs can be set manually by calling '' @
     ''the module's ``change_input`` function or by passing arguments to a '' @ ''property type.'')"

definition input_quick_ref_desc :: "unit rst" where
  "input_quick_ref_desc = rst_text (''The following table provides a quick summary of the inputs '' @
     ''available to this module. The columns are:'' @ newline @ newline @
     ''- ``Key``: The key used to retrieve the option,'' @ newline @
     ''- ``Default`` : The initial value, if one exists, and'' @ newline @
     ''- ``Description`` : A human readable description of what the option'' @ '' is used for.'' @ newline)"

definition input_full_list_desc :: "unit rst" where
  "input_full_list_desc = rst_text (''The following subsections provide detailed descriptions of each input'' @
     '' recognized by this module. The subsection headings are the name of '' @
     ''the input. Within each subsection we list:'' @ newline @ newline @
     ''- ``Description`` : A human readable description of what the option'' @ '' is used for.'' @ newline @
     ''- ``Default Value`` : The initial value, if one exists.'' @ newline @
     ''- ``Optional?`` : Whether the value must be set inorder for the '' @ ''module to run.'' @ newline @
     ''- ``Opaque?`` : Does the value of the input influence memoization?.'' @ newline @
     ''- ``Domain Restrictions`` : Criteria a value must obey to be deemed '' @ ''valid.'')"

definition result_desc :: "unit rst" where
  "result_desc = rst_text (''This section tabulates the full list of results that the module '' @
     ''returns. The columns respectively are:'' @ newline @ newline @
     ''- Key: What the result is called'' @ newline @ ''- Type: The C++ type of the result'' @ newline @
     ''- Description: What the result is/how it was computed.'' @ newline @ newline @
     ''.. note::'' @ newline @ newline @
     ''   A given property type will only return a subset of the available '' @ ''results. '' @ newline @
     ''   Additional results can be accessed by using other property types '' @ ''or by using'' @ newline @
     ''   the Module class's advanced API.'')"

definition submod_desc :: "unit rst" where
  "submod_desc = rst_text (''This section details the full list of submodules that the module '' @
     ''uses. For each submodule we have listed:'' @ newline @ newline @
     ''- Key : The key used to refer to this particular callback.'' @ newline @
     ''- Property Type : The property type that the submodule must '' @ ''satisfy.'' @ newline @
     ''- Description : How the module will use the submodule.'' @ newline @ newline)"

text \<open>\<open>value.has_value() ? value.str() : "N/A"\<close> and the like\<close>

definition or_na :: "bool \<Rightarrow> frag list res \<Rightarrow> frag list res" where
  "or_na has r = (if has then r else Inr [Lit ''N/A''])"

abbreviation litR :: "string res \<Rightarrow> frag list res" where "litR r \<equiv> bindR r (\<lambda>s. Inr [Lit s])"

definition input_quick_ref_table :: "(frag list list list \<Rightarrow> frag list) \<Rightarrow> input_map \<Rightarrow> frag list res" where
  "input_quick_ref_table fort inputs =
     bindR (mapR (\<lambda>(name, v).
         bindR (or_na (mi_has_value v) (mi_str v)) (\<lambda>val.
         bindR (or_na (mi_has_description v) (litR (mi_description v))) (\<lambda>desc.
         Inr [[Lit name], val, desc]))) inputs) (\<lambda>rows.
     Inr (fort ([[Lit ''Key''], [Lit ''Default''], [Lit ''Description'']] # rows)))"

definition rst_frags :: "(frag list \<Rightarrow> piece) \<Rightarrow> frag list \<Rightarrow> unit rst" where
  "rst_frags kind fs = modS (rst_put (kind fs))"

definition input_entry :: "string \<times> module_input \<Rightarrow> unit rst" where
  "input_entry ni = (case ni of (name, input) \<Rightarrow>
     bindS (start_section name) (\<lambda>_.
     bindS (rst_text newline) (\<lambda>_.
     bindS (liftS (or_na (mi_has_description input) (litR (mi_description input)))) (\<lambda>desc.
     bindS (rst_frags Verbatim (Lit ''- Description : '' # desc @ [Lit newline])) (\<lambda>_.
     bindS (liftS (or_na (mi_has_value input) (mi_str input))) (\<lambda>val.
     bindS (rst_frags Wrapped (Lit ''- Default Value : '' # val @ [Lit newline])) (\<lambda>_.
     bindS (rst_text (''- Optional? : '' @ (if mi_is_optional input then ''True'' else ''False'') @ newline)) (\<lambda>_.
     bindS (rst_text (''- Opaque? : '' @ (if mi_is_transparent input then ''False'' else ''True'') @ newline)) (\<lambda>_.
     let checks = mi_check_descriptions input in
     bindS (if checks = [] then rst_text (''- Domain Restrictions : N/A'' @ newline)
       else bindS (rst_text (''- Domain Restrictions :'' @ newline @ newline)) (\<lambda>_.
            forS (\<lambda>desc. rst_verbatim (''  - '' @ desc @ newline @ newline)) checks)) (\<lambda>_.
     finish_section))))))))))"

definition input_full_list :: "input_map \<Rightarrow> unit rst" where
  "input_full_list inputs = forS input_entry inputs"

definition print_inputs :: "(frag list list list \<Rightarrow> frag list) \<Rightarrow> input_map \<Rightarrow> unit rst" where
  "print_inputs fort inputs =
     bindS (start_section ''Module Inputs'') (\<lambda>_.
     bindS (rst_text newline) (\<lambda>_.
     bindS input_desc (\<lambda>_.
     bindS (rst_text (newline @ newline)) (\<lambda>_.
     bindS (start_section ''Quick Reference'') (\<lambda>_.
     bindS (rst_text newline) (\<lambda>_.
     bindS (if inputs = [] then rst_text (''The module defines no inputs.'' @ newline @ newline)
       else bindS input_quick_ref_desc (\<lambda>_.
            bindS (rst_text newline) (\<lambda>_.
            bindS (liftS (input_quick_ref_table fort inputs)) (\<lambda>t.
            bindS (rst_frags Verbatim t) (\<lambda>_.
            rst_text (newline @ newline)))))) (\<lambda>_.
     bindS finish_section (\<lambda>_.
     bindS (start_section ''Detailed Descriptions'') (\<lambda>_.
     bindS (if inputs = [] then rst_text (newline @ ''The module defines no inputs.'' @ newline)
       else bindS (rst_text newline) (\<lambda>_.
            bindS input_full_list_desc (\<lambda>_.
            bindS (rst_text (newline @ newline)) (\<lambda>_.
            input_full_list inputs)))) (\<lambda>_.
     bindS finish_section (\<lambda>_. finish_section)))))))))))"

definition typed_row :: "(rtti \<Rightarrow> string) \<Rightarrow> string \<Rightarrow> bool \<Rightarrow> rtti res \<Rightarrow> bool res \<Rightarrow> string res \<Rightarrow> frag list list res" where
  "typed_row demangle name has_type t has_desc desc =
     bindR (or_na has_type (bindR t (\<lambda>x. Inr [Lit (demangle x)]))) (\<lambda>ty.
     bindR has_desc (\<lambda>hd. bindR (or_na hd (litR desc)) (\<lambda>d. Inr [[Lit name], ty, d])))"

definition result_table :: "(rtti \<Rightarrow> string) \<Rightarrow> (frag list list list \<Rightarrow> frag list) \<Rightarrow> result_map \<Rightarrow> frag list res" where
  "result_table demangle fort results =
     bindR (mapR (\<lambda>(name, v). typed_row demangle name (mr_has_type v) (mr_type v) (mr_has_description v) (mr_description v))
       results) (\<lambda>rows.
     Inr (fort ([[Lit ''Key''], [Lit ''Type''], [Lit ''Description'']] # rows)))"

definition print_results :: "(rtti \<Rightarrow> string) \<Rightarrow> (frag list list list \<Rightarrow> frag list) \<Rightarrow> result_map \<Rightarrow> unit rst" where
  "print_results demangle fort results =
     bindS (start_section ''Module Results'') (\<lambda>_.
     bindS (rst_text newline) (\<lambda>_.
     if results = [] then bindS (rst_text (''The module defines no results.'' @ newline @ newline)) (\<lambda>_. finish_section)
     else bindS result_desc (\<lambda>_.
          bindS (rst_text (newline @ newline)) (\<lambda>_.
          bindS (liftS (result_table demangle fort results)) (\<lambda>t.
          bindS (rst_frags Verbatim t) (\<lambda>_.
          bindS (rst_text (newline @ newline)) (\<lambda>_. finish_section)))))))"

definition submod_table :: "(rtti \<Rightarrow> string) \<Rightarrow> (frag list list list \<Rightarrow> frag list) \<Rightarrow> submodule_map \<Rightarrow> frag list res" where
  "submod_table demangle fort submods =
     bindR (mapR (\<lambda>(name, v). typed_row demangle name (sr_has_type v) (srp_type v) (Inr (sr_has_description v)) (srp_description v))
       submods) (\<lambda>rows.
     Inr (fort ([[Lit ''Key''], [Lit ''Property Type''], [Lit ''Description'']] # rows)))"

definition print_submod_table :: "(rtti \<Rightarrow> string) \<Rightarrow> (frag list list list \<Rightarrow> frag list) \<Rightarrow> submodule_map \<Rightarrow> unit rst" where
  "print_submod_table demangle fort submods =
     bindS (start_section ''Submodules'') (\<lambda>_.
     bindS (rst_text newline) (\<lambda>_.
     if submods = [] then bindS (rst_text (''The module defines no submodules.'' @ newline @ newline)) (\<lambda>_. finish_section)
     else bindS submod_desc (\<lambda>_.
          bindS (liftS (submod_table demangle fort submods)) (\<lambda>t.
          bindS (rst_frags Verbatim t) (\<lambda>_. finish_section)))))"

section \<open>The page of a module\<close>

definition document_module :: "(rtti \<Rightarrow> string) \<Rightarrow> (frag list list list \<Rightarrow> frag list) \<Rightarrow> 'd heap \<Rightarrow> string \<Rightarrow> 'd module
    \<Rightarrow> (rest_printer, piece list) op" where
  "document_module demangle fort h name m =
     (let p = mo_pimpl m in
     bindS (rst_text (''..   This page is autogenerated by pluginplay::document_module. Any '' @ ''changes made'' @ newline)) (\<lambda>_.
     bindS (rst_text (''..   to this document will be overwritten the next time it is '' @ ''generated.'' @ newline @ newline)) (\<lambda>_.
     bindS (start_section name) (\<lambda>_.
     bindS (rst_text newline) (\<lambda>_.
     bindS (liftS (mp_has_description h p)) (\<lambda>has.
     bindS (if has then bindS (liftS (mp_description h p)) rst_text else rst_text ''No description provided'') (\<lambda>_.
     bindS (rst_text (newline @ newline)) (\<lambda>_.
     bindS (start_section ''Please Cite'') (\<lambda>_.
     bindS (rst_text newline) (\<lambda>_.
     bindS (liftS (mp_citations h p)) (\<lambda>citations.
     bindS (if citations = [] then rst_text ''No citations''
       else forS (\<lambda>x. bindS (rst_text ''- '') (\<lambda>_. bindS (rst_text x) (\<lambda>_. rst_text newline))) citations) (\<lambda>_.
     bindS (rst_text (newline @ newline)) (\<lambda>_.
     bindS finish_section (\<lambda>_.
     bindS (start_section ''Property Types'') (\<lambda>_.
     bindS (rst_text newline) (\<lambda>_.
     bindS (liftS (mp_property_types' p)) (\<lambda>types.
     bindS (if types = [] then rst_text (''The module satisfies no property types.'' @ newline @ newline)
       else bindS (rst_text (''The following is a list of property types that this module '' @ ''satisfies.'' @ newline @ newline)) (\<lambda>_.
            forS rst_verbatim (fold insort_insert (map (\<lambda>x. ''- ``'' @ demangle x @ ''``'' @ newline) types) []))) (\<lambda>_.
     bindS (rst_text newline) (\<lambda>_.
     bindS finish_section (\<lambda>_.
     bindS (liftS (mp_inputs' p)) (\<lambda>inputs.
     bindS (print_inputs fort inputs) (\<lambda>_.
     bindS (rst_text newline) (\<lambda>_.
     bindS (liftS (mp_results h p)) (\<lambda>results.
     bindS (print_results demangle fort results) (\<lambda>_.
     bindS (liftS (mp_submods' p)) (\<lambda>submods.
     bindS (print_submod_table demangle fort submods) (\<lambda>_.
     bindS finish_section (\<lambda>_.
     getS rp_out))))))))))))))))))))))))))))"

section \<open>The pages of all modules\<close>

definition replace_invalid_chars :: "string \<Rightarrow> string \<Rightarrow> char \<Rightarrow> string" where
  "replace_invalid_chars str invalid_chars replacement =
     fold (\<lambda>bad. map (\<lambda>c. if c = bad then replacement else c)) invalid_chars str"

definition generate_index_file :: "string list \<Rightarrow> string" where
  "generate_index_file toc =
     (let index = ''***********'' @ newline @ ''Modules API'' @ newline @ ''***********'' @ newline @ newline @
        ''.. toctree::'' @ newline @ ''   :maxdepth: 1'' @ newline
      in fold (\<lambda>file index. index @ newline @ ''   '' @ file) toc index)"

definition invalid_filename_chars :: string where
  "invalid_filename_chars = ''<>:'' @ [quote] @ ''|?*'' @ [CHR 0x5C] @ ''/ ''"

text \<open>The files that are written, in order; writing one again replaces it.\<close>

definition write_file :: "string \<Rightarrow> piece list \<Rightarrow> ((string \<times> piece list) list, unit) op" where
  "write_file file_path text = modS (\<lambda>files. files @ [(file_path, text)])"

definition document_modules :: "(rtti \<Rightarrow> string) \<Rightarrow> (frag list list list \<Rightarrow> frag list) \<Rightarrow> 'd manager \<Rightarrow> 'd heap \<Rightarrow> string
    \<Rightarrow> ((string \<times> piece list) list, unit) op" where
  "document_modules demangle fort mm h docs_path =
     bindS (mapS (\<lambda>(name, a).
         let clean_name = replace_invalid_chars name invalid_filename_chars CHR ''_'' in
         bindS (liftS (bindR (mod_at h a) (\<lambda>m. fst (document_module demangle fort h name m rp_new)))) (\<lambda>docs.
         bindS (write_file (path_append docs_path (clean_name @ ''.rst'')) docs) (\<lambda>_.
         retS clean_name))) (mm_modules mm)) (\<lambda>toc.
     write_file (path_append docs_path ''index.rst'') [Verbatim [Lit (generate_index_file toc)]])"

section \<open>The mermaid graph\<close>

fun add_letter_from_right :: "string \<Rightarrow> string" where
  "add_letter_from_right [] = []"
| "add_letter_from_right (c # code) =
     (if c = CHR ''Z'' then CHR ''A'' # add_letter_from_right code else char_of ((of_char c :: nat) + 1) # code)"

definition add_letter :: "string \<Rightarrow> string" where
  "add_letter code = rev (add_letter_from_right (rev code))"

text \<open>The text so far and the code of the current node, beside the heap, which \<open>at\<close> changes.\<close>

type_synonym 'd graph_state = "'d heap \<times> string \<times> string"

definition on_graph_heap :: "('d heap, 'a) op \<Rightarrow> ('d graph_state, 'a) op" where
  "on_graph_heap m s = (case s of (h, x) \<Rightarrow> (case m h of (r, h') \<Rightarrow> (r, (h', x))))"

definition graph_put :: "string \<Rightarrow> ('d graph_state, unit) op" where
  "graph_put s = modS (\<lambda>(h, ss, code). (h, ss @ s, code))"

definition graph_next_code :: "('d graph_state, unit) op" where
  "graph_next_code = modS (\<lambda>(h, ss, code). (h, ss, add_letter code))"

definition graph_code :: "('d graph_state, string) op" where
  "graph_code = getS (\<lambda>(h, ss, code). code)"

definition print_submods_step :: "(string \<Rightarrow> ('d graph_state, unit) op) \<Rightarrow> nat \<Rightarrow> 'd manager \<Rightarrow> string \<Rightarrow> ('d graph_state, unit) op" where
  "print_submods_step rec n mm module_key =
     bindS (on_graph_heap (mm_at n n mm module_key)) (\<lambda>a.
     bindS (on_graph_heap (\<lambda>h. (bindR (mod_at h a) (\<lambda>m. mp_submods' (mo_pimpl m)), h))) (\<lambda>submods.
     bindS graph_code (\<lambda>main_mod_code.
     forS (\<lambda>key.
       bindS (on_graph_heap (\<lambda>h. (bindR (mod_at h a) (\<lambda>m. bindR (mp_submods' (mo_pimpl m)) (ci_at key)), h))) (\<lambda>v.
       bindS (graph_put (newline @ [CHR 0x09] @ main_mod_code @ ''-->'' @ ''|'' @ key @ ''| '')) (\<lambda>_.
       bindS graph_next_code (\<lambda>_.
       bindS graph_code (\<lambda>code.
       if \<not> sr_has_module v then graph_put (code @ ''[No Submodule associated with Key]'')
       else bindS (on_graph_heap (\<lambda>h. (srp_get_name h v, h))) (\<lambda>name.
            bindS (graph_put (code @ ''['' @ name @ '']'')) (\<lambda>_. rec name))))))) (map fst submods))))"

fun print_submods :: "nat \<Rightarrow> nat \<Rightarrow> 'd manager \<Rightarrow> string \<Rightarrow> ('d graph_state, unit) op" where
  "print_submods n 0 mm module_key = throwS Out_of_fuel"
| "print_submods n (Suc f) mm module_key = print_submods_step (print_submods n f mm) n mm module_key"

definition create_mermaid_graph :: "nat \<Rightarrow> 'd manager \<Rightarrow> ('d heap, string) op" where
  "create_mermaid_graph n mm h =
     (if mm_size mm = 0 then (Inr ''No modules are loaded, load some modules!'', h)
      else
        (case forS (\<lambda>i.
            bindS (graph_put (newline @ ''```mermaid'' @ newline @ ''flowchart LR'' @ newline)) (\<lambda>_.
            let name = mm_keys mm ! i in
            bindS graph_code (\<lambda>code.
            bindS (graph_put ([CHR 0x09] @ code @ ''['' @ name @ '']'')) (\<lambda>_.
            bindS (print_submods n n mm name) (\<lambda>_.
            bindS (graph_put (newline @ ''```'')) (\<lambda>_.
            graph_next_code)))))) [0..<mm_size mm] (h, '''', ''AAA'') of
           (r, (h', ss, code)) \<Rightarrow> (bindR r (\<lambda>_. Inr ss), h')))"

section \<open>Lemmas\<close>

text \<open>The printer at a depth of sections, and the operations that go from one depth to another.\<close>

definition at_depth :: "nat \<Rightarrow> rest_printer \<Rightarrow> bool" where
  "at_depth d p \<longleftrightarrow> rp_underline_chars p = rp_underline_chars rp_new \<and> rp_overline_chars p = rp_overline_chars rp_new \<and>
     rp_section p = d"

definition goes :: "nat \<Rightarrow> nat \<Rightarrow> 'a rst \<Rightarrow> bool" where
  "goes d d' m \<longleftrightarrow> (\<forall>p. at_depth d p \<longrightarrow> (\<exists>x p'. m p = (Inr x, p') \<and> at_depth d' p'))"

lemma goes_bindS: "goes d d' m \<Longrightarrow> (\<And>x. goes d' d'' (f x)) \<Longrightarrow> goes d d'' (bindS m f)"
  unfolding goes_def bindS_def by fastforce

lemma goes_put:
  "goes d d (modS (rst_put x))" "goes d d (rst_text s)" "goes d d (rst_verbatim s)" "goes d d (rst_frags k fs)"
  "goes d d input_desc" "goes d d input_quick_ref_desc" "goes d d input_full_list_desc" "goes d d result_desc" "goes d d submod_desc"
  "goes d d (getS g)"
  by (simp_all add: goes_def at_depth_def rst_put_def rst_text_def rst_verbatim_def rst_frags_def input_desc_def
      input_quick_ref_desc_def input_full_list_desc_def result_desc_def submod_desc_def)

lemma goes_start: "d < 6 \<Longrightarrow> goes d (Suc d) (start_section name)"
  by (simp add: goes_def at_depth_def start_section_def rp_new_def rst_put_def Let_def)

lemma goes_finish: "goes (Suc d) d finish_section"
  by (simp add: goes_def at_depth_def finish_section_def)

lemma goes_lift: "r = Inr x \<Longrightarrow> goes d d' (f x) \<Longrightarrow> goes d d' (bindS (liftS r) f)"
  by (simp add: goes_def)

lemma goes_forS: "(\<And>x. x \<in> set xs \<Longrightarrow> goes d d (f x)) \<Longrightarrow> goes d d (forS f xs)"
  by (induction xs) (simp add: goes_def, simp, rule goes_bindS, auto)

lemma goes_if: "(b \<Longrightarrow> goes d d' m) \<Longrightarrow> (\<not> b \<Longrightarrow> goes d d' m') \<Longrightarrow> goes d d' (if b then m else m')"
  by simp

text \<open>The rules in the order they are tried: a section, a lookup, and what stays at its depth.\<close>

lemmas goes_rules = goes_bindS [OF goes_start] goes_bindS [OF goes_finish] goes_finish goes_lift goes_put goes_forS goes_if
  goes_bindS [where d = d and d' = d for d]

lemma or_na_input: "\<exists>fs. or_na (mi_has_description i) (litR (mi_description i)) = Inr fs" "\<exists>fs. or_na (mi_has_value i) (mi_str i) = Inr fs"
  by (auto simp: or_na_def mi_has_description_def mip_has_description_def mi_description_def mip_description_def
      mi_has_value_def mi_str_def mi_get_def mip_get_value_def mip_assert_value_set_def)

lemma goes_entry: "d < 6 \<Longrightarrow> goes d d (input_entry ni)"
proof -
  assume d: "d < 6"
  obtain name i where ni: "ni = (name, i)" by (cases ni)
  obtain fs gs where "or_na (mi_has_description i) (litR (mi_description i)) = Inr fs" "or_na (mi_has_value i) (mi_str i) = Inr gs"
    using or_na_input by blast
  then show ?thesis
    using d unfolding input_entry_def ni prod.case Let_def by (intro goes_rules) assumption+
qed

lemma mapR_total: "(\<And>x. x \<in> set xs \<Longrightarrow> \<exists>y. f x = Inr y) \<Longrightarrow> \<exists>ys. mapR f xs = Inr ys"
proof (induction xs)
  case (Cons x xs)
  obtain y ys where "f x = Inr y" "mapR f xs = Inr ys" using Cons by fastforce
  then show ?case by simp
qed simp

lemma input_table_total: "\<exists>t. input_quick_ref_table fort inputs = Inr t"
proof -
  have "\<exists>rows. mapR (\<lambda>(name, v).
         bindR (or_na (mi_has_value v) (mi_str v)) (\<lambda>val.
         bindR (or_na (mi_has_description v) (litR (mi_description v))) (\<lambda>desc.
         Inr [[Lit name], val, desc]))) inputs = Inr rows"
  proof (rule mapR_total)
    fix x :: "string \<times> module_input"
    obtain name v where "x = (name, v)" by (cases x)
    then show "\<exists>y. (case x of (name, v) \<Rightarrow> bindR (or_na (mi_has_value v) (mi_str v)) (\<lambda>val.
         bindR (or_na (mi_has_description v) (litR (mi_description v))) (\<lambda>desc. Inr [[Lit name], val, desc]))) = Inr y"
      using or_na_input [of v] by auto
  qed
  then show ?thesis by (auto simp: input_quick_ref_table_def)
qed

lemma goes_print_inputs: "d < 3 \<Longrightarrow> goes d d (print_inputs fort inputs)"
proof -
  assume d: "d < 3"
  obtain t where t: "input_quick_ref_table fort inputs = Inr t" using input_table_total by blast
  have all: "goes (Suc (Suc d)) (Suc (Suc d)) (input_full_list inputs)"
    unfolding input_full_list_def using d by (intro goes_forS goes_entry) simp
  show ?thesis
    unfolding print_inputs_def using d by (intro goes_rules) (assumption | rule t | rule all | simp)+
qed

text \<open>A result that was not moved from can be described.\<close>

lemma typed_row_total:
  assumes "has_type \<Longrightarrow> \<exists>x. t = Inr x" and "has_desc = Inr b" and "b \<Longrightarrow> \<exists>x. desc = Inr x"
  shows "\<exists>row. typed_row demangle name has_type t has_desc desc = Inr row"
  using assms by (cases has_type; cases b) (auto simp: typed_row_def or_na_def)

lemma result_table_total:
  assumes "\<forall>(k, r) \<in> set results. r \<noteq> None"
  shows "\<exists>t. result_table demangle fort results = Inr t"
proof -
  have "\<exists>rows. mapR (\<lambda>(name, v). typed_row demangle name (mr_has_type v) (mr_type v) (mr_has_description v) (mr_description v))
       results = Inr rows"
  proof (rule mapR_total)
    fix x assume "x \<in> set results"
    then have "snd x \<noteq> None" using assms by auto
    then obtain name p where x: "x = (name, Some p)" by (cases x) auto
    have "\<exists>row. typed_row demangle name (mr_has_type (Some p)) (mr_type (Some p)) (mr_has_description (Some p)) (mr_description (Some p)) = Inr row"
      by (rule typed_row_total [where b = "mrp_has_description p"])
        (auto simp: mr_has_type_def mr_type_def mr_has_description_def mr_description_def mrp_has_type_def mrp_get_type_def
          mrp_has_description_def mrp_description_def)
    then show "\<exists>y. (case x of (name, v) \<Rightarrow> typed_row demangle name (mr_has_type v) (mr_type v) (mr_has_description v) (mr_description v)) = Inr y"
      by (simp add: x)
  qed
  then show ?thesis by (auto simp: result_table_def)
qed

lemma submod_table_total: "\<exists>t. submod_table demangle fort submods = Inr t"
proof -
  have "\<exists>rows. mapR (\<lambda>(name, v). typed_row demangle name (sr_has_type v) (srp_type v) (Inr (sr_has_description v)) (srp_description v))
       submods = Inr rows"
  proof (rule mapR_total)
    fix x :: "string \<times> submodule_request"
    obtain name v where x: "x = (name, v)" by (cases x)
    have "\<exists>row. typed_row demangle name (sr_has_type v) (srp_type v) (Inr (sr_has_description v)) (srp_description v) = Inr row"
      by (rule typed_row_total [where b = "sr_has_description v"]) (auto simp: sr_has_defs srp_type_def srp_description_def)
    then show "\<exists>y. (case x of (name, v) \<Rightarrow> typed_row demangle name (sr_has_type v) (srp_type v) (Inr (sr_has_description v)) (srp_description v)) = Inr y"
      by (simp add: x)
  qed
  then show ?thesis by (auto simp: submod_table_def)
qed

lemma goes_print_results:
  assumes "d < 6" and "\<forall>(k, r) \<in> set results. r \<noteq> None"
  shows "goes d d (print_results demangle fort results)"
proof -
  obtain t where t: "result_table demangle fort results = Inr t" using result_table_total [OF assms(2)] by blast
  show ?thesis unfolding print_results_def using assms(1) by (intro goes_rules) (assumption | rule t | simp)+
qed

lemma goes_print_submods: "d < 6 \<Longrightarrow> goes d d (print_submod_table demangle fort submods)"
proof -
  assume d: "d < 6"
  obtain t where t: "submod_table demangle fort submods = Inr t" using submod_table_total by blast
  show ?thesis unfolding print_submod_table_def using d by (intro goes_rules) (assumption | rule t | simp)+
qed

section \<open>Node codes\<close>

text \<open>The value of a code, as a number of base 26.\<close>

fun code_value :: "string \<Rightarrow> nat" where
  "code_value [] = 0"
| "code_value (c # code) = (of_char c - 65) * 26 ^ length code + code_value code"

definition letters :: "string \<Rightarrow> bool" where
  "letters code \<longleftrightarrow> list_all (\<lambda>c. 65 \<le> (of_char c :: nat) \<and> (of_char c :: nat) \<le> 90) code"

fun value_from_right :: "string \<Rightarrow> nat" where
  "value_from_right [] = 0"
| "value_from_right (c # code) = (of_char c - 65) + 26 * value_from_right code"

lemma value_from_right_append:
  "value_from_right (xs @ [c]) = value_from_right xs + (of_char c - 65) * 26 ^ length xs"
  by (induction xs) (simp_all add: algebra_simps)

lemma value_rev: "value_from_right (rev code) = code_value code"
  by (induction code) (simp_all add: value_from_right_append)

lemma value_bound: "letters code \<Longrightarrow> value_from_right code < 26 ^ length code"
proof (induction code)
  case (Cons c code)
  then have "of_char c - 65 \<le> (25 :: nat)" "value_from_right code + 1 \<le> 26 ^ length code"
    by (auto simp: letters_def)
  then have "of_char c - 65 + 26 * value_from_right code < 26 * 26 ^ length code" by linarith
  then show ?case by simp
qed simp

lemma add_letter_from_right_value:
  assumes "letters code"
  shows "letters (add_letter_from_right code) \<and> length (add_letter_from_right code) = length code \<and>
    value_from_right (add_letter_from_right code) =
      (if value_from_right code + 1 = 26 ^ length code then 0 else value_from_right code + 1)"
  using assms
proof (induction code)
  case (Cons c code)
  have c: "65 \<le> (of_char c :: nat)" "(of_char c :: nat) \<le> 90" and l: "letters code"
    using Cons.prems by (auto simp: letters_def)
  have bound: "value_from_right code < 26 ^ length code" by (rule value_bound [OF l])
  show ?case
  proof (cases "c = CHR ''Z''")
    case True
    have "(25 :: nat) + 26 * v + 1 = 26 * 26 ^ k \<longleftrightarrow> v + 1 = 26 ^ k" for v k by auto
    then show ?thesis using Cons.IH [OF l] True by (auto simp: letters_def)
  next
    case False
    then have "(of_char c :: nat) \<noteq> of_char (CHR ''Z'')" by (simp only: of_char_eq_iff not_False_eq_True)
    then have c': "(of_char c :: nat) \<le> 89" using c(2) by simp
    then have code: "(of_char (char_of ((of_char c :: nat) + 1)) :: nat) = of_char c + 1" by simp
    have "of_char c - 65 + 26 * value_from_right code + 1 \<noteq> 26 * 26 ^ length code"
      using c' c(1) bound by linarith
    then show ?thesis using False code c(1) c' l by (auto simp: letters_def)
  qed
qed (simp add: letters_def)

section \<open>File names\<close>

lemma replace_invalid_map:
  "r \<notin> set bad \<Longrightarrow> replace_invalid_chars s bad r = map (\<lambda>c. if c \<in> set bad then r else c) s"
proof (induction bad arbitrary: s)
  case (Cons b bad)
  then show ?case
    by (auto simp: replace_invalid_chars_def)
qed (simp add: replace_invalid_chars_def)

section \<open>Properties\<close>

text \<open>C39: The page of a module. If none of its results was moved from, a module can be documented exactly
  when it has an implementation, and then every section the page opens is closed and none is nested
  deeper than the printer has characters for: the printer never runs out of them.\<close>

theorem document_module_total:
  assumes "\<And>b. mp_base_of h (mo_pimpl m) = Inr b \<Longrightarrow> \<forall>(k, r) \<in> set (mb_results b). r \<noteq> None"
    and "\<And>b. mp_base (mo_pimpl m) = Some b \<Longrightarrow> hp_bases h b \<noteq> None"
  shows "if mp_has_module (mo_pimpl m)
    then \<exists>page p. document_module demangle fort h name m rp_new = (Inr page, p) \<and> rp_section p = 0
    else fst (document_module demangle fort h name m rp_new) =
      Inl (runtime_error ''Module does not contain an implementation'')"
proof (cases "mp_has_module (mo_pimpl m)")
  case True
  then obtain b where b: "mp_base_of h (mo_pimpl m) = Inr b"
    using assms(2) by (auto simp: mp_has_module_def mp_base_of_def mp_assert_mod'_def base_at_def deref_def split: option.splits)
  have res: "goes (Suc 0) (Suc 0) (print_results demangle fort (mb_results b))"
    by (rule goes_print_results) (use assms(1) [OF b] in auto)
  have facts: "mp_has_description h (mo_pimpl m) = Inr (mb_desc b \<noteq> None)"
      "mp_citations h (mo_pimpl m) = Inr (mb_citations b)" "mp_results h (mo_pimpl m) = Inr (mb_results b)"
      "mp_property_types' (mo_pimpl m) = Inr (mp_property_types (mo_pimpl m))"
      "mp_inputs' (mo_pimpl m) = Inr (mp_inputs (mo_pimpl m))" "mp_submods' (mo_pimpl m) = Inr (mp_submods (mo_pimpl m))"
    using b True by (simp_all add: mp_has_description_def mb_has_description_def mp_citations_def mp_results_def
        mp_property_types'_def mp_inputs'_def mp_submods'_def mp_assert_mod'_def)
  have desc: "mp_description h (mo_pimpl m) = Inr (the (mb_desc b))" if "mb_desc b \<noteq> None"
    using b that by (auto simp: mp_description_def mb_get_desc_def)
  have "goes 0 0 (document_module demangle fort h name m)"
    unfolding document_module_def Let_def
    by (intro goes_rules) (assumption | rule facts res goes_print_inputs goes_print_submods desc | simp)+
  moreover have "at_depth 0 rp_new" by (simp add: at_depth_def rp_new_def)
  ultimately show ?thesis using True unfolding goes_def at_depth_def by fastforce
next
  case False
  then have d: "mp_has_description h (mo_pimpl m) = Inl (runtime_error ''Module does not contain an implementation'')"
    by (simp add: mp_has_description_def mp_base_of_def mp_assert_mod'_def)
  show ?thesis
    using False by (simp add: document_module_def Let_def rst_text_def bindS_def d start_section_def rp_new_def rst_put_def)
qed



theorem document_module_total_witness:
  "\<exists>page p. document_module rt_name (\<lambda>t. concat (concat t)) energy_heap ''Energy'' (energy_module 1) rp_new = (Inr page, p) \<and> rp_section p = 0"
proof -
  have "mp_has_module (mo_pimpl (energy_module 1 :: unit module))" by (simp add: energy_module_def mp_has_module_def)
  with document_module_total [of energy_heap "energy_module 1" rt_name "\<lambda>t. concat (concat t)" "''Energy''"] show ?thesis
    by (auto simp: energy_module_def mp_base_of_def mp_assert_mod'_def mp_has_module_def base_at_def mb_new_def)
qed

end
