(* ===== verification/Run_Termination.thy ===== *)
theory Run_Termination
  imports Memoization
begin

text \<open>
  Runs end: on a heap where no module reaches itself through its submodules the recursion of
  \<open>run\<close> stays below its bound.  \<open>run_upto z n\<close> is \<open>run\<close> with \<open>z\<close> in place of what happens at the
  bound; the theory shows that \<open>z\<close> is never asked.
\<close>

fun run_upto :: "(cval \<Rightarrow> cval res) \<Rightarrow> (nat \<Rightarrow> input_map \<Rightarrow> ('d heap, result_map) op) \<Rightarrow> nat \<Rightarrow> nat \<Rightarrow> input_map
    \<Rightarrow> ('d heap, result_map) op" where
  "run_upto pycast z 0 a ps = z a ps"
| "run_upto pycast z (Suc n) a ps = mp_run pycast (Suc n) (run_upto pycast z n) a ps"

lemma run_upto_run: "run_upto pycast (\<lambda>_ _. throwS Out_of_fuel) n = mod_run pycast n"
proof (induction n)
  case (Suc n)
  show ?case by (intro ext) (simp only: run_upto.simps mod_run.simps Suc)
qed (intro ext, simp)

section \<open>Operations that agree\<close>

text \<open>Two operations that do the same in every state that differs from \<open>h0\<close> in locks and caches only.\<close>

definition agree :: "'d heap \<Rightarrow> ('d heap, 'a) op \<Rightarrow> ('d heap, 'a) op \<Rightarrow> bool" where
  "agree h0 m m' \<longleftrightarrow> (\<forall>h. keeps h0 h \<longrightarrow> m' h = m h \<and> keeps h0 (snd (m h)))"

lemma agree_same: "preserves keeps m \<Longrightarrow> agree h0 m m"
  unfolding agree_def preserves_def using keeps_trans by blast

lemma agree_bindS:
  assumes "agree h0 m m'" and "\<And>x. agree h0 (f x) (f' x)"
  shows "agree h0 (bindS m f) (bindS m' f')"
  unfolding agree_def
proof (intro allI impI)
  fix h
  assume h: "keeps h0 h"
  obtain r h1 where r: "m h = (r, h1)" by (cases "m h")
  then have m': "m' h = (r, h1)" "keeps h0 h1" using assms(1) h by (auto simp: agree_def)
  then show "bindS m' f' h = bindS m f h \<and> keeps h0 (snd (bindS m f h))"
    using assms(2) r by (cases r) (auto simp: bindS_def agree_def)
qed

lemma agree_lift: "(\<And>x. r = Inr x \<Longrightarrow> agree h0 (f x) (f' x)) \<Longrightarrow> agree h0 (bindS (liftS r) f) (bindS (liftS r) f')"
  by (cases r) (simp_all add: agree_def)

lemma agree_query:
  assumes "\<And>h. keeps h0 h \<Longrightarrow> q' h = q h" and "\<And>h x. keeps h0 h \<Longrightarrow> q h = Inr x \<Longrightarrow> agree h0 (f x) (f' x)"
  shows "agree h0 (bindS (\<lambda>h. (q h, h)) f) (bindS (\<lambda>h. (q' h, h)) f')"
  unfolding agree_def using assms by (auto simp: agree_def split: sum.split)

lemma agree_catchS:
  assumes "agree h0 m m'" and "\<And>x. agree h0 (f x) (f' x)"
  shows "agree h0 (catchS m f) (catchS m' f')"
  unfolding agree_def
proof (intro allI impI)
  fix h
  assume h: "keeps h0 h"
  obtain r h1 where r: "m h = (r, h1)" by (cases "m h")
  then have m': "m' h = (r, h1)" "keeps h0 h1" using assms(1) h by (auto simp: agree_def)
  then show "catchS m' f' h = catchS m f h \<and> keeps h0 (snd (catchS m f h))"
    using assms(2) r by (cases r) (auto simp: catchS_def agree_def)
qed

lemma agree_if: "(b \<Longrightarrow> agree h0 m m') \<Longrightarrow> (\<not> b \<Longrightarrow> agree h0 k k') \<Longrightarrow> agree h0 (if b then m else k) (if b then m' else k')"
  by simp

text \<open>The rules in the order they are tried.\<close>

lemmas agrees = agree_lift agree_query agree_if agree_catchS agree_bindS

lemma agree_forS: "(\<And>x. x \<in> set xs \<Longrightarrow> agree h0 (f x) (f' x)) \<Longrightarrow> agree h0 (forS f xs) (forS f' xs)"
proof (induction xs)
  case (Cons x xs)
  then show ?case by (simp, intro agrees) auto
qed (simp add: agree_same frames)

lemma agree_alg:
  assumes "\<And>key pt args. agree h0 (call key pt args) (call' key pt args)"
  shows "agree h0 (run_alg pycast call cache g) (run_alg pycast call' cache g)"
proof (induction g)
  case (Run_submod key pt args k)
  show ?case unfolding run_alg.simps by (intro agrees assms Run_submod) auto
next
  case (Store key v k)
  show ?case unfolding run_alg.simps by (intro agrees agree_same [OF frame_on_cw] Store) auto
next
  case (Fetch T key k)
  show ?case unfolding run_alg.simps by (intro agrees agree_same [OF frame_on_cw] Fetch) auto
qed (simp_all add: agree_same frames)

section \<open>Heights\<close>

text \<open>The submodules of \<open>p\<close> are below \<open>k\<close>.\<close>

definition below :: "(nat \<Rightarrow> nat) \<Rightarrow> nat \<Rightarrow> 'd module_pimpl \<Rightarrow> bool" where
  "below rank k p \<longleftrightarrow> (\<forall>(key, r) \<in> set (mp_submods p). \<forall>c. sr_module r = Some c \<longrightarrow> rank c < k)"

lemma belowD: "below rank k p \<Longrightarrow> (key, r) \<in> set (mp_submods p) \<Longrightarrow> sr_module r = Some c \<Longrightarrow> rank c < k"
  by (auto simp: below_def)

lemma ranked_below: "ranked h rank \<Longrightarrow> mod_at h a = Inr m \<Longrightarrow> below rank (rank a) (mo_pimpl m)"
  unfolding below_def ranked_def by (cases "hp_mods h a") (auto simp: mod_at_def dest!: submod_ofI)

lemma ranked_keeps:
  assumes "ranked h rank" and "keeps h h'"
  shows "ranked h' rank"
proof -
  obtain A w where h': "h' = (lock_set A h)\<lparr>hp_cw := w\<rparr>" using assms(2) by (auto simp: keeps_def)
  have "submod_of h' = submod_of (lock_set A h)" by (simp add: fun_eq_iff h' submod_of_def del: submod_of_lock)
  then show ?thesis using assms(1) by (simp add: ranked_def)
qed

lemma clone_submods:
  "om_copy sr_clone s = Inr s' \<Longrightarrow> (key, r') \<in> set s' \<Longrightarrow> \<exists>r. (key, r) \<in> set s \<and> sr_module r' = sr_module r \<and> sr_type r' = sr_type r"
proof (induction s arbitrary: s')
  case (Cons p s)
  obtain k0 r0 where "p = (k0, r0)" by (cases p)
  with Cons show ?case by (auto simp: om_copy_def sr_clone_def bindR_Inr_iff) (blast+)
qed (simp add: om_copy_def)

lemma below_copy: "mp_copy p = Inr p' \<Longrightarrow> below rank k p \<Longrightarrow> below rank k p'"
  unfolding below_def by (fastforce simp: mp_copy_def bindR_Inr_iff dest: clone_submods)

section \<open>The walks of a run\<close>

lemma walks_same:
  assumes "ranked h rank" and "rank a < n" and "rank a < n'"
  shows "mod_ready n h (a, i) = mod_ready n' h (a, i)" "mod_is_memoizable n h a = mod_is_memoizable n' h a"
    "mod_submod_uuids n h a = mod_submod_uuids n' h a"
  using submodule_walks_end [OF assms(1,2), of i] submodule_walks_end [OF assms(1,3), of i] by simp_all

lemma not_set_same:
  assumes "ranked h rank" and "below rank k p" and "k \<le> n" and "k \<le> n'"
  shows "mp_not_set (mod_ready n h) p ps = mp_not_set (mod_ready n' h) p ps"
proof -
  have "sr_ready (mod_ready n h) r = sr_ready (mod_ready n' h) r" if "(key, r) \<in> set (mp_submods p)" for key r
  proof (rule sr_ready_cong)
    fix c assume "sr_module r = Some c"
    then have "rank c < k" by (rule belowD [OF assms(2) that])
    then show "mod_ready n h (c, sr_inputs r) = mod_ready n' h (c, sr_inputs r)"
      using assms(3,4) by (intro walks_same(1) [OF assms(1)]) simp_all
  qed
  then have "not_set_guts' (sr_ready (mod_ready n h)) (mp_submods p) = not_set_guts' (sr_ready (mod_ready n' h)) (mp_submods p)"
    by (intro not_set_guts_cong) blast
  then show ?thesis by (simp add: mp_not_set_def)
qed

lemma merge_same:
  assumes "ranked h rank" and "rank a \<le> n" and "rank a \<le> n'"
  shows "mod_merge_inputs n h a ps = mod_merge_inputs n' h a ps"
proof (cases "mod_at h a")
  case (Inr m)
  have below: "below rank (rank a) (mo_pimpl m)" by (rule ranked_below [OF assms(1) Inr])
  have "mod_submod_uuids n h c = mod_submod_uuids n' h c"
    if "(key, r) \<in> set (mp_submods (mo_pimpl m))" "sr_module r = Some c" for key r c
    using belowD [OF below that] assms(2,3) by (intro walks_same(3) [OF assms(1)]) simp_all
  then have "uuid_loop (mod_submod_uuids n h) (mod_uuid h) (mp_submods (mo_pimpl m)) rv =
      uuid_loop (mod_submod_uuids n' h) (mod_uuid h) (mp_submods (mo_pimpl m)) rv" for rv
    by (intro uuid_loop_cong) simp
  then have "mp_submod_uuids (mod_submod_uuids n h) (mod_uuid h) (mo_pimpl m) =
      mp_submod_uuids (mod_submod_uuids n' h) (mod_uuid h) (mo_pimpl m)"
    by (cases "mp_assert_mod' (mo_pimpl m)") (simp_all add: mp_submod_uuids_def mp_submods'_def)
  then have "mp_merge_inputs' (mod_submod_uuids n h) (mod_uuid h) (mo_pimpl m) =
      mp_merge_inputs' (mod_submod_uuids n' h) (mod_uuid h) (mo_pimpl m)"
    by (intro ext) (simp only: mp_merge_inputs'_def)
  then show ?thesis by (simp only: mod_merge_inputs_def Inr bindR_simps)
qed (simp add: mod_merge_inputs_def)

lemma pnr_items_cong:
  assumes "\<And>key r c m ind. (key, r) \<in> set (mp_submods p) \<Longrightarrow> sr_module r = Some c \<Longrightarrow> mod_at h c = Inr m \<Longrightarrow>
    f (mo_pimpl m) ind = g (mo_pimpl m) ind"
  shows "pnr_items f h p desc i2 items = pnr_items g h p desc i2 items"
proof (induction items)
  case (Cons item items)
  have "bindR (mod_at h a) (\<lambda>m. bindR (f (mo_pimpl m) (i2 @ ''  '')) k) = bindR (mod_at h a) (\<lambda>m. bindR (g (mo_pimpl m) (i2 @ ''  '')) k)"
    if r: "ci_find item (mp_submods p) = Some r" and a: "srp_value r' = Inr a" "sr_clone r = Inr r'" for r r' a and k :: "string \<Rightarrow> string res"
  proof (cases "mod_at h a")
    case (Inr m)
    obtain key where "(key, r) \<in> set (mp_submods p)" using om_find_Some_set [OF r] by blast
    moreover have "sr_module r = Some a" using a by (auto simp: sr_clone_def bindR_Inr_iff)
    ultimately show ?thesis using assms Inr by simp
  qed simp
  note body = this
  have "bindR (srp_value r') (\<lambda>a. bindR (mod_at h a) (\<lambda>m. bindR (f (mo_pimpl m) (i2 @ ''  '')) k)) =
      bindR (srp_value r') (\<lambda>a. bindR (mod_at h a) (\<lambda>m. bindR (g (mo_pimpl m) (i2 @ ''  '')) k))"
    if "ci_find item (mp_submods p) = Some r" "sr_clone r = Inr r'" for r r' and k :: "string \<Rightarrow> string res"
    by (rule bindR_cong [OF HOL.refl]) (rule body [OF that(1) _ that(2)])
  note slot = this
  show ?case
    unfolding pnr_items.simps Cons
  proof (rule arg_cong [where f = "\<lambda>x. bindR x y" for y], rule if_cong [OF HOL.refl HOL.refl], rule bindR_cong [OF HOL.refl],
      rule bindR_cong [OF HOL.refl], rule bindR_cong [OF HOL.refl])
    fix s r r'
    assume s: "mp_submods' p = Inr s" "ci_at item s = Inr r" "sr_clone r = Inr r'"
    have "s = mp_submods p" using s(1) by (cases "mp_assert_mod' p") (simp_all add: mp_submods'_def)
    then have "ci_find item (mp_submods p) = Some r" using s(2) by (simp only: om_at_Inr_iff)
    then show "(if \<not> sr_has_module r' then Inr (i2 @ item @ '' is not set.'' @ newline)
         else bindR (srp_value r') (\<lambda>a. bindR (mod_at h a) (\<lambda>m. bindR (f (mo_pimpl m) (i2 @ ''  '')) (\<lambda>s. Inr (i2 @ item @ '':'' @ newline @ s))))) =
        (if \<not> sr_has_module r' then Inr (i2 @ item @ '' is not set.'' @ newline)
         else bindR (srp_value r') (\<lambda>a. bindR (mod_at h a) (\<lambda>m. bindR (g (mo_pimpl m) (i2 @ ''  '')) (\<lambda>s. Inr (i2 @ item @ '':'' @ newline @ s)))))"
      using slot s(3) by simp
  qed
qed simp

lemma mapR_cong: "(\<And>x. x \<in> set xs \<Longrightarrow> f x = g x) \<Longrightarrow> mapR f xs = mapR g xs"
  by (induction xs) simp_all

lemma pnr_step_cong:
  assumes "\<And>desc i2 items. pnr_items (\<lambda>q i. f (q, [], i)) h p desc i2 items = pnr_items (\<lambda>q i. g (q, [], i)) h p desc i2 items"
    and "mp_not_set rdy p ps = mp_not_set rdy' p ps"
  shows "pnr_step rdy h f (p, ps, ind) = pnr_step rdy' h g (p, ps, ind)"
  by (simp add: pnr_step_def assms)

lemma pnr_same:
  assumes "ranked h rank"
  shows "below rank k p \<Longrightarrow> k < n \<Longrightarrow> k < l \<Longrightarrow>
    calls (pnr_step (mod_ready n h) h) l (p, ps, ind) = calls (pnr_step (mod_ready (Suc k) h) h) (Suc k) (p, ps, ind)"
proof (induction k arbitrary: p n l ps ind rule: less_induct)
  case (less k)
  obtain l' where l: "l = Suc l'" using less.prems(3) by (cases l) auto
  let ?f = "\<lambda>q ind. calls (pnr_step (mod_ready n h) h) l' (q, [], ind)"
  let ?g = "\<lambda>q ind. calls (pnr_step (mod_ready (Suc k) h) h) k (q, [], ind)"
  have "?f (mo_pimpl m) i = ?g (mo_pimpl m) i"
    if "(key, r) \<in> set (mp_submods p)" "sr_module r = Some c" "mod_at h c = Inr m" for key r c m i
  proof -
    have c: "rank c < k" by (rule belowD [OF less.prems(1) that(1,2)])
    have b: "below rank (rank c) (mo_pimpl m)" by (rule ranked_below [OF assms that(3)])
    show ?thesis
      using less.IH [OF c b, of n l' "[]" i] less.IH [OF c b, of "Suc k" k "[]" i] c less.prems(2,3) l by simp
  qed
  then have "pnr_items ?f h p desc i2 items = pnr_items ?g h p desc i2 items" for desc i2 items
    by (rule pnr_items_cong)
  moreover have "mp_not_set (mod_ready n h) p ps = mp_not_set (mod_ready (Suc k) h) p ps"
    using less.prems(2) by (intro not_set_same [OF assms less.prems(1)]) simp_all
  ultimately show ?case unfolding l calls.simps by (rule pnr_step_cong)
qed

lemma print_same:
  assumes "ranked h rank" and "below rank k p" and "k < n" and "k < n'"
  shows "print_not_ready n h p ps ind = print_not_ready n' h p ps ind"
  unfolding print_not_ready_def
  using pnr_same [OF assms(1,2,3,3)] pnr_same [OF assms(1,2,4,4)] by simp

section \<open>Runs agree\<close>

lemma lock_agrees:
  assumes "ranked h0 rank"
  shows "rank a < n \<Longrightarrow> rank a < n' \<Longrightarrow> agree h0 (mod_lock n a) (mod_lock n' a)"
proof (induction "rank a" arbitrary: a n n' rule: less_induct)
  case less
  obtain l l' where n: "n = Suc l" "n' = Suc l'" using less.prems by (cases n; cases n') auto
  have slot: "agree h0 (srp_lock (\<lambda>x h. mod_ready l h x) (mod_lock l) r) (srp_lock (\<lambda>x h. mod_ready l' h x) (mod_lock l') r)"
    if c: "\<And>c. sr_module r = Some c \<Longrightarrow> rank c < rank a" for r
    unfolding srp_lock_def
  proof (intro agrees)
    fix h assume "keeps h0 h"
    then have "ranked h rank" by (rule ranked_keeps [OF assms])
    then have "mod_ready l' h (c, i) = mod_ready l h (c, i)" if "sr_module r = Some c" for c i
      using c [OF that] less.prems n by (intro walks_same(1)) (assumption, linarith, linarith)
    then show "srp_ready (\<lambda>x. mod_ready l' h x) r = srp_ready (\<lambda>x. mod_ready l h x) r"
      by (auto simp: srp_ready_def sr_has_defs intro!: bindR_cong)
  next
    fix c assume "deref (sr_module r) = Inr c"
    then have "rank c < rank a" using c by (cases "sr_module r") (auto simp: deref_def)
    then show "agree h0 (mod_lock l c) (mod_lock l' c)" using less n by simp
  qed (simp add: agree_same frames)
  show ?case
    unfolding n mod_lock.simps mp_lock_def
  proof (intro agrees agree_forS)
    fix h m x
    assume h: "keeps h0 h" "mod_at h a = Inr m" and x: "x \<in> set (mp_submods (mo_pimpl m))"
    have "below rank (rank a) (mo_pimpl m)" by (rule ranked_below [OF ranked_keeps [OF assms h(1)] h(2)])
    then show "agree h0 (case x of (k, v) \<Rightarrow> srp_lock (\<lambda>x h. mod_ready l h x) (mod_lock l) v)
        (case x of (k, v) \<Rightarrow> srp_lock (\<lambda>x h. mod_ready l' h x) (mod_lock l') v)"
      using x slot belowD by (cases x) force
  qed (simp_all add: agree_same frames)
qed

lemma run_as_agrees:
  assumes "\<And>ps. agree h0 (run a ps) (run' a ps)"
  shows "agree h0 (mod_run_as_by pycast run a pt args) (mod_run_as_by pycast run' a pt args)"
  unfolding mod_run_as_by_def by (intro agrees assms agree_same frames) auto

text \<open>The developer's algorithm calls submodules only.\<close>

lemma algorithm_agrees:
  assumes "below rank k p" and "\<And>c ps. rank c < k \<Longrightarrow> agree h0 (run c ps) (run' c ps)"
  shows "agree h0 (mb_run_on pycast (mod_run_as_by pycast run) b ps (mp_submods p))
    (mb_run_on pycast (mod_run_as_by pycast run') b ps (mp_submods p))"
  unfolding mb_run_on_def
proof (intro agree_lift agree_alg)
  fix i s key pt args r
  assume s: "om_copy sr_clone (mp_submods p) = Inr s" and r: "ci_at key s = Inr r"
  obtain key' where "(key', r) \<in> set s" using r om_find_Some_set by (fastforce simp: om_at_Inr_iff)
  from clone_submods [OF s this] obtain r0 where r0: "(key', r0) \<in> set (mp_submods p)" "sr_module r = sr_module r0" by auto
  show "agree h0 (sr_run_as (mod_run_as_by pycast run) pt args r) (sr_run_as (mod_run_as_by pycast run') pt args r)"
    unfolding sr_run_as_def
  proof (intro agrees)
    fix c assume "srp_value r = Inr c"
    then have "rank c < k" using belowD [OF assms(1) r0(1)] r0(2) by simp
    then show "agree h0 (mod_run_as_by pycast run c pt args) (mod_run_as_by pycast run' c pt args)"
      using assms(2) run_as_agrees by blast
  qed (simp add: agree_same frames)
qed

lemma new_run_agrees:
  assumes "ranked h0 rank" and "rank a < n" and "rank a < n'" and "below rank (rank a) p"
    and "\<And>c ps. rank c < rank a \<Longrightarrow> agree h0 (run c ps) (run' c ps)"
  shows "agree h0 (mp_run_new pycast n run a p ps) (mp_run_new pycast n' run' a p ps)"
proof (cases "mp_cache p")
  case None
  show ?thesis
    unfolding mp_run_new_def None option.case
    by (intro agrees algorithm_agrees [OF assms(4,5)] agree_same frames) auto
next
  case (Some c)
  have memo: "mod_is_memoizable n' h a = mod_is_memoizable n h a" if "keeps h0 h" for h
    by (rule walks_same(2) [OF ranked_keeps [OF assms(1) that] assms(3,2)])
  have "preserves keeps (uncached c ps)" unfolding uncached_def by (intro frames)
  then show ?thesis
    unfolding mp_run_new_def Some option.case
    by (intro agrees algorithm_agrees [OF assms(4,5)] agree_same frames) (auto simp: memo)
qed

lemma run_step_agrees:
  assumes "ranked h0 rank" and "rank a < n" and "rank a < n'"
    and "\<And>c ps. rank c < rank a \<Longrightarrow> agree h0 (run c ps) (run' c ps)"
  shows "agree h0 (mp_run pycast n run a ps) (mp_run pycast n' run' a ps)"
  unfolding mp_run_def Let_def
proof (intro agrees)
  fix h m h1
  assume h: "keeps h0 h" "mod_at h a = Inr m" and h1: "keeps h0 h1"
  have r1: "ranked h1 rank" by (rule ranked_keeps [OF assms(1) h1])
  show "mod_ready n' h1 (a, ps) = mod_ready n h1 (a, ps)" by (rule walks_same(1) [OF r1 assms(3,2)])
  show "mod_merge_inputs n' h1 a ps = mod_merge_inputs n h1 a ps" using assms(2,3) by (intro merge_same [OF r1]) simp_all
  show "mod_is_memoizable n' h1 a = mod_is_memoizable n h1 a" by (rule walks_same(2) [OF r1 assms(3,2)])
  have below: "below rank (rank a) (mo_pimpl m)" by (rule ranked_below [OF ranked_keeps [OF assms(1) h(1)] h(2)])
  show "agree h0 (mp_run_new pycast n run a (mo_pimpl m) ps') (mp_run_new pycast n' run' a (mo_pimpl m) ps')" for ps'
    by (rule new_run_agrees [OF assms(1-3) below assms(4)])
  show "print_not_ready n' h1 d ps [] = print_not_ready n h1 d ps []" if "mp_copy (mo_pimpl m) = Inr d" for d
    by (rule print_same [OF r1 below_copy [OF that below] assms(3,2)])
next
  show "agree h0 (mod_lock n a) (mod_lock n' a)" by (rule lock_agrees [OF assms(1-3)])
next
  have "preserves keeps (uncached c ps')" for c ps' unfolding uncached_def by (intro frames)
  then show "agree h0 (uncached c ps') (uncached c ps')" for c ps' by (rule agree_same)
next
  have "preserves keeps (cache_hit c memo ps')" for c memo ps'
    unfolding cache_hit_def by (auto intro!: frames split: option.split)
  then show "agree h0 (cache_hit c memo ps') (cache_hit c memo ps')" for c memo ps' by (rule agree_same)
qed (simp_all add: agree_same frames)

lemma run_agrees:
  assumes "ranked h0 rank"
  shows "rank a < n \<Longrightarrow> rank a < n' \<Longrightarrow> agree h0 (run_upto pycast z n a ps) (run_upto pycast z' n' a ps)"
proof (induction "rank a" arbitrary: a n n' ps rule: less_induct)
  case less
  obtain l l' where n: "n = Suc l" "n' = Suc l'" using less.prems by (cases n; cases n') auto
  show ?case
    unfolding n run_upto.simps
  proof (rule run_step_agrees [OF assms])
    show "rank a < Suc l" "rank a < Suc l'" using less.prems n by simp_all
    fix c ps
    assume "rank c < rank a"
    then show "agree h0 (run_upto pycast z l c ps) (run_upto pycast z' l' c ps)" using less n by simp
  qed
qed

section \<open>Property\<close>

text \<open>C7: Runs end. When no module reaches itself through its submodules, the recursion of \<open>run\<close> never
  gets to its bound if that is above the height of the module: whatever \<open>z\<close> is done there, and
  however large the bound, the run has the outcome and the effects it has with the least such
  bound.  Neither the walks over submodules before the algorithm nor what the
  algorithm calls can recurse without end.\<close>

theorem run_terminates:
  assumes "ranked h rank" and "rank a < n"
  shows "run_upto pycast z n a ps h = mod_run pycast (Suc (rank a)) a ps h"
  using run_agrees [OF assms(1) _ assms(2), of "Suc (rank a)" pycast "\<lambda>_ _. throwS Out_of_fuel" ps z]
  by (simp only: run_upto_run agree_def keeps_refl lessI)

theorem run_terminates_witness:
  "\<forall>z. run_upto Inr z 7 0 [] pair_heap = mod_run Inr 2 0 [] pair_heap"
proof
  fix z
  have "ranked pair_heap (\<lambda>a. if a = 0 then 1 else 0)"
    by (auto simp: ranked_def submod_of_def pair_heap_def mp_new_def split: if_splits)
  from run_terminates [OF this, of 0 7] show "run_upto Inr z 7 0 [] pair_heap = mod_run Inr 2 0 [] pair_heap"
    by (simp add: numeral_2_eq_2 del: mod_run.simps run_upto.simps)
qed

end
