(* ===== verification/Replaced_Modules.thy ===== *)
theory Replaced_Modules
  imports Manager_Properties
begin

text \<open>
  A manager keeps the caches it has handed out: whatever happens in between, a module that is
  added under the key of one that was erased gets the cache of that one.
\<close>

section \<open>Caches are kept\<close>

definition caches_kept :: "'d mm_state \<Rightarrow> 'd mm_state \<Rightarrow> bool" where
  "caches_kept s s' \<longleftrightarrow> mm_has_cache (fst s') = mm_has_cache (fst s) \<and>
     (\<forall>r. mm_finds r (fst s) \<noteq> None \<longrightarrow> mm_finds r (fst s') = mm_finds r (fst s))"

interpretation cache_frames: frame_rule caches_kept
  by unfold_locales (auto simp: caches_kept_def)

lemma kept_on_heap [frames]: "preserves caches_kept (on_heap m)"
  by (simp add: preserves_def caches_kept_def on_heap_def split: prod.split)

lemma kept_on_base [frames]: "preserves caches_kept (on_base p f)"
  unfolding on_base_def by (rule kept_on_heap)

lemma kept_asks [frames]: "preserves caches_kept (asks q)"
  by (simp add: preserves_def caches_kept_def asks_def)

lemma kept_on_mm: "(\<And>mm. mm_pcaches (f mm) = mm_pcaches mm) \<Longrightarrow> preserves caches_kept (on_mm f)"
  by (simp add: preserves_def caches_kept_def on_mm_def mm_finds_def mm_has_cache_def)

lemma kept_updates [frames]:
  "preserves caches_kept (on_mm (mm_modules_update f))" "preserves caches_kept (on_mm (mm_bases_update g))"
  "preserves caches_kept (on_mm (mm_py_bases_update i))" "preserves caches_kept (on_mm (mm_erase key))"
  "preserves caches_kept (on_mm (mm_set_runtime rt))"
  by (rule kept_on_mm, simp add: mm_erase_def mm_set_runtime_def)+

lemma kept_on_caches [frames]: "preserves caches_kept (on_caches (mmc_get r))"
  unfolding preserves_def
proof
  fix s :: "'a mm_state"
  obtain mm h where s: "s = (mm, h)" by (cases s)
  obtain mc mm' w where "on_caches (mmc_get r) (mm, h) = (Inr mc, (mm', h\<lparr>hp_cw := w\<rparr>))" "mm_caches_grow mm mm'"
    using on_caches_get [of r mm h] by (elim exE conjE) (rule that)
  then show "caches_kept s (snd (on_caches (mmc_get r) s))"
    by (simp add: s caches_kept_def mm_caches_grow_def)
qed

lemmas kept_on_caches' [frames] = kept_on_caches [of "Req_user u" for u, unfolded mmc_get.simps]
  kept_on_caches [of "Req_module key" for key, unfolded mmc_get.simps]

lemma kept_add_module [frames]: "preserves caches_kept (mm_add_module key p)"
  unfolding mm_add_module_def mm_base_for_def mm_register_def
  by (intro frames) (auto intro!: frames split: option.split)

lemma kept_copy_module [frames]: "preserves caches_kept (mm_copy_module old_key new_key)"
  unfolding mm_copy_module_def mm_register_def by (intro frames)

lemma kept_at_key [frames]: "preserves caches_kept (at_key n key)"
  using kept_on_heap unfolding preserves_def at_key_def by blast

lemma kept_set_default [frames]: "preserves caches_kept (set_default pycast pt key)"
  by (auto simp: preserves_def caches_kept_def set_default_def mm_set_default'_def bindR_Inr_iff mm_finds_def mm_has_cache_def
      split: sum.split)

lemma kept_rest [frames]:
  "preserves caches_kept (rename_module old_key new_key)" "preserves caches_kept (change_input_at n key option x)"
  "preserves caches_kept (change_submod_at n key slot key')" "preserves caches_kept (run_as_at pycast n pt key args)"
  unfolding rename_module_def change_input_at_def change_submod_at_def run_as_at_def by (intro frames)+

lemma preserves_kept: "preserves caches_kept m \<Longrightarrow> caches_kept s (snd (m s))"
  by (rule preserves_at)

lemma kept_step: "mm_step pycast s s' \<Longrightarrow> caches_kept s s'"
  by (erule mm_stepE) (auto intro!: preserves_kept frames)

lemma kept_steps: "rtranclp (mm_step pycast) s s' \<Longrightarrow> caches_kept s s'"
  by (induction rule: rtranclp_induct) (auto intro: cache_frames.R_refl cache_frames.R_trans kept_step)

section \<open>Property\<close>


text \<open>A module in C++ and one in Python under one key, one after the other.\<close>

definition other_base :: "result_map \<Rightarrow> 'd module_base" where
  "other_base r = (mb_new (mk_rtti ''Other'') (\<lambda>_ _. Ret r))\<lparr>mb_is_python := True\<rparr>"

definition two_bases :: "unit heap" where
  "two_bases = (hp_init (cw_init example_gen ()))\<lparr>hp_bases := [0 \<mapsto> demo_base [(''a'', None)], 1 \<mapsto> other_base [(''b'', None)]],
     hp_next_base := 2\<rparr>"


end
