(* ===== verification/Lambda_Modules.thy ===== *)
theory Lambda_Modules
  imports Memoization
begin

text \<open>
  What a lambda module (\<open>module/lambda_module.hpp\<close>) computes: run as its property type it is the
  function it was made from, through wrapping, readiness, locking, merging and unwrapping.  The
  theory adds no code of the program but proves what \<open>Module_Run\<close>, \<open>Property_Type\<close> and the fields
  do together on a module without submodules; the Python interface rests on it, too.
\<close>

section \<open>Maps of inputs that hold values\<close>

text \<open>A value that can be copied: anything but a null Python object.\<close>

fun solid :: "cval \<Rightarrow> bool" where
  "solid (CPy None) = False"
| "solid v = cval_ok v"

definition holds :: "input_map \<Rightarrow> string \<Rightarrow> cval \<Rightarrow> bool" where
  "holds im k x \<longleftrightarrow> (\<exists>i q. ci_find k im = Some i \<and> mip_value (mi_pimpl i) = make_any_field q x)"

definition copyable :: "input_map \<Rightarrow> bool" where
  "copyable im \<longleftrightarrow> list_all (\<lambda>(k, i). case mip_value (mi_pimpl i) of None \<Rightarrow> True | Some w \<Rightarrow> solid (aw_value w)) im"

lemma copyable_iff:
  "copyable im \<longleftrightarrow> (\<forall>(k, i) \<in> set im. \<forall>w. mip_value (mi_pimpl i) = Some w \<longrightarrow> solid (aw_value w))"
  by (auto simp: copyable_def list_all_iff split: option.split)

definition full :: "input_map \<Rightarrow> bool" where
  "full im \<longleftrightarrow> copyable im \<and> (\<forall>(k, i) \<in> set im. mi_has_value i)"

text \<open>The copy of an input owns its value.\<close>

definition unref :: "module_input \<Rightarrow> module_input" where
  "unref i = mi_upd (\<lambda>p. p\<lparr>mip_value := map_option (\<lambda>w. w\<lparr>aw_qual := By_value\<rparr>) (mip_value p)\<rparr>) i"

abbreviation unrefs :: "input_map \<Rightarrow> input_map" where
  "unrefs im \<equiv> map (\<lambda>(k, i). (k, unref i)) im"

lemma solid_cxx: "\<not> is_py x \<Longrightarrow> cval_ok x \<Longrightarrow> solid x"
  by (cases x) auto

lemma any_copy_solid: "solid x \<Longrightarrow> any_copy (make_any_field q x) = Inr (make_any_field By_value x)"
proof (cases "is_py x")
  case True
  moreover assume "solid x"
  ultimately obtain i c where "x = CPy (Some (i, c))" by (cases x rule: solid.cases) auto
  then show ?thesis
    by (simp add: any_copy_def make_any_field_def clone'_def as_python_wrapper'_def is_convertible_const_def
        py_is_convertible_const_def)
next
  case False
  moreover assume "solid x"
  ultimately have "cval_ok x" by (cases x) auto
  then show ?thesis using False by (simp add: any_copy_cxx)
qed

lemma unref_simps [simp]:
  "mip_value (mi_pimpl (unref i)) = map_option (\<lambda>w. w\<lparr>aw_qual := By_value\<rparr>) (mip_value (mi_pimpl i))"
  "mi_has_value (unref i) = mi_has_value i" "unref (unref i) = unref i"
  by (simp_all add: unref_def mi_upd_def mi_has_value_def mip_has_value_def any_has_value_def option.map_comp comp_def)

lemma mi_copy_unref:
  assumes "\<And>w. mip_value (mi_pimpl i) = Some w \<Longrightarrow> solid (aw_value w)"
  shows "mi_copy i = Inr (unref i)"
proof (cases "mip_value (mi_pimpl i)")
  case None
  then show ?thesis by (simp add: mi_copy_def mip_clone_def any_copy_def unref_def mi_upd_def)
next
  case (Some w)
  obtain q x where w: "w = \<lparr>aw_qual = q, aw_value = x\<rparr>" by (cases w)
  then have "mip_value (mi_pimpl i) = make_any_field q x" "solid x"
    using Some assms [OF Some] by (simp_all add: make_any_field_def)
  then show ?thesis
    using any_copy_solid [of x q] by (simp add: mi_copy_def mip_clone_def unref_def mi_upd_def make_any_field_def)
qed

lemma copy_copyable: "copyable im \<Longrightarrow> im_copy im = Inr (unrefs im)"
  unfolding om_copy_def
proof (rule mapR_map_Inr, clarify)
  fix k i assume "copyable im" "(k, i) \<in> set im"
  then have "mi_copy i = Inr (unref i)" by (intro mi_copy_unref) (auto simp: copyable_iff)
  then show "bindR (mi_copy i) (\<lambda>v'. Inr (k, v')) = Inr (k, unref i)" by simp
qed

lemma copyable_unref: "copyable im \<Longrightarrow> copyable (unrefs im)"
  by (fastforce simp: copyable_iff)

lemma copyable_mono: "set m \<subseteq> set m' \<Longrightarrow> copyable m' \<Longrightarrow> copyable m"
  unfolding copyable_iff by blast

lemma full_unref: "full im \<Longrightarrow> full (unrefs im)"
  by (auto simp: full_def intro: copyable_unref)

lemma copy_full: "full im \<Longrightarrow> im_copy im = Inr (unrefs im)"
  by (simp add: full_def copy_copyable)

lemma om_find_map: "om_find f k (map (\<lambda>(k, v). (k, g v)) m) = map_option g (om_find f k m)"
  by (induction m) auto

lemma holds_unref: "holds im k x \<Longrightarrow> holds (unrefs im) k x"
  by (auto simp: holds_def om_find_map make_any_field_def)

lemma keys_unref [simp]: "map fst (unrefs im) = map fst im"
  by (simp add: case_prod_unfold comp_def)

lemma full_ready: "full im \<Longrightarrow> list_all (\<lambda>(k, v). mi_ready v) im"
  by (auto simp: full_def list_all_iff mi_ready_def mip_is_ready_def mi_has_value_def)

lemma holds_emplace: "holds im k x \<Longrightarrow> holds (ci_emplace k' i im) k x"
  using om_find_cong_key [of ci_fold k k' im] by (auto simp: holds_def om_find_emplace)

section \<open>Running a module without submodules and without a cache\<close>

definition leaf :: "'d heap \<Rightarrow> nat \<Rightarrow> 'd module \<Rightarrow> 'd module_base \<Rightarrow> bool" where
  "leaf h a m b \<longleftrightarrow> hp_mods h a = Some m \<and> mp_base_of h (mo_pimpl m) = Inr b \<and> mp_submods (mo_pimpl m) = [] \<and>
     mp_cache (mo_pimpl m) = None"

lemma leaf_keeps:
  assumes "leaf h a m b" and "keeps h h'"
  obtains m' where "leaf h' a m' b" "mp_inputs (mo_pimpl m') = mp_inputs (mo_pimpl m)"
    "mp_property_types (mo_pimpl m') = mp_property_types (mo_pimpl m)"
proof -
  obtain A w where h': "h' = (lock_set A h)\<lparr>hp_cw := w\<rparr>" using assms(2) by (auto simp: keeps_def)
  show ?thesis
    by (rule that [of "if a \<in> A then lock' m else m"])
      (use assms(1) in \<open>auto simp: leaf_def h' lock_set_mods\<close>)
qed

lemma lock_set_id_cw: "lock_set A h = (lock_set A h)\<lparr>hp_cw := hp_cw h\<rparr>"
  by simp

lemma bind_present:
  "\<forall>(k, v) \<in> set ins. ci_count k acc \<Longrightarrow> foldR bind_input ins acc = Inr acc"
  by (induction ins) auto

lemma leaf_merge:
  assumes "leaf h a m b" and "full ps" and "fst ` set (mp_inputs (mo_pimpl m)) \<subseteq> fst ` set ps"
  obtains i where "mod_merge_inputs (Suc n) h a ps = Inr (ci_emplace submod_key (unref i) (unrefs ps))"
    "mip_value (mi_pimpl i) = make_any_field By_value (CUuids [])"
proof -
  obtain i where i: "uuids_input [] = Inr i" "mip_value (mi_pimpl i) = make_any_field By_value (CUuids [])"
    by (rule uuids_input_ok) blast
  have "ci_count k (unrefs ps)" if "(k, v) \<in> set (mp_inputs (mo_pimpl m))" for k v
  proof -
    have "k \<in> fst ` set (mp_inputs (mo_pimpl m))" using image_eqI [OF _ that, of k fst] by simp
    then have "k \<in> fst ` set ps" using assms(3) by (rule rev_subsetD)
    then obtain v' where "(k, v') \<in> set ps" by auto
    then show ?thesis using om_find_in_set [of k v' ps ci_fold] by (simp add: om_count_def om_find_map)
  qed
  then have "foldR bind_input (mp_inputs (mo_pimpl m)) (unrefs ps) = Inr (unrefs ps)"
    by (intro bind_present) auto
  moreover have "mp_has_module (mo_pimpl m)"
    using assms(1) by (auto simp: leaf_def mp_base_of_def mp_assert_mod'_def split: if_splits)
  ultimately have "mod_merge_inputs (Suc n) h a ps = Inr (ci_emplace submod_key (unref i) (unrefs ps))"
    using assms(1) i copy_full [OF assms(2)] mi_copy_unref [of i]
    by (simp add: mod_merge_inputs_def mp_merge_inputs'_def leaf_def mod_at_def mp_submod_uuids_def
        mp_submods'_def mp_assert_mod'_def make_any_field_def)
  then show ?thesis using i(2) by (rule that)
qed

lemma leaf_run:
  assumes "leaf h a m b" and "full ps" and "fst ` set (mp_inputs (mo_pimpl m)) \<subseteq> fst ` set ps"
  shows "\<exists>key call. mod_run pycast (Suc n) a ps h =
      run_alg pycast call (mb_get_cache b) (mb_run b key []) (lock_set {x. reaches h a x} h) \<and>
    (\<forall>k x. holds ps k x \<longrightarrow> holds key k x)"
proof -
  let ?h = "lock_set {x. reaches h a x} h"
  note m = assms(1) [unfolded leaf_def]
  obtain i where i: "mod_merge_inputs (Suc n) h a ps = Inr (ci_emplace submod_key (unref i) (unrefs ps))"
      "mip_value (mi_pimpl i) = make_any_field By_value (CUuids [])"
    by (rule leaf_merge [OF assms])
  let ?key = "ci_emplace submod_key (unref i) (unrefs ps)"
  have full: "full ?key"
    using full_unref [OF assms(2)] i(2)
    by (auto simp: full_def copyable_iff om_emplace_def set_om_ins make_any_field_def mi_has_value_def
        mip_has_value_def any_has_value_def)
  have mod: "mp_has_module (mo_pimpl m)"
    using m by (auto simp: mp_base_of_def mp_assert_mod'_def split: if_splits)
  have ready: "mod_ready (Suc n) h (a, ps) = Inr True"
    unfolding mod_ready_True_iff using m mod subsetD [OF assms(3)] by (intro exI [of _ m]) force
  obtain memo where memo: "mod_is_memoizable (Suc n) h a = Inr memo"
    using m by (cases "mb_has_uuid b") (auto simp: mod_is_memoizable_def memo_step_def mod_at_def mp_is_memoizable_def)
  let ?call = "\<lambda>k pt args. bindS (liftS (ci_at k [])) (sr_run_as (mod_run_as pycast n) pt args)"
  let ?run = "run_alg pycast ?call (mb_get_cache b) (mb_run b (unrefs ?key) [])"
  have on: "mb_run_on pycast (mod_run_as pycast n) b ?key [] ?h = ?run ?h"
    using copy_full [OF full] by (simp add: mb_run_on_def om_copy_def)
  obtain r h1 where r: "?run ?h = (r, h1)" by (cases "?run ?h")
  have "keeps ?h h1" using alg_keeps [of ?h pycast n b ?key "[]"] by (simp add: on r)
  then have k: "keeps h h1" by (rule keeps_trans [OF keepsI [OF lock_set_id_cw]])
  have "mod_run pycast (Suc n) a ps h = (r, h1)"
    using run_miss [OF _ full_ready [OF assms(2)] ready i(1) memo _ _ _ k, of m b pycast r] m
    by (simp add: on [simplified] r cache_hit_def split: sum.splits del: mod_run.simps)
  moreover have "holds (unrefs ?key) k x" if "holds ps k x" for k x
    using holds_unref [OF holds_emplace [OF holds_unref [OF that]]] .
  ultimately show ?thesis using r by (intro exI [of _ "unrefs ?key"] exI [of _ ?call]) auto
qed

section \<open>Wrapping the arguments of a property type\<close>

definition arg_val :: "pt_arg \<Rightarrow> cval" where
  "arg_val a = (case a of Pa_any f \<Rightarrow> any_val f | Pa_value v \<Rightarrow> v)"

definition arg_ok :: "pt_arg \<Rightarrow> bool" where
  "arg_ok a \<longleftrightarrow> solid (arg_val a) \<and> (\<forall>f. a = Pa_any f \<longrightarrow> f = make_any_field By_value (arg_val a))"

text \<open>The fields of an API: distinct names, and defaults, where there are any, that can be copied.\<close>

definition api_ok :: "module_input field_tuple \<Rightarrow> bool" where
  "api_ok ft \<longleftrightarrow> length (ft_types ft) = length (ft_values ft) \<and>
     distinct (map (\<lambda>(k, v). ci_fold k) (ft_values ft)) \<and> copyable (ft_values ft)"

text \<open>Arguments that pass the checks of the fields they are meant for.\<close>

definition accepts :: "module_input field_tuple \<Rightarrow> pt_arg list \<Rightarrow> bool" where
  "accepts ft args \<longleftrightarrow> list_all2 (\<lambda>(T, k, v) a. arg_ok a \<and> \<not> isl (mi_change (pt_cxx_arg T a) v))
     (zip (ft_types ft) (ft_values ft)) args"

definition api_map :: "module_input field_tuple \<Rightarrow> input_map" where
  "api_map ft = om_insert_all ci_fold (ft_values ft) []"

lemma mi_change_unref [simp]: "mi_change x (unref v) = mi_change x v"
proof -
  have "mip_set_value a (mi_pimpl (unref v)) = mip_set_value a (mi_pimpl v)" for a
    by (simp add: mip_set_value_def mip_is_valid_def mip_defs unref_def mi_upd_def cong del: if_weak_cong)
  then have "mi_change' a (unref v) = mi_change' a v" for a
    by (simp add: mi_change'_def unref_def mi_upd_def)
  then show ?thesis
    by (simp add: mi_change_def mi_wrap_value_def unref_def mi_upd_def split: cxx_arg.splits)
qed

lemma change_value:
  assumes "mi_change (pt_cxx_arg T a) i = Inr i'" and "arg_ok a"
  shows "\<exists>q. mip_value (mi_pimpl i') = make_any_field q (arg_val a)"
proof (cases a)
  case (Pa_any f)
  then show ?thesis
    using assms any_copy_solid [of "arg_val a" By_value]
    by (auto simp: arg_ok_def pt_cxx_arg_def mi_change_def mi_wrap_value_def mi_change'_Inr_iff mi_upd_def)
next
  case (Pa_value x)
  then show ?thesis
    using assms mi_change_value [of T x i i'] by (simp add: pt_cxx_arg_def arg_val_def)
qed

lemma keys_set: "ci_find k m = Some v \<Longrightarrow> map fst (ci_set k v' m) = map fst m"
  by (simp add: om_set_def om_count_def om_keys_upd)

lemma im_change_ok:
  assumes "ci_find k rv = Some i" and "mi_change (pt_cxx_arg T a) i = Inr i'" and "arg_ok a"
  shows "im_change k (pt_cxx_arg T a) rv = Inr (ci_set k i' rv)" and "holds (ci_set k i' rv) k (arg_val a)"
    and "map fst (ci_set k i' rv) = map fst rv"
  using assms change_value [OF assms(2,3)] keys_set [OF assms(1)]
  by (simp_all add: im_change_def om_at_def holds_def om_find_set)

lemma holds_cong: "ci_find k m = ci_find k m' \<Longrightarrow> holds m k x = holds m' k x"
  by (simp add: holds_def)

lemma wrap_inputs_all:
  "\<lbrakk>list_all2 (\<lambda>(T, k, v) a. arg_ok a \<and> (\<exists>i i'. ci_find k rv = Some i \<and> mi_change (pt_cxx_arg T a) i = Inr i'))
      (zip Ts vs) args; length Ts = length vs; distinct (map (\<lambda>(k, v). ci_fold k) vs)\<rbrakk> \<Longrightarrow>
   \<exists>rv'. wrap_guts_input Ts vs args rv = Inr rv' \<and> map fst rv' = map fst rv \<and>
     list_all2 (\<lambda>(k, v) a. holds rv' k (arg_val a)) vs args \<and>
     (\<forall>k. ci_fold k \<notin> (\<lambda>(k, v). ci_fold k) ` set vs \<longrightarrow> ci_find k rv' = ci_find k rv)"
proof (induction vs arbitrary: Ts args rv)
  case (Cons kv vs)
  obtain k v where kv: "kv = (k, v)" by (cases kv)
  obtain T Ts' where Ts: "Ts = T # Ts'" using Cons.prems(2) by (cases Ts) auto
  obtain a args' where args: "args = a # args'" using Cons.prems(1) Ts by (cases args) auto
  obtain i i' where i: "ci_find k rv = Some i" "mi_change (pt_cxx_arg T a) i = Inr i'" "arg_ok a"
    using Cons.prems(1) by (auto simp: kv Ts args)
  let ?rv = "ci_set k i' rv"
  note ch = im_change_ok [OF i]
  have other: "ci_find k' ?rv = ci_find k' rv" if "ci_fold k' \<noteq> ci_fold k" for k'
    using that by (auto simp: om_find_set)
  have fresh: "ci_fold k' \<noteq> ci_fold k" if "(T', k', v') \<in> set (zip Ts' vs)" for T' k' v'
    using Cons.prems(3) set_zip_rightD [OF that] by (force simp: kv)
  have "list_all2 (\<lambda>(T, k, v) a. arg_ok a \<and> (\<exists>i i'. ci_find k ?rv = Some i \<and> mi_change (pt_cxx_arg T a) i = Inr i'))
      (zip Ts' vs) args'"
  proof (rule list.rel_mono_strong)
    show "list_all2 (\<lambda>(T, k, v) a. arg_ok a \<and> (\<exists>i i'. ci_find k rv = Some i \<and> mi_change (pt_cxx_arg T a) i = Inr i'))
        (zip Ts' vs) args'" using Cons.prems(1) by (simp add: Ts args kv)
  qed (use other fresh in \<open>auto split: prod.splits\<close>)
  then obtain rv' where rv': "wrap_guts_input Ts' vs args' ?rv = Inr rv'" "map fst rv' = map fst ?rv"
      "list_all2 (\<lambda>(k, v) a. holds rv' k (arg_val a)) vs args'"
      "\<forall>k. ci_fold k \<notin> (\<lambda>(k, v). ci_fold k) ` set vs \<longrightarrow> ci_find k rv' = ci_find k ?rv"
    using Cons.IH [where Ts = Ts' and args = args' and rv = ?rv] Cons.prems(2,3) by (auto simp: Ts kv)
  have "ci_find k rv' = ci_find k ?rv" using rv'(4) Cons.prems(3) by (auto simp: kv)
  then have "holds rv' k (arg_val a)" using ch(2) holds_cong by blast
  then show ?case
    using ch rv' other by (auto simp: kv Ts args)
qed simp

lemma insert_all_find:
  "\<lbrakk>distinct (map (\<lambda>(k, v). ci_fold k) vs); \<forall>(k, v) \<in> set vs. ci_find k m = None; (k, v) \<in> set vs\<rbrakk> \<Longrightarrow>
   ci_find k (om_insert_all ci_fold vs m) = Some v"
proof (induction vs arbitrary: m)
  case (Cons p vs)
  obtain k0 v0 where p: "p = (k0, v0)" by (cases p)
  have all: "om_insert_all ci_fold (p # vs) m = om_insert_all ci_fold vs (ci_emplace k0 v0 m)"
    by (simp add: om_insert_all_def p)
  show ?case
  proof (cases "(k, v) = p")
    case True
    then have "ci_find k (ci_emplace k0 v0 m) = Some v" using Cons.prems(2) by (simp add: p om_find_emplace)
    then show ?thesis unfolding all unfolding om_insert_all_def by (rule ci_map.look_place_all)
  next
    case False
    then have v: "(k, v) \<in> set vs" using Cons.prems(3) by auto
    have "ci_find k' (ci_emplace k0 v0 m) = None" if "(k', v') \<in> set vs" for k' v'
      using Cons.prems(1,2) that by (force simp: p om_find_emplace)
    then have "\<forall>(k', v') \<in> set vs. ci_find k' (ci_emplace k0 v0 m) = None" by blast
    moreover have "distinct (map (\<lambda>(k, v). ci_fold k) vs)" using Cons.prems(1) by simp
    ultimately show ?thesis unfolding all using v by (intro Cons.IH)
  qed
qed simp

lemma insert_all_sub: "om_wf ci_fold m \<Longrightarrow> om_wf ci_fold (om_insert_all ci_fold vs m) \<and>
    set (om_insert_all ci_fold vs m) \<subseteq> set vs \<union> set m"
proof (induction vs arbitrary: m)
  case (Cons p vs)
  obtain k v where p: "p = (k, v)" by (cases p)
  have "om_wf ci_fold (ci_emplace k v m)" using om_wf_emplace [OF Cons.prems] .
  moreover have "set (ci_emplace k v m) \<subseteq> insert (k, v) (set m)" by (auto simp: om_emplace_def set_om_ins)
  ultimately show ?case using Cons.IH [of "ci_emplace k v m"] by (auto simp: p om_insert_all_def)
qed (simp add: om_insert_all_def)

lemma api_map_facts:
  assumes "api_ok ft"
  shows "om_wf ci_fold (api_map ft)" "copyable (api_map ft)" "set (api_map ft) \<subseteq> set (ft_values ft)"
    "(k, v) \<in> set (ft_values ft) \<Longrightarrow> ci_find k (api_map ft) = Some v"
proof -
  show sub: "set (api_map ft) \<subseteq> set (ft_values ft)" and "om_wf ci_fold (api_map ft)"
    using insert_all_sub [of "[]" "ft_values ft"] by (simp_all add: api_map_def)
  show "copyable (api_map ft)" using sub assms by (auto simp: api_ok_def intro: copyable_mono)
  show "ci_find k (api_map ft) = Some v" if "(k, v) \<in> set (ft_values ft)"
    using assms that unfolding api_map_def api_ok_def by (intro insert_all_find) auto
qed

text \<open>Arguments that the fields accept make a full map of inputs.\<close>

lemma wrap_api:
  assumes "api_ok ft" and "accepts ft args"
  obtains rv where "wrap_guts_input (ft_types ft) (ft_values ft) args (unrefs (api_map ft)) = Inr rv" "full rv"
    "map fst rv = map fst (api_map ft)" "list_all2 (\<lambda>(k, v) a. holds rv k (arg_val a)) (ft_values ft) args"
proof -
  let ?m = "unrefs (api_map ft)"
  have "list_all2 (\<lambda>(T, k, v) a. arg_ok a \<and> (\<exists>i i'. ci_find k ?m = Some i \<and> mi_change (pt_cxx_arg T a) i = Inr i'))
      (zip (ft_types ft) (ft_values ft)) args"
  proof (rule list.rel_mono_strong [OF assms(2) [unfolded accepts_def]], clarify)
    fix T k v a
    assume "(T, k, v) \<in> set (zip (ft_types ft) (ft_values ft))" and ok: "\<not> isl (mi_change (pt_cxx_arg T a) v)"
    then have "ci_find k ?m = Some (unref v)"
      using api_map_facts(4) [OF assms(1)] by (auto simp: om_find_map dest: set_zip_rightD)
    then show "\<exists>i i'. ci_find k ?m = Some i \<and> mi_change (pt_cxx_arg T a) i = Inr i'"
      using projr_ok [OF ok] by auto
  qed
  then obtain rv where rv: "wrap_guts_input (ft_types ft) (ft_values ft) args ?m = Inr rv" "map fst rv = map fst ?m"
      "list_all2 (\<lambda>(k, v) a. holds rv k (arg_val a)) (ft_values ft) args"
    using wrap_inputs_all [of ?m "ft_types ft" "ft_values ft" args] assms(1) by (auto simp: api_ok_def)
  note keys = rv(2) [unfolded keys_unref]
  have wf: "om_wf ci_fold rv" using api_map_facts(1) [OF assms(1)] om_wf_keys [OF keys, of ci_fold] by simp
  have "\<exists>q x. mip_value (mi_pimpl i) = make_any_field q x \<and> solid x" if "(k, i) \<in> set rv" for k i
  proof -
    have "k \<in> fst ` set (api_map ft)" using that keys by (metis fst_conv image_eqI set_map)
    then obtain v where "(k, v) \<in> set (ft_values ft)" using api_map_facts(3) [OF assms(1)] by auto
    then obtain n where n: "n < length (ft_values ft)" "ft_values ft ! n = (k, v)" by (auto simp: in_set_conv_nth)
    then have "holds rv k (arg_val (args ! n))" using rv(3) by (auto simp: list_all2_conv_all_nth)
    moreover have "solid (arg_val (args ! n))"
      using assms n by (auto simp: accepts_def api_ok_def arg_ok_def list_all2_conv_all_nth)
    moreover have "ci_find k rv = Some i" by (rule om_find_wf [OF wf that])
    ultimately show ?thesis by (auto simp: holds_def)
  qed
  then have "full rv"
    by (force simp: full_def copyable_iff mi_has_value_def mip_has_value_def any_has_value_def make_any_field_def)
  then show ?thesis using rv(1,3) keys that by blast
qed

text \<open>What unwrapping as a field of type \<open>T\<close> makes of a value, however it is held.\<close>

definition reads :: "(cval \<Rightarrow> cval res) \<Rightarrow> field_type \<Rightarrow> cval \<Rightarrow> cval \<Rightarrow> bool" where
  "reads pycast T v x \<longleftrightarrow> (\<forall>q. any_cast_const pycast (rt_name (fty_rtti T)) (value_how T) (make_any_field q v) = Inr x)"

lemma reads_cxx:
  assumes "\<not> is_py x" and "cval_ok x" and "cval_type x = rt_name (fty_rtti T)"
  shows "reads pycast T x x"
proof -
  have "rt_name (fty_rtti T) \<noteq> ty_py" using assms by (metis cval_type_py)
  then show ?thesis
    using assms by (simp add: reads_def any_cast_const_def make_any_field_def cast_const_cxx value_how_def)
qed

lemma unwrap_held:
  "\<lbrakk>list_all2 (\<lambda>(k, v) x. holds rv k x) vs os; list_all2 (\<lambda>(T, v) x. reads pycast T v x) (zip Ts os) xs;
    length Ts = length vs\<rbrakk> \<Longrightarrow> unwrap_guts_input pycast Ts vs rv = Inr xs"
proof (induction vs arbitrary: Ts os xs)
  case (Cons kv vs)
  obtain k v where kv: "kv = (k, v)" by (cases kv)
  obtain v' os' where os: "os = v' # os'" using Cons.prems(1) by (cases os) auto
  obtain T Ts' where Ts: "Ts = T # Ts'" using Cons.prems(3) by (cases Ts) auto
  obtain x xs' where xs: "xs = x # xs'" using Cons.prems(2) by (cases xs) (auto simp: os Ts)
  obtain i q where i: "ci_find k rv = Some i" "mip_value (mi_pimpl i) = make_any_field q v'"
    using Cons.prems(1) by (auto simp: kv os holds_def)
  have "mi_value_const pycast (rt_name (fty_rtti T)) (value_how T) i = Inr x"
    using Cons.prems(2) i(2)
    by (simp add: os Ts xs reads_def mi_value_const_def mi_get_def mip_get_value_def mip_defs)
  moreover have "unwrap_guts_input pycast Ts' vs rv = Inr xs'"
    by (rule Cons.IH [of os']) (use Cons.prems in \<open>simp_all add: kv os Ts xs\<close>)
  ultimately show ?case using i(1) by (simp add: kv Ts xs om_at_def)
qed simp

section \<open>Wrapping what a module returns\<close>

definition results_ok :: "module_result field_tuple \<Rightarrow> bool" where
  "results_ok ft \<longleftrightarrow> length (ft_types ft) = length (ft_values ft) \<and>
     distinct (map (\<lambda>(k, v). ci_fold k) (ft_values ft)) \<and> (\<forall>(k, r) \<in> set (ft_values ft). r \<noteq> None)"

text \<open>Values of the classes of the fields, which accept them.\<close>

definition typed :: "field_type list \<Rightarrow> cval list \<Rightarrow> bool" where
  "typed Ts xs \<longleftrightarrow> list_all2 (\<lambda>T x. \<not> is_py x \<and> cval_ok x \<and> cval_type x = rt_name (fty_rtti T)) Ts xs"

definition returns_ok :: "module_result field_tuple \<Rightarrow> cval list \<Rightarrow> bool" where
  "returns_ok ft ys \<longleftrightarrow> typed (ft_types ft) ys \<and>
     list_all2 (\<lambda>(k, r) y. \<not> isl (mr_change (Res_value y) r)) (ft_values ft) ys"

definition result_is :: "result_map \<Rightarrow> string \<Rightarrow> cval \<Rightarrow> bool" where
  "result_is rm k y \<longleftrightarrow> (\<exists>p. ci_find k rm = Some (Some p) \<and> mrp_value p = Some (make_any_field By_value y))"

definition no_null :: "result_map \<Rightarrow> bool" where
  "no_null rm \<longleftrightarrow> (\<forall>(k, r) \<in> set rm. r \<noteq> None)"

lemma no_null_set: "no_null rm \<Longrightarrow> no_null (ci_set k (Some p) rm)"
  unfolding no_null_def om_set_def by (auto simp: set_om_ins dest: set_om_upd)

lemma result_change:
  assumes "mr_change (Res_value y) r = Inr r'"
  shows "\<exists>p. r' = Some p \<and> mrp_value p = Some (make_any_field By_value y)"
  using assms by (auto simp: mr_change_def mr_wrap_value'_def mr_change'_Inr_iff)

lemma rm_change_ok:
  assumes "ci_find k rm = Some r" and "mr_change (Res_value y) r = Inr r'"
  shows "rm_change k (Res_value y) rm = Inr (ci_set k r' rm)" and "result_is (ci_set k r' rm) k y"
    and "no_null rm \<Longrightarrow> no_null (ci_set k r' rm)"
  using assms result_change [OF assms(2)] by (auto intro: no_null_set simp: rm_change_def om_at_def result_is_def om_find_set)

lemma wrap_results_all:
  "\<lbrakk>list_all2 (\<lambda>(k, v) y. \<exists>r r'. ci_find k rm = Some r \<and> mr_change (Res_value y) r = Inr r') vs ys;
    length Ts = length vs; distinct (map (\<lambda>(k, v). ci_fold k) vs)\<rbrakk> \<Longrightarrow>
   \<exists>rm'. wrap_guts_result Ts vs (map Pa_value ys) rm = Inr rm' \<and> list_all2 (\<lambda>(k, v) y. result_is rm' k y) vs ys \<and>
     (no_null rm \<longrightarrow> no_null rm') \<and> (\<forall>k. ci_fold k \<notin> (\<lambda>(k, v). ci_fold k) ` set vs \<longrightarrow> ci_find k rm' = ci_find k rm)"
proof (induction vs arbitrary: Ts ys rm)
  case (Cons kv vs)
  obtain k v where kv: "kv = (k, v)" by (cases kv)
  obtain T Ts' where Ts: "Ts = T # Ts'" using Cons.prems(2) by (cases Ts) auto
  obtain y ys' where ys: "ys = y # ys'" using Cons.prems(1) by (cases ys) auto
  obtain r r' where r: "ci_find k rm = Some r" "mr_change (Res_value y) r = Inr r'"
    using Cons.prems(1) by (auto simp: kv ys)
  let ?rm = "ci_set k r' rm"
  note ch = rm_change_ok [OF r]
  have other: "ci_find k' ?rm = ci_find k' rm" if "ci_fold k' \<noteq> ci_fold k" for k'
    using that by (auto simp: om_find_set)
  have fresh: "ci_fold k' \<noteq> ci_fold k" if "(k', v') \<in> set vs" for k' v'
    using Cons.prems(3) that by (force simp: kv)
  have "list_all2 (\<lambda>(k, v) y. \<exists>r r'. ci_find k ?rm = Some r \<and> mr_change (Res_value y) r = Inr r') vs ys'"
  proof (rule list.rel_mono_strong)
    show "list_all2 (\<lambda>(k, v) y. \<exists>r r'. ci_find k rm = Some r \<and> mr_change (Res_value y) r = Inr r') vs ys'"
      using Cons.prems(1) by (simp add: ys kv)
  qed (use other fresh in \<open>auto split: prod.splits\<close>)
  then obtain rm' where rm': "wrap_guts_result Ts' vs (map Pa_value ys') ?rm = Inr rm'"
      "list_all2 (\<lambda>(k, v) y. result_is rm' k y) vs ys'" "no_null ?rm \<longrightarrow> no_null rm'"
      "\<forall>k. ci_fold k \<notin> (\<lambda>(k, v). ci_fold k) ` set vs \<longrightarrow> ci_find k rm' = ci_find k ?rm"
    using Cons.IH [where Ts = Ts' and ys = ys' and rm = ?rm] Cons.prems(2,3) by (auto simp: Ts kv)
  have "ci_find k rm' = ci_find k ?rm" using rm'(4) Cons.prems(3) by (auto simp: kv)
  then have "result_is rm' k y" using ch(2) by (simp add: result_is_def)
  then show ?case using ch rm' other by (auto simp: kv Ts ys pt_result_arg_def)
qed simp

lemma unwrap_results:
  "\<lbrakk>list_all2 (\<lambda>(k, v) y. result_is rm k y) vs ys; typed Ts ys; length Ts = length vs\<rbrakk> \<Longrightarrow>
   unwrap_guts_result pycast Ts vs rm = Inr ys"
proof (induction vs arbitrary: Ts ys)
  case (Cons kv vs)
  obtain k v where kv: "kv = (k, v)" by (cases kv)
  obtain y ys' where ys: "ys = y # ys'" using Cons.prems(1) by (cases ys) auto
  obtain T Ts' where Ts: "Ts = T # Ts'" using Cons.prems(3) by (cases Ts) auto
  obtain p where p: "ci_find k rm = Some (Some p)" "mrp_value p = Some (make_any_field By_value y)"
    using Cons.prems(1) by (auto simp: kv ys result_is_def)
  have "reads pycast T y y" using Cons.prems(2) by (intro reads_cxx) (simp_all add: ys Ts typed_def)
  then have "mr_value pycast (rt_name (fty_rtti T)) (value_how T) (Some p) = Inr y"
    using p(2) by (simp add: reads_def mr_value_def mr_at'_def mrp_get_value_def mrp_has_value_def)
  moreover have "unwrap_guts_result pycast Ts' vs rm = Inr ys'"
    using Cons.prems by (intro Cons.IH) (simp_all add: kv ys Ts typed_def)
  ultimately show ?case using p(1) by (simp add: kv Ts ys om_at_def)
qed (simp add: typed_def)

lemma rm_copy_id: "no_null rm \<Longrightarrow> rm_copy rm = Inr rm"
  unfolding om_copy_def by (induction rm) (auto simp: mr_copy_def no_null_def)

text \<open>What is returned as values of the result fields is wrapped into the map the constructor made.\<close>

lemma wrap_returned:
  assumes "pt_results pt = Inr fr" and "results_ok fr" and "returns_ok fr ys"
  obtains rm where "wrap_results' pt (om_insert_all ci_fold (ft_values fr) []) ys = Inr rm"
    "list_all2 (\<lambda>(k, v) y. result_is rm k y) (ft_values fr) ys" "no_null rm"
proof -
  let ?m = "om_insert_all ci_fold (ft_values fr) []"
  note ok = assms(2) [unfolded results_ok_def]
  have "set ?m \<subseteq> set (ft_values fr)" using insert_all_sub [of "[]" "ft_values fr"] by simp
  then have m: "no_null ?m" using ok unfolding no_null_def by blast
  note copy = rm_copy_id [OF m]
  have "list_all2 (\<lambda>(k, v) y. \<exists>r r'. ci_find k ?m = Some r \<and> mr_change (Res_value y) r = Inr r') (ft_values fr) ys"
  proof (rule list.rel_mono_strong)
    show "list_all2 (\<lambda>(k, r) y. \<not> isl (mr_change (Res_value y) r)) (ft_values fr) ys"
      using assms(3) by (simp add: returns_ok_def)
  next
    fix kr y
    assume kr: "kr \<in> set (ft_values fr)" and r: "(\<lambda>(k, r) y. \<not> isl (mr_change (Res_value y) r)) kr y"
    obtain k r where k: "kr = (k, r)" by (cases kr)
    have "ci_find k ?m = Some r" by (rule insert_all_find) (use ok kr k in simp_all)
    moreover have "mr_change (Res_value y) r = Inr (projr (mr_change (Res_value y) r))"
      using r by (intro projr_ok) (simp add: k)
    ultimately show "(\<lambda>(k, v) y. \<exists>r r'. ci_find k ?m = Some r \<and> mr_change (Res_value y) r = Inr r') kr y"
      by (auto simp: k)
  qed
  then obtain rm where "wrap_guts_result (ft_types fr) (ft_values fr) (map Pa_value ys) ?m = Inr rm"
      "list_all2 (\<lambda>(k, v) y. result_is rm k y) (ft_values fr) ys" "no_null rm"
    using wrap_results_all [of ?m "ft_values fr" ys "ft_types fr"] ok m by auto
  then show ?thesis using copy assms(1) by (intro that) (simp_all add: wrap_results'_def pt_wrap_results_def)
qed

section \<open>Lambda modules\<close>

text \<open>A module that \<open>make_lambda\<close> made, whatever has been run since.\<close>

definition lambda_at :: "(cval \<Rightarrow> cval res) \<Rightarrow> property_type \<Rightarrow> (cval list \<Rightarrow> cval list res)
    \<Rightarrow> module_input field_tuple \<Rightarrow> module_result field_tuple \<Rightarrow> 'd heap \<Rightarrow> nat \<Rightarrow> bool" where
  "lambda_at pycast pt f fi fr h a \<longleftrightarrow> (\<exists>m b. leaf h a m b \<and>
     mp_inputs (mo_pimpl m) = unrefs (api_map fi) \<and> mp_property_types (mo_pimpl m) = [pt_rtti pt] \<and>
     mb_run b = (\<lambda>i _. lambda_fxn pycast pt f (om_insert_all ci_fold (ft_values fr) []) i))"

lemma lambda_at_keeps: "lambda_at pycast pt f fi fr h a \<Longrightarrow> keeps h h' \<Longrightarrow> lambda_at pycast pt f fi fr h' a"
  unfolding lambda_at_def by (elim exE conjE, erule (1) leaf_keeps) auto

lemma make_lambda_at:
  fixes h :: "'d heap"
  assumes "pt_inputs pycast pt = Inr fi" and "api_ok fi" and "pt_results pt = Inr fr"
    and "make_lambda pycast pt f h = (Inr a, h')"
  shows "lambda_at pycast pt f fi fr h' a"
proof -
  let ?b0 = "mb_satisfies' (pt_rtti pt) (ft_values fi) (ft_values fr) (mb_new (lambda_rtti ''LambdaModule'' pt) (\<lambda>_ _. Ret [])) :: 'd module_base"
  let ?b = "?b0\<lparr>mb_run := (\<lambda>inputs _. lambda_fxn pycast pt f (mb_results ?b0) inputs)\<rparr>"
  have l: "lambda_module pycast pt f = Inr ?b"
    using assms(1,3) by (simp add: lambda_module_def mb_satisfies_property_type_def)
  obtain u h1 where u: "mod_from_base (mb_set_uuid u ?b) h1 = (Inr a, h')"
    using assms(4) by (auto simp: make_lambda_def l bindS_def split: prod.splits sum.splits)
  have i: "mb_inputs (mb_set_uuid u ?b) = api_map fi" "mb_submods (mb_set_uuid u ?b) = []"
      "mb_property_types (mb_set_uuid u ?b) = [pt_rtti pt]"
      "mb_run (mb_set_uuid u ?b) = (\<lambda>i _. lambda_fxn pycast pt f (om_insert_all ci_fold (ft_values fr) []) i)"
    by (simp_all add: mb_set_uuid_def mb_satisfies'_def mb_new_def api_map_def rtti_insert_def)
  show ?thesis
    unfolding lambda_at_def
  proof (intro exI conjI)
    show "leaf h' a (the (hp_mods h' a)) (mb_set_uuid u ?b)" and
      "mp_inputs (mo_pimpl (the (hp_mods h' a))) = unrefs (api_map fi)" and
      "mp_property_types (mo_pimpl (the (hp_mods h' a))) = [pt_rtti pt]"
      using u copy_copyable [OF api_map_facts(2) [OF assms(2)]]
      by (auto simp: mod_from_base_def alloc_base_def alloc_mod_def bindS_def mp_make_def base_at_def i
          om_copy_def [of sr_clone] leaf_def mp_base_of_def mp_assert_mod'_def mp_has_module_def)
  qed (rule i(4))
qed

lemma lambda_run:
  assumes "lambda_at pycast pt f fi fr h a" and "pt_inputs pycast pt = Inr fi" and "api_ok fi"
    and "pt_results pt = Inr fr" and "results_ok fr"
    and "full ps" and "map fst ps = map fst (api_map fi)" and "list_all2 (\<lambda>(k, v) x. holds ps k x) (ft_values fi) os"
    and "list_all2 (\<lambda>(T, v) x. reads pycast T v x) (zip (ft_types fi) os) xs"
    and "\<And>ys. f xs = Inr ys \<Longrightarrow> returns_ok fr ys"
  shows "case f xs of Inl e \<Rightarrow> fst (mod_run pycast (Suc n) a ps h) = Inl e
    | Inr ys \<Rightarrow> \<exists>rm. fst (mod_run pycast (Suc n) a ps h) = Inr rm \<and> no_null rm \<and>
        list_all2 (\<lambda>(k, v) y. result_is rm k y) (ft_values fr) ys"
proof -
  obtain m b where m: "leaf h a m b" "mp_inputs (mo_pimpl m) = unrefs (api_map fi)"
      "mb_run b = (\<lambda>i _. lambda_fxn pycast pt f (om_insert_all ci_fold (ft_values fr) []) i)"
    using assms(1) by (auto simp: lambda_at_def)
  have names: "fst ` set (mp_inputs (mo_pimpl m)) \<subseteq> fst ` set ps"
    unfolding m(2) set_map [symmetric] keys_unref assms(7) by simp
  obtain key call where run: "mod_run pycast (Suc n) a ps h =
      run_alg pycast call (mb_get_cache b) (mb_run b key []) (lock_set {x. reaches h a x} h)"
    and key: "\<And>k x. holds ps k x \<Longrightarrow> holds key k x"
    using leaf_run [OF m(1) assms(6) names, of pycast n] by blast
  have "list_all2 (\<lambda>(k, v) x. holds key k x) (ft_values fi) os"
    by (rule list.rel_mono_strong [OF assms(8)]) (auto intro: key)
  then have xs: "pt_unwrap_inputs pycast pt key = Inr xs"
    using assms(2,3,9) by (simp add: pt_unwrap_inputs_def unwrap_held api_ok_def)
  show ?thesis
  proof (cases "f xs")
    case (Inl e)
    then show ?thesis by (simp add: run m(3) lambda_fxn_def xs del: mod_run.simps)
  next
    case (Inr ys)
    obtain rm where "wrap_results' pt (om_insert_all ci_fold (ft_values fr) []) ys = Inr rm"
        "list_all2 (\<lambda>(k, v) y. result_is rm k y) (ft_values fr) ys" "no_null rm"
      by (rule wrap_returned [OF assms(4,5) assms(10) [OF Inr]])
    then show ?thesis
      using Inr by (simp add: run m(3) lambda_fxn_def xs del: mod_run.simps)
  qed
qed

section \<open>Properties\<close>

text \<open>C6: A lambda module is the function it was made from.  However often it has been run
  before, run as its property type with arguments that the fields accept it returns exactly
  what the function returns on these arguments, or throws what the function throws, provided
  the function returns values of the result types; the run changes nothing but locks and the
  memory of the caches.\<close>

theorem lambda_runs:
  assumes "pt_inputs pycast pt = Inr fi" and "api_ok fi" and "pt_results pt = Inr fr" and "results_ok fr"
    and "make_lambda pycast pt f h = (Inr a, h1)" and "keeps h1 h2"
    and "accepts fi (map Pa_value xs)" and "typed (ft_types fi) xs"
    and "\<And>ys. f xs = Inr ys \<Longrightarrow> returns_ok fr ys"
  shows "\<exists>h3. mod_run_as pycast (Suc n) a pt (map Pa_value xs) h2 = (f xs, h3) \<and> keeps h1 h3"
proof -
  have l: "lambda_at pycast pt f fi fr h2 a"
    using make_lambda_at [OF assms(1-3,5)] assms(6) by (rule lambda_at_keeps)
  then obtain m b where m: "leaf h2 a m b" "mp_inputs (mo_pimpl m) = unrefs (api_map fi)"
      "mp_property_types (mo_pimpl m) = [pt_rtti pt]"
    by (auto simp: lambda_at_def)
  have mod: "hp_mods h2 a = Some m" "mp_has_module (mo_pimpl m)"
    using m(1) by (auto simp: leaf_def mp_base_of_def mp_assert_mod'_def split: if_splits)
  obtain rv where rv: "wrap_guts_input (ft_types fi) (ft_values fi) (map Pa_value xs) (unrefs (api_map fi)) = Inr rv"
      "full rv" "map fst rv = map fst (api_map fi)"
      "list_all2 (\<lambda>(k, v) a. holds rv k (arg_val a)) (ft_values fi) (map Pa_value xs)"
    by (rule wrap_api [OF assms(2,7)])
  have held: "list_all2 (\<lambda>(k, v) x. holds (unrefs rv) k x) (ft_values fi) xs"
    using rv(4) by (auto simp: list.rel_map arg_val_def elim!: list.rel_mono_strong intro: holds_unref)
  have reads: "list_all2 (\<lambda>(T, v) x. reads pycast T v x) (zip (ft_types fi) xs) xs"
    using assms(8) reads_cxx by (fastforce simp: typed_def list_all2_conv_all_nth)
  note run = lambda_run [OF l assms(1-4) full_unref [OF rv(2)] trans [OF keys_unref rv(3)] held reads assms(9), where n = n]
  have un: "pt_unwrap_results pycast pt rm = Inr ys"
    if "list_all2 (\<lambda>(k, v) y. result_is rm k y) (ft_values fr) ys" "f xs = Inr ys" for rm ys
    using unwrap_results [OF that(1), of "ft_types fr" pycast] assms(3,4) assms(9) [OF that(2)]
    by (simp add: pt_unwrap_results_def returns_ok_def results_ok_def)
  obtain r h3 where h3: "mod_run pycast (Suc n) a (unrefs rv) h2 = (r, h3)"
    by (cases "mod_run pycast (Suc n) a (unrefs rv) h2")
  have "mod_run_as pycast (Suc n) a pt (map Pa_value xs) h2 = (f xs, h3)"
    using m mod rv(1) h3 run un copy_copyable [OF copyable_unref [OF api_map_facts(2) [OF assms(2)]]] copy_full [OF rv(2)] assms(1)
    by (cases "f xs") (auto simp: mod_run_as_def mod_run_as_by_def check_property_type'_def mod_types_def mod_at_def
        mp_property_types'_def mp_inputs'_def mp_assert_mod'_def pt_wrap_inputs_def bindS_def comp_def case_prod_unfold
        simp del: mod_run.simps)
  moreover have "keeps h2 h3" using run_keeps [of h2 pycast "Suc n" a "unrefs rv"] h3 by (simp del: mod_run.simps)
  ultimately show ?thesis using keeps_trans [OF assms(6)] by auto
qed

definition double_pt :: property_type where
  "double_pt = Property_type (mk_rtti ''Double'') \<lparr>ft_types = [int_type], ft_values = [(''x'', fresh_input int_type)]\<rparr>
     \<lparr>ft_types = [int_type], ft_values = [(''2 x'', projr (new_result int_type))]\<rparr> None"

fun double :: "cval list \<Rightarrow> cval list res" where
  "double [CInt x] = Inr [CInt (2 * x)]"
| "double xs = Inl (User_exception ''not a number'')"

abbreviation double_heap :: "unit heap" where
  "double_heap \<equiv> hp_init (cw_init example_gen ())"

lemma double_ok:
  "pt_inputs pycast double_pt = Inr (pt_inputs' double_pt)" "api_ok (pt_inputs' double_pt)"
  "pt_results double_pt = Inr (pt_results' double_pt)" "results_ok (pt_results' double_pt)"
  "accepts (pt_inputs' double_pt) [Pa_value (CInt x)]" "typed (ft_types (pt_inputs' double_pt)) [CInt x]"
  "returns_ok (pt_results' double_pt) [CInt x]"
proof -
  show "pt_inputs pycast double_pt = Inr (pt_inputs' double_pt)" "pt_results double_pt = Inr (pt_results' double_pt)"
    by (simp_all add: double_pt_def)
  show "api_ok (pt_inputs' double_pt)" "results_ok (pt_results' double_pt)" by code_simp+
  have "\<not> isl (mi_change (as_arg int_type (CInt x)) (fresh_input int_type))"
    by (simp add: fresh_input_change int_type_def)
  then show "accepts (pt_inputs' double_pt) [Pa_value (CInt x)]"
    by (simp add: accepts_def double_pt_def pt_cxx_arg_def arg_ok_def arg_val_def)
  show "typed (ft_types (pt_inputs' double_pt)) [CInt x]" by (simp add: typed_def double_pt_def int_type_def)
  have "\<not> isl (mr_change (Res_value (CInt x)) (projr (new_result int_type)))"
    by (simp add: new_result_def mr_set_type_def mr_new_def mrp_new_def mrp_set_type_check_def mrp_set_type_def
        mr_defs mr_change_def mr_wrap_value'_def mr_change'_def mrp_set_value_def type_check_cxx int_type_def ty_py_def)
  then show "returns_ok (pt_results' double_pt) [CInt x]"
    by (simp add: returns_ok_def typed_def double_pt_def int_type_def)
qed

lemma double_made:
  obtains a h where "make_lambda Inr double_pt double double_heap = (Inr a, h)"
proof -
  have "\<not> isl (fst (make_lambda Inr double_pt double double_heap))" by code_simp
  then show ?thesis using that by (cases "make_lambda Inr double_pt double double_heap"; cases "fst (make_lambda Inr double_pt double double_heap)") auto
qed

theorem lambda_runs_witness:
  "\<exists>a h1 h3. make_lambda Inr double_pt double double_heap = (Inr a, h1) \<and>
     mod_run_as Inr (Suc 0) a double_pt [Pa_value (CInt 21)] h1 = (Inr [CInt 42], h3)"
proof -
  obtain a h1 where m: "make_lambda Inr double_pt double double_heap = (Inr a, h1)" by (rule double_made)
  have "double [CInt 21] = Inr [CInt 42]" by simp
  then show ?thesis
    using lambda_runs [OF double_ok(1-4) m keeps_refl, of "[CInt 21]" 0] double_ok(5-7) m by fastforce
qed

end
