(* ===== verification/Python_Interface.thy ===== *)
theory Python_Interface
  imports Module_Manager Lambda_Modules "HOL-Library.Option_ord"
begin

text \<open>
  How Python sees the program: \<open>PyTypeInfo\<close>, the property types that \<open>EXPORT_PROPERTY_TYPE\<close> and
  \<open>PythonOnlyPropertyType\<close> give to Python (\<open>property_type/macros.hpp\<close>, \<open>python/\<close>) and the functions
  the bindings add to fields, requests, modules and managers (the \<open>export_\<close> files).  A binding
  that only names a C++ function is that function.

  A Python object that stands for a property type is what its methods do, since the bindings use
  it by its methods only.  The casts of pybind11 between Python's \<open>dict\<close> and the maps of fields
  copy the fields; turning a C++ value into a Python object is \<open>pycast\<close>.  An exception keeps its
  identity on its way into Python.
\<close>

section \<open>PyTypeInfo\<close>

datatype py_type_info = Py_type_info (pti_rtti: "rtti option")

definition pti_new :: py_type_info where
  "pti_new = Py_type_info None"

definition pti_make :: "rtti \<Rightarrow> py_type_info" where
  "pti_make t = Py_type_info (Some t)"

text \<open>\<open>*m_rtti_\<close>, which does not check that there is a value.\<close>

definition pti_value :: "py_type_info \<Rightarrow> rtti res" where
  "pti_value i = (case pti_rtti i of None \<Rightarrow> Inl Undefined_behaviour | Some t \<Rightarrow> Inr t)"

definition pti_has_value :: "py_type_info \<Rightarrow> bool" where
  "pti_has_value i \<longleftrightarrow> pti_rtti i \<noteq> None"

definition pti_name :: "py_type_info \<Rightarrow> string" where
  "pti_name i = (case pti_rtti i of None \<Rightarrow> '''' | Some t \<Rightarrow> rt_name t)"

definition pti_hash :: "(rtti \<Rightarrow> nat) \<Rightarrow> py_type_info \<Rightarrow> nat" where
  "pti_hash hash_code i = (case pti_rtti i of None \<Rightarrow> 0 | Some t \<Rightarrow> hash_code t)"

definition pti_equal :: "py_type_info \<Rightarrow> py_type_info \<Rightarrow> bool" where
  "pti_equal lhs rhs \<longleftrightarrow> pti_rtti lhs = pti_rtti rhs"

definition pti_not_equal :: "py_type_info \<Rightarrow> py_type_info \<Rightarrow> bool" where
  "pti_not_equal lhs rhs \<longleftrightarrow> pti_rtti lhs \<noteq> pti_rtti rhs"

text \<open>The order of \<open>std::optional\<close>: no value comes first.\<close>

abbreviation pti_ord :: "py_type_info \<Rightarrow> (string \<times> nat) option" where
  "pti_ord i \<equiv> map_option rt_ord (pti_rtti i)"

definition pti_less :: "py_type_info \<Rightarrow> py_type_info \<Rightarrow> bool" where
  "pti_less lhs rhs \<longleftrightarrow> pti_ord lhs < pti_ord rhs"

definition pti_greater :: "py_type_info \<Rightarrow> py_type_info \<Rightarrow> bool" where
  "pti_greater lhs rhs \<longleftrightarrow> pti_ord lhs > pti_ord rhs"

definition pti_less_eq :: "py_type_info \<Rightarrow> py_type_info \<Rightarrow> bool" where
  "pti_less_eq lhs rhs \<longleftrightarrow> pti_ord lhs \<le> pti_ord rhs"

definition pti_greater_eq :: "py_type_info \<Rightarrow> py_type_info \<Rightarrow> bool" where
  "pti_greater_eq lhs rhs \<longleftrightarrow> pti_ord lhs \<ge> pti_ord rhs"

lemma pti_ord_inj [simp]: "pti_ord i = pti_ord j \<longleftrightarrow> i = j"
  by (cases i; cases j; cases "pti_rtti i"; cases "pti_rtti j") auto

instantiation py_type_info :: linorder
begin

definition less_eq_py_type_info :: "py_type_info \<Rightarrow> py_type_info \<Rightarrow> bool" where
  "less_eq_py_type_info = pti_less_eq"

definition less_py_type_info :: "py_type_info \<Rightarrow> py_type_info \<Rightarrow> bool" where
  "less_py_type_info = pti_less"

instance
proof
  fix x y z :: py_type_info
  show "(x < y) = (x \<le> y \<and> \<not> y \<le> x)" "x \<le> x" "x \<le> y \<or> y \<le> x"
    by (auto simp: less_eq_py_type_info_def less_py_type_info_def pti_less_eq_def pti_less_def order_less_le)
  show "x \<le> y \<Longrightarrow> y \<le> z \<Longrightarrow> x \<le> z"
    by (auto simp: less_eq_py_type_info_def pti_less_eq_def intro: order_trans)
  show "x \<le> y \<Longrightarrow> y \<le> x \<Longrightarrow> x = y"
    using pti_ord_inj [of x y] by (auto simp: less_eq_py_type_info_def pti_less_eq_def dest: order_antisym)
qed

end

section \<open>Wrapping Python arguments\<close>

text \<open>\<open>any::make_any_field<PythonWrapper>(o)\<close>\<close>

definition py_any :: "cval \<Rightarrow> any_field" where
  "py_any obj = make_any_field By_value obj"

text \<open>The sizes of the tuples of types, which the compiler knows.\<close>

fun pt_ninputs :: "property_type \<Rightarrow> nat" where
  "pt_ninputs (Property_type t i r None) = ft_size i"
| "pt_ninputs (Property_type t i r (Some b)) = ft_size i + pt_ninputs b"

fun pt_nresults :: "property_type \<Rightarrow> nat" where
  "pt_nresults (Property_type t i r None) = ft_size r"
| "pt_nresults (Property_type t i r (Some b)) = ft_size r + pt_nresults b"

text \<open>\<open>args[I]...\<close> for the \<open>n\<close> fields of the property type; arguments beyond these are not looked at.\<close>

definition py_args :: "nat \<Rightarrow> cval list \<Rightarrow> pt_arg list res" where
  "py_args n args = (if length args < n then Inl (User_exception ''IndexError'')
     else Inr (map (\<lambda>a. Pa_any (py_any a)) (take n args)))"

definition py_wrap_inputs :: "(cval \<Rightarrow> cval res) \<Rightarrow> property_type \<Rightarrow> input_map \<Rightarrow> cval list \<Rightarrow> input_map res" where
  "py_wrap_inputs pycast pt inputs args =
     bindR (py_args (pt_ninputs pt) args) (pt_wrap_inputs pycast pt inputs)"

definition py_wrap_results :: "property_type \<Rightarrow> result_map \<Rightarrow> cval list \<Rightarrow> result_map res" where
  "py_wrap_results pt results args =
     bindR (py_args (pt_nresults pt) args) (pt_wrap_results pt results)"

section \<open>Property types in Python\<close>

text \<open>The methods by which the bindings use a property type; \<open>None\<close> is Python's.\<close>

record py_api =
  pa_type :: "py_type_info res"
  pa_inputs :: "input_map res"
  pa_results :: "result_map res"
  pa_unwrap_inputs :: "input_map \<Rightarrow> cval list option res"
  pa_wrap_inputs :: "input_map \<Rightarrow> cval list \<Rightarrow> input_map res"
  pa_unwrap_results :: "result_map \<Rightarrow> cval list option res"
  pa_wrap_results :: "result_map \<Rightarrow> cval list \<Rightarrow> result_map res"

text \<open>
  \<open>EXPORT_PROPERTY_TYPE(pt, m)\<close>.  \<open>unwrap_results\<close> returns \<open>void\<close> for a property type without results.
\<close>

definition export_property_type :: "(cval \<Rightarrow> cval res) \<Rightarrow> property_type \<Rightarrow> py_api" where
  "export_property_type pycast pt = \<lparr>
     pa_type = Inr (pti_make (pt_rtti pt)),
     pa_inputs = bindR (pt_inputs pycast pt) (\<lambda>rvs. im_copy (om_insert_all ci_fold (ft_values rvs) [])),
     pa_results = bindR (pt_results pt) (\<lambda>rvs. rm_copy (om_insert_all ci_fold (ft_values rvs) [])),
     pa_unwrap_inputs = (\<lambda>inputs. bindR (im_copy inputs) (\<lambda>i.
       bindR (if pt_ninputs pt > 0 then pt_unwrap_inputs pycast pt i else Inr []) (\<lambda>xs.
       bindR (mapR pycast xs) (\<lambda>os. Inr (Some os))))),
     pa_wrap_inputs = (\<lambda>inputs args. bindR (im_copy inputs) (\<lambda>i. py_wrap_inputs pycast pt i args)),
     pa_unwrap_results = (\<lambda>results. bindR (rm_copy results) (\<lambda>r. bindR (pt_unwrap_results pycast pt r) (\<lambda>xs.
       if pt_nresults pt = 0 then Inr None else bindR (mapR pycast xs) (\<lambda>os. Inr (Some os))))),
     pa_wrap_results = (\<lambda>results args. bindR (rm_copy results) (\<lambda>r. py_wrap_results pt r args))\<rparr>"

text \<open>\<open>py_unwrap\<close> of \<open>export_python_only_property_type.cpp\<close>\<close>

definition py_unwrap_all :: "cval list \<Rightarrow> cval list res" where
  "py_unwrap_all unwrapped = mapR (py_unwrap ty_py_object) unwrapped"

text \<open>The methods of \<open>PythonOnlyPropertyType\<close>, which has no \<open>type\<close>.\<close>

definition export_python_only :: "(cval \<Rightarrow> cval res) \<Rightarrow> py_property_type \<Rightarrow> py_api" where
  "export_python_only pycast pt = \<lparr>
     pa_type = Inl (User_exception ''AttributeError''),
     pa_inputs = im_copy (ppt_inputs pt),
     pa_results = rm_copy (ppt_results pt),
     pa_unwrap_inputs = (\<lambda>inputs. bindR (im_copy inputs) (\<lambda>i. bindR (ppt_unwrap_inputs pycast pt i) (\<lambda>xs.
       bindR (py_unwrap_all xs) (\<lambda>os. Inr (Some os))))),
     pa_wrap_inputs = (\<lambda>inputs args. bindR (im_copy inputs) (\<lambda>i. bindR (im_copy i) (\<lambda>rv. ppt_wrap_inputs pt rv args))),
     pa_unwrap_results = (\<lambda>results. bindR (rm_copy results) (\<lambda>r. bindR (ppt_unwrap_results pycast pt r) (\<lambda>xs.
       bindR (py_unwrap_all xs) (\<lambda>os. Inr (Some os))))),
     pa_wrap_results = (\<lambda>results args. bindR (rm_copy results) (\<lambda>r. bindR (rm_copy r) (\<lambda>rv. ppt_wrap_results pt rv args)))\<rparr>"

text \<open>A property type as the bindings tell them apart: by \<open>isinstance\<close>.\<close>

datatype py_pt = Python_only py_property_type | Duck_typed py_api

fun py_methods :: "(cval \<Rightarrow> cval res) \<Rightarrow> py_pt \<Rightarrow> py_api" where
  "py_methods pycast (Python_only pt) = export_python_only pycast pt"
| "py_methods pycast (Duck_typed api) = api"

section \<open>Fields\<close>

definition py_mi_is_valid :: "module_input \<Rightarrow> cval \<Rightarrow> bool res" where
  "py_mi_is_valid i obj = mi_is_valid i (Arg_any (py_any obj))"

definition py_mi_change :: "cval \<Rightarrow> module_input \<Rightarrow> module_input res" where
  "py_mi_change obj i = mi_change (Arg_any (py_any obj)) i"

definition py_mi_set_default :: "cval \<Rightarrow> module_input \<Rightarrow> module_input res" where
  "py_mi_set_default obj i = mi_set_default (Arg_any (py_any obj)) i"

definition py_mi_value :: "(cval \<Rightarrow> cval res) \<Rightarrow> module_input \<Rightarrow> cval res" where
  "py_mi_value pycast i = bindR (mi_value_mut pycast ty_py As_value i) (py_unwrap ty_py_object)"

definition py_mr_change :: "cval \<Rightarrow> module_result \<Rightarrow> module_result res" where
  "py_mr_change obj r = mr_change (Res_any (py_any obj)) r"

definition py_mr_value :: "(cval \<Rightarrow> cval res) \<Rightarrow> module_result \<Rightarrow> cval res" where
  "py_mr_value pycast r = bindR (mr_value pycast ty_py As_value r) (py_unwrap ty_py_object)"

section \<open>Calling a module\<close>

text \<open>What a call returns to Python: the only result itself, or the tuple of the results.\<close>

datatype py_ret = Py_object cval | Py_tuple "cval list"

definition py_return :: "cval list \<Rightarrow> py_ret" where
  "py_return rv_tuple = (if length rv_tuple \<noteq> 1 then Py_tuple rv_tuple else Py_object (rv_tuple ! 0))"

text \<open>The conversion of what \<open>unwrap_results\<close> returns to \<open>pybind11::tuple\<close>: \<open>None\<close> is not iterable.\<close>

definition as_tuple :: "cval list option \<Rightarrow> cval list res" where
  "as_tuple obj = (case obj of None \<Rightarrow> Inl (User_exception ''TypeError'') | Some xs \<Rightarrow> Inr xs)"

text \<open>The map is copied when it is cast and when it is passed to \<open>run\<close>.\<close>

definition py_module_run_as :: "(cval \<Rightarrow> cval res) \<Rightarrow> nat \<Rightarrow> nat \<Rightarrow> py_api \<Rightarrow> cval list \<Rightarrow> ('d heap, py_ret) op" where
  "py_module_run_as pycast n a pt args =
     bindS (liftS (pa_inputs pt)) (\<lambda>py_inps.
     bindS (liftS (if args \<noteq> [] then pa_wrap_inputs pt py_inps args else Inr py_inps)) (\<lambda>py_inps'.
     bindS (liftS (im_copy py_inps')) (\<lambda>cxx_inps.
     bindS (bindS (liftS (im_copy cxx_inps)) (mod_run pycast n a)) (\<lambda>cxx_rvs.
     bindS (liftS (bindR (pa_unwrap_results pt cxx_rvs) as_tuple)) (\<lambda>rv_tuple.
     retS (py_return rv_tuple))))))"

definition py_module_run_as_python_only :: "(cval \<Rightarrow> cval res) \<Rightarrow> nat \<Rightarrow> nat \<Rightarrow> py_property_type \<Rightarrow> cval list
    \<Rightarrow> ('d heap, py_ret) op" where
  "py_module_run_as_python_only pycast n a pt args =
     bindS (mod_run_as_py pycast n a pt args) (\<lambda>rv.
     bindS (liftS (py_unwrap_all rv)) (\<lambda>rv_tuple. retS (py_return rv_tuple)))"

fun py_run_as :: "(cval \<Rightarrow> cval res) \<Rightarrow> nat \<Rightarrow> nat \<Rightarrow> py_pt \<Rightarrow> cval list \<Rightarrow> ('d heap, py_ret) op" where
  "py_run_as pycast n a (Python_only pt) args = py_module_run_as_python_only pycast n a pt args"
| "py_run_as pycast n a (Duck_typed api) args = py_module_run_as pycast n a api args"

definition py_ready :: "(cval \<Rightarrow> cval res) \<Rightarrow> nat \<Rightarrow> 'd heap \<Rightarrow> nat \<Rightarrow> py_pt \<Rightarrow> bool res" where
  "py_ready pycast n h a pt =
     bindR (pa_inputs (py_methods pycast pt)) (\<lambda>py_inputs.
     bindR (im_copy py_inputs) (\<lambda>inps. mod_ready n h (a, inps)))"

definition py_property_types :: "'d heap \<Rightarrow> nat \<Rightarrow> py_type_info list res" where
  "py_property_types h a = bindR (mod_types h a) (\<lambda>ts. Inr (fold (\<lambda>pt rv. insort_insert (pti_make pt) rv) ts []))"

definition py_get_name :: "'d module \<Rightarrow> string res" where
  "py_get_name m = (case get_name m of
      Inl Bad_optional_access \<Rightarrow> Inl (runtime_error ''No Name Set'')
    | r \<Rightarrow> r)"

definition py_change_input :: "nat \<Rightarrow> string \<Rightarrow> cval \<Rightarrow> ('d heap, unit) op" where
  "py_change_input a key obj = mod_change_input a key (Arg_any (py_any obj))"

section \<open>Requests\<close>

definition py_set_type :: "(cval \<Rightarrow> cval res) \<Rightarrow> (nat \<Rightarrow> rtti list res) \<Rightarrow> py_pt \<Rightarrow> submodule_request
    \<Rightarrow> submodule_request res" where
  "py_set_type pycast types pt sr =
     bindR (bindR (pa_type (py_methods pycast pt)) pti_value) (\<lambda>rtti.
     bindR (pa_inputs (py_methods pycast pt)) (\<lambda>py_inputs.
     bindR (im_copy py_inputs) (\<lambda>inputs. srp_set_type types rtti inputs sr)))"

definition py_satisfies_property_type :: "(cval \<Rightarrow> cval res) \<Rightarrow> py_pt \<Rightarrow> submodule_request \<Rightarrow> bool res" where
  "py_satisfies_property_type pycast pt sr =
     bindR (bindR (pa_type (py_methods pycast pt)) pti_value) (\<lambda>rtti. srp_satisfies_property_type rtti sr)"

definition py_sr_get_name :: "'d heap \<Rightarrow> submodule_request \<Rightarrow> string res" where
  "py_sr_get_name h sr = (case srp_get_name h sr of
      Inl Bad_optional_access \<Rightarrow> Inl (runtime_error ''No Name Set'')
    | r \<Rightarrow> r)"

text \<open>
  A \<open>Module&\<close> that a method returns to Python without a policy: the Python object that wraps this
  module already, if there is one (\<open>known\<close>), else an object that wraps a copy.
\<close>

definition py_lvalue :: "bool \<Rightarrow> nat \<Rightarrow> ('d heap, nat) op" where
  "py_lvalue known a = (if known then retS a
     else bindS (\<lambda>h. (bindR (mod_at h a) mo_copy, h)) alloc_mod)"

definition py_sr_run_as :: "(cval \<Rightarrow> cval res) \<Rightarrow> nat \<Rightarrow> (nat \<Rightarrow> bool) \<Rightarrow> submodule_request \<Rightarrow> py_pt \<Rightarrow> cval list
    \<Rightarrow> ('d heap, py_ret) op" where
  "py_sr_run_as pycast n known sr pt args =
     bindS (liftS (srp_value sr)) (\<lambda>a.
     bindS (py_lvalue (known a) a) (\<lambda>py_mod. py_run_as pycast n py_mod pt args))"

section \<open>The base class of modules\<close>

text \<open>\<open>PyModuleBase\<close> calls the \<open>run_\<close> the Python class defines.  Without one
  \<open>PYBIND11_OVERRIDE_PURE\<close> throws: the exception is \<open>pure_call\<close>.\<close>

definition py_module_base_run :: "exn \<Rightarrow> (input_map \<Rightarrow> submodule_map \<Rightarrow> alg) option \<Rightarrow> input_map \<Rightarrow> submodule_map \<Rightarrow> alg" where
  "py_module_base_run pure_call override inputs submods =
     (case override of Some run \<Rightarrow> run inputs submods | None \<Rightarrow> Raise pure_call)"

definition py_module_base_new :: "exn \<Rightarrow> (input_map \<Rightarrow> submodule_map \<Rightarrow> alg) option \<Rightarrow> 'd module_base" where
  "py_module_base_new pure_call override = mb_new_python (py_module_base_run pure_call override)"

definition py_add_input :: "string \<Rightarrow> 'd module_base \<Rightarrow> 'd module_base res" where
  "py_add_input key self =
     (let i0 = (case ci_find key (mb_inputs self) of None \<Rightarrow> mi_new | Some i \<Rightarrow> i) in
      case mi_set_type (mk_rtti ty_py) False i0 of
        (Inl e, new_i) \<Rightarrow> Inl e
      | (Inr _, new_i) \<Rightarrow> Inr (self\<lparr>mb_inputs := ci_set key new_i (mb_inputs self)\<rparr>))"

definition py_add_result :: "string \<Rightarrow> 'd module_base \<Rightarrow> 'd module_base res" where
  "py_add_result key self =
     (let r0 = (case ci_find key (mb_results self) of None \<Rightarrow> mr_new | Some r \<Rightarrow> r) in
      case mr_set_type (mk_rtti ty_py) r0 of
        (Inl e, new_r) \<Rightarrow> Inl e
      | (Inr _, new_r) \<Rightarrow> Inr (self\<lparr>mb_results := ci_set key new_r (mb_results self)\<rparr>))"

text \<open>The request is made first; \<open>emplace\<close> drops it if the module has one of that name.\<close>

definition py_add_submodule :: "(cval \<Rightarrow> cval res) \<Rightarrow> (nat \<Rightarrow> rtti list res) \<Rightarrow> py_pt \<Rightarrow> string
    \<Rightarrow> 'd module_base \<Rightarrow> 'd module_base res" where
  "py_add_submodule pycast types pt key self =
     bindR (py_set_type pycast types pt sr_new) (\<lambda>py_sr.
     bindR (sr_clone py_sr) (\<lambda>sr. Inr (self\<lparr>mb_submods := ci_emplace key sr (mb_submods self)\<rparr>)))"

fun py_satisfies :: "py_pt \<Rightarrow> 'd module_base \<Rightarrow> 'd module_base res" where
  "py_satisfies (Python_only pt) self = Inr (mb_satisfies_py pt self)"
| "py_satisfies (Duck_typed api) self =
     bindR (pa_type api) (\<lambda>info.
     bindR (bindR (pa_inputs api) im_copy) (\<lambda>inputs.
     bindR (bindR (pa_results api) rm_copy) (\<lambda>results.
     bindR (pti_value info) (\<lambda>t. Inr (mb_satisfies' t inputs results self)))))"

section \<open>Managers\<close>

definition py_mm_change_input :: "nat \<Rightarrow> string \<Rightarrow> string \<Rightarrow> cval \<Rightarrow> ('d mm_state, unit) op" where
  "py_mm_change_input n mod_key opt_key obj = change_input_at n mod_key opt_key (Arg_any (py_any obj))"

text \<open>\<open>at\<close> hands out the module itself.\<close>

definition py_mm_run_as :: "(cval \<Rightarrow> cval res) \<Rightarrow> nat \<Rightarrow> py_pt \<Rightarrow> string \<Rightarrow> cval list \<Rightarrow> ('d mm_state, py_ret) op" where
  "py_mm_run_as pycast n pt key args = bindS (at_key n key) (\<lambda>a. on_heap (py_run_as pycast n a pt args))"

text \<open>\<open>__getitem__\<close> returns a \<open>Module\<close> by value.\<close>

definition py_getitem :: "nat \<Rightarrow> string \<Rightarrow> ('d mm_state, nat) op" where
  "py_getitem n key = bindS (at_key n key) (\<lambda>a. on_heap (py_lvalue False a))"

section \<open>Lemmas\<close>

text \<open>A tuple has a field for each of its types, at every level of a property type.\<close>

fun pt_wf :: "property_type \<Rightarrow> bool" where
  "pt_wf (Property_type t i r None) \<longleftrightarrow> length (ft_types i) = length (ft_values i) \<and> length (ft_types r) = length (ft_values r)"
| "pt_wf (Property_type t i r (Some b)) \<longleftrightarrow>
     length (ft_types i) = length (ft_values i) \<and> length (ft_types r) = length (ft_values r) \<and> pt_wf b"

lemma set_default_shape:
  assumes "ft_set_default x ft = Inr ft'"
  shows "ft_types ft' = ft_types ft \<and> length (ft_values ft') = length (ft_values ft)"
proof (cases "rev (ft_values ft)")
  case (Cons p rest)
  then have "length (ft_values ft) = Suc (length rest)" by (metis length_Cons length_rev)
  then show ?thesis using assms Cons by (auto simp: ft_set_default_def bindR_Inr_iff split: prod.splits)
qed (use assms in \<open>simp add: ft_set_default_def\<close>)

lemma union_input_types:
  "union_guts_input pycast lhs Ts vs = Inr ft \<Longrightarrow> length Ts = length vs \<Longrightarrow> length (ft_types lhs) = length (ft_values lhs) \<Longrightarrow>
   length (ft_types ft) = length (ft_values ft) \<and> length (ft_types ft) = length (ft_types lhs) + length Ts"
proof (induction pycast lhs Ts vs rule: union_guts_input.induct)
  case (1 pycast lhs T Ts k v vs)
  obtain rv rv' where rv: "ft_add_field new_input T k lhs = Inr rv"
      "(if mi_has_value v then bindR (mi_value_const pycast (rt_name (fty_rtti T)) (value_how T) v)
         (\<lambda>x. ft_set_default (as_arg T x) rv) else Inr rv) = Inr rv'"
      "union_guts_input pycast rv' Ts vs = Inr ft"
    using 1(2) by (auto simp: bindR_Inr_iff)
  have "length (ft_types rv) = length (ft_values rv)" "length (ft_types rv) = Suc (length (ft_types lhs))"
    using rv(1) 1(4) by (auto simp: ft_add_field_def ft_add_field'_def bindR_Inr_iff split: if_splits)
  moreover have "ft_types rv' = ft_types rv \<and> length (ft_values rv') = length (ft_values rv)"
    using rv(2) by (auto simp: bindR_Inr_iff dest: set_default_shape split: if_splits)
  ultimately show ?case using 1(1) [OF rv(1,2)] rv(3) 1(3) by simp
qed simp_all

lemma union_result_types:
  "union_guts_result lhs Ts vs = Inr ft \<Longrightarrow> length Ts = length vs \<Longrightarrow> length (ft_types lhs) = length (ft_values lhs) \<Longrightarrow>
   length (ft_types ft) = length (ft_values ft) \<and> length (ft_types ft) = length (ft_types lhs) + length Ts"
proof (induction lhs Ts vs rule: union_guts_result.induct)
  case (1 lhs T Ts k v vs)
  obtain rv where rv: "ft_add_field new_result T k lhs = Inr rv" "union_guts_result rv Ts vs = Inr ft"
    using 1(2) by (auto simp: bindR_Inr_iff)
  have "length (ft_types rv) = length (ft_values rv)" "length (ft_types rv) = Suc (length (ft_types lhs))"
    using rv(1) 1(4) by (auto simp: ft_add_field_def ft_add_field'_def bindR_Inr_iff split: if_splits)
  then show ?case using 1(1) [OF rv] 1(3) by simp
qed simp_all

lemma pt_ninputs_size: "pt_wf pt \<Longrightarrow> pt_inputs pycast pt = Inr ft \<Longrightarrow>
    ft_size ft = pt_ninputs pt \<and> length (ft_types ft) = length (ft_values ft)"
  by (induction pt arbitrary: ft rule: pt_ninputs.induct)
    (auto simp: ft_size_def bindR_Inr_iff ft_plus_input_def dest!: union_input_types)

lemma pt_nresults_size: "pt_wf pt \<Longrightarrow> pt_results pt = Inr ft \<Longrightarrow>
    ft_size ft = pt_nresults pt \<and> length (ft_types ft) = length (ft_values ft)"
  by (induction pt arbitrary: ft rule: pt_nresults.induct)
    (auto simp: ft_size_def bindR_Inr_iff ft_plus_result_def dest!: union_result_types)

text \<open>A Python object that converts to the class of a field.\<close>

lemma reads_py:
  assumes "py_unwrap (rt_name (fty_rtti T)) obj = Inr x"
  shows "reads pycast T obj x"
proof -
  obtain i c where obj: "obj = CPy (Some (i, c))"
    using assms by (cases "(rt_name (fty_rtti T), obj)" rule: py_unwrap.cases) auto
  then have "py_is_convertible (rt_name (fty_rtti T)) obj" using assms by (auto split: option.splits if_splits)
  then show ?thesis
    using assms unfolding reads_def any_cast_const_def make_any_field_def cast_const_def
    by (simp add: obj is_convertible_const_def py_is_convertible_const_def value_how_def
        del: py_unwrap.simps py_is_convertible.simps)
qed

lemma keys_ins: "map fst m = map fst m' \<Longrightarrow> map fst (om_ins f k v m) = map fst (om_ins f k v' m')"
proof (induction m arbitrary: m')
  case (Cons p m)
  then obtain p' m1 where "m' = p' # m1" "fst p' = fst p" "map fst m = map fst m1" by (cases m') auto
  then show ?case using Cons.IH by (cases p; cases p') auto
qed simp

lemma keys_count: "map fst m = map fst m' \<Longrightarrow> om_count f k m = om_count f k m'"
proof (induction m arbitrary: m')
  case (Cons p m)
  then obtain p' m1 where "m' = p' # m1" "fst p' = fst p" "map fst m = map fst m1" by (cases m') auto
  then show ?case using Cons.IH by (cases p; cases p') (auto simp: om_count_def)
qed (simp add: om_count_def)

lemma keys_insert_all: "map fst vs = map fst vs' \<Longrightarrow> map fst m = map fst m' \<Longrightarrow>
    map fst (om_insert_all f vs m) = map fst (om_insert_all f vs' m')"
proof (induction vs arbitrary: vs' m m')
  case (Cons p vs)
  then obtain k v v' vs1 where vs: "p = (k, v)" "vs' = (k, v') # vs1" "map fst vs = map fst vs1"
    by (cases vs'; cases p) auto
  have "map fst (om_emplace f k v m) = map fst (om_emplace f k v' m')"
    using Cons.prems(2) keys_count [OF Cons.prems(2), of f k] keys_ins [OF Cons.prems(2), of f k v v']
    by (simp add: om_emplace_def)
  then show ?case using Cons.IH [OF vs(3)] vs by (simp add: om_insert_all_def)
qed (simp add: om_insert_all_def)

text \<open>The objects of the arguments, as the fields get them.\<close>

abbreviation py_given :: "cval list \<Rightarrow> pt_arg list" where
  "py_given os \<equiv> map (\<lambda>a. Pa_any (py_any a)) os"

lemma py_wrap_ok:
  assumes "pt_inputs pycast pt = Inr ft" and "pt_wf pt" and "api_ok ft" and "ft_size ft \<le> length args"
    and "accepts ft (py_given (take (ft_size ft) args))"
  obtains rv where "pa_inputs (export_property_type pycast pt) = Inr (unrefs (api_map ft))"
    "pa_wrap_inputs (export_property_type pycast pt) (unrefs (api_map ft)) args = Inr rv"
    "full rv" "map fst rv = map fst (api_map ft)"
    "list_all2 (\<lambda>(k, v) x. holds rv k x) (ft_values ft) (take (ft_size ft) args)"
    "args = [] \<longrightarrow> rv = unrefs (api_map ft)"
proof -
  let ?given = "py_given (take (ft_size ft) args)"
  note copy = api_map_facts(2) [OF assms(3)]
  have n: "pt_ninputs pt = ft_size ft" using pt_ninputs_size [OF assms(2,1)] by simp
  have inps: "pa_inputs (export_property_type pycast pt) = Inr (unrefs (api_map ft))"
    using assms(1) copy_copyable [OF copy] by (simp add: export_property_type_def api_map_def)
  have again: "im_copy (unrefs (api_map ft)) = Inr (unrefs (api_map ft))"
    using copy_copyable [OF copyable_unref [OF copy]] by (simp add: comp_def case_prod_unfold)
  obtain rv where rv: "wrap_guts_input (ft_types ft) (ft_values ft) ?given (unrefs (api_map ft)) = Inr rv" "full rv"
      "map fst rv = map fst (api_map ft)" "list_all2 (\<lambda>(k, v) a. holds rv k (arg_val a)) (ft_values ft) ?given"
    by (rule wrap_api [OF assms(3,5)])
  have held: "list_all2 (\<lambda>(k, v) x. holds rv k x) (ft_values ft) (take (ft_size ft) args)"
    using rv(4) by (auto simp: list.rel_map arg_val_def py_any_def elim!: list.rel_mono_strong)
  have "py_args (pt_ninputs pt) args = Inr ?given" using assms(4) by (simp add: py_args_def n)
  then have "pa_wrap_inputs (export_property_type pycast pt) (unrefs (api_map ft)) args = Inr rv"
    using again rv(1) assms(1) by (simp add: export_property_type_def py_wrap_inputs_def pt_wrap_inputs_def)
  moreover have "args = [] \<longrightarrow> rv = unrefs (api_map ft)"
    using rv(1) assms(3,4) by (auto simp: ft_size_def api_ok_def)
  ultimately show ?thesis using inps rv(2,3) held by (intro that [of rv]) simp_all
qed

text \<open>Objects that convert to the classes of the fields.\<close>

definition py_converts :: "field_type list \<Rightarrow> cval list \<Rightarrow> cval list \<Rightarrow> bool" where
  "py_converts Ts os xs \<longleftrightarrow>
     list_all2 (\<lambda>(T, obj) x. py_unwrap (rt_name (fty_rtti T)) obj = Inr x) (zip Ts os) xs"

lemma py_converts_reads: "py_converts Ts os xs \<Longrightarrow>
    list_all2 (\<lambda>(T, v) x. reads pycast T v x) (zip Ts os) xs"
  unfolding py_converts_def by (erule list.rel_mono_strong) (auto intro: reads_py)

lemma py_call:
  assumes "pa_inputs api = Inr inps" and "(if args \<noteq> [] then pa_wrap_inputs api inps args else Inr inps) = Inr rv"
    and "full rv"
  shows "fst (py_run_as pycast n a (Duck_typed api) args h) =
    bindR (bindR (fst (mod_run pycast n a (unrefs rv) h)) (\<lambda>rvs. bindR (pa_unwrap_results api rvs) as_tuple))
      (\<lambda>rvs. Inr (py_return rvs))"
proof -
  have "im_copy rv = Inr (unrefs rv)" "im_copy (unrefs rv) = Inr (unrefs rv)"
    using copy_full [OF assms(3)] copy_full [OF full_unref [OF assms(3)]] by (simp_all add: comp_def case_prod_unfold)
  moreover obtain r h3 where "mod_run pycast n a (unrefs rv) h = (r, h3)" by (cases "mod_run pycast n a (unrefs rv) h")
  ultimately show ?thesis
    using assms(1,2) by (cases r) (simp_all add: py_module_run_as_def bindS_def split: sum.splits del: mod_run.simps)
qed

lemma py_returned:
  assumes "pt_wf qt" and "pt_results qt = Inr gr" and "ft_types gr = ft_types fr"
    and "map fst (ft_values gr) = map fst (ft_values fr)"
    and "no_null rm" and "list_all2 (\<lambda>(k, v) y. result_is rm k y) (ft_values fr) ys" and "typed (ft_types fr) ys"
  shows "bindR (pa_unwrap_results (export_property_type pycast qt) rm) as_tuple =
      (if ys = [] then Inl (User_exception ''TypeError'') else mapR pycast ys)"
proof -
  have "list_all2 (\<lambda>k y. result_is rm k y) (map fst (ft_values fr)) ys"
    using assms(6) by (simp add: list.rel_map case_prod_unfold)
  then have is_gr: "list_all2 (\<lambda>(k, v) y. result_is rm k y) (ft_values gr) ys"
    unfolding assms(4) [symmetric] by (simp add: list.rel_map case_prod_unfold)
  have size: "ft_size gr = pt_nresults qt" "length (ft_types gr) = length (ft_values gr)"
    using pt_nresults_size [OF assms(1,2)] by simp_all
  have typed: "typed (ft_types gr) ys" using assms(3,7) by simp
  then have "pt_nresults qt = 0 \<longleftrightarrow> ys = []" using size(1) by (auto simp: ft_size_def typed_def dest: list_all2_lengthD)
  moreover have "pt_unwrap_results pycast qt rm = Inr ys"
    using unwrap_results [OF is_gr typed size(2)] assms(2) by (simp add: pt_unwrap_results_def)
  ultimately show ?thesis
    using rm_copy_id [OF assms(5)] by (cases "mapR pycast ys") (simp_all add: export_property_type_def as_tuple_def)
qed

text \<open>All Python classes have one C++ type, but the manager keeps the implementation of each module
  written in Python: what it runs is the \<open>run_\<close> of the object given.\<close>

lemma is_python_base [simp]: "mb_is_python (py_module_base_new pure_call override)"
  by (simp add: py_module_base_new_def mb_new_python_def)

lemma python_module_keeps_run:
  assumes "\<not> mm_count mm key" and b: "hp_bases h p = Some b" and py: "mb_is_python b"
    and make: "mp_make h (Some p) None = Inr pimpl"
  shows "\<exists>mm' h' a m. mm_add_module key p (mm, h) = (Inr (), (mm', h')) \<and> ci_find key (mm_modules mm') = Some a \<and>
    hp_mods h' a = Some m \<and> mp_base (mo_pimpl m) = Some p \<and> map_option mb_run (hp_bases h' p) = Some (mb_run b)"
proof -
  have p: "base_used mm p b = p" using py by (simp add: base_used_def)
  obtain mm' h' u uc mc where "mm_add_module key p (mm, h) = (Inr (), (mm', h'))"
      "mm_modules mm' = ci_emplace key (hp_next_mod h) (mm_modules mm)"
      "hp_mods h' = (hp_mods h)(hp_next_mod h \<mapsto> \<lparr>mo_pimpl = pimpl\<lparr>mp_cache := mc\<rparr>, mo_name = Some key\<rparr>)"
      "hp_bases h' = (hp_bases h)(p \<mapsto> configured u (mm_runtime mm) uc b)"
    using add_module_eval [OF assms(1) b, unfolded p, OF b make] by (elim exE conjE) (rule that)
  moreover have "mp_base pimpl = Some p" using make by (auto simp: mp_make_def bindR_Inr_iff mp_new_def)
  moreover have "mb_run (configured u (mm_runtime mm) uc b) = mb_run b" for u
    using same_fields_configured [of b u "mm_runtime mm" uc] by (simp add: same_fields_def)
  ultimately show ?thesis
    using assms(1) by (simp add: mm_count_def om_count_def om_find_emplace)
qed

section \<open>Properties\<close>

text \<open>C28: Python arguments arrive as the C++ values they convert to.  \<open>wrap_inputs\<close> of a property
  type exported to Python raises \<open>IndexError\<close> if there are fewer arguments than fields and
  ignores those beyond the fields; arguments that the fields accept are wrapped into its own map
  of inputs, which then is ready, and a C++ module that unwraps the map gets the conversions, in order.\<close>

theorem python_arguments:
  assumes "pt_wf pt" and "pt_inputs pycast pt = Inr ft" and "api_ok ft"
  shows "let api = export_property_type pycast pt;
      wrapped = bindR (pa_inputs api) (\<lambda>inps. pa_wrap_inputs api inps args); os = take (ft_size ft) args in
    (length args < ft_size ft \<longrightarrow> wrapped = Inl (User_exception ''IndexError'')) \<and>
    (ft_size ft \<le> length args \<and> accepts ft (py_given os) \<and> py_converts (ft_types ft) os xs \<longrightarrow>
      (\<exists>rv. wrapped = Inr rv \<and> list_all (\<lambda>(k, v). mi_ready v) rv \<and> pt_unwrap_inputs pycast pt rv = Inr xs))"
proof (cases "length args < ft_size ft")
  case True
  note copy = api_map_facts(2) [OF assms(3)]
  have n: "pt_ninputs pt = ft_size ft" using pt_ninputs_size [OF assms(1,2)] by simp
  have again: "im_copy (unrefs (api_map ft)) = Inr (unrefs (api_map ft))"
    using copy_copyable [OF copyable_unref [OF copy]] by (simp add: comp_def case_prod_unfold)
  show ?thesis
    using True again assms(2) copy_copyable [OF copy] n
    by (simp add: Let_def export_property_type_def api_map_def py_wrap_inputs_def py_args_def)
next
  case False
  show ?thesis
  proof (cases "accepts ft (py_given (take (ft_size ft) args)) \<and> py_converts (ft_types ft) (take (ft_size ft) args) xs")
    case True
    then obtain rv where rv: "pa_inputs (export_property_type pycast pt) = Inr (unrefs (api_map ft))"
        "pa_wrap_inputs (export_property_type pycast pt) (unrefs (api_map ft)) args = Inr rv" "full rv"
        "list_all2 (\<lambda>(k, v) x. holds rv k x) (ft_values ft) (take (ft_size ft) args)"
      using py_wrap_ok [OF assms(2,1,3), of args] False by auto
    have "pt_unwrap_inputs pycast pt rv = Inr xs"
      using unwrap_held [OF rv(4) py_converts_reads] True assms(2,3) by (simp add: pt_unwrap_inputs_def api_ok_def)
    then show ?thesis using False rv full_ready [OF rv(3)] by (auto simp: Let_def)
  qed (use False in \<open>auto simp: Let_def\<close>)
qed

text \<open>C27: Python runs a module by the names and types of the fields of a property type, not by the
  property type.  Called with objects that convert to arguments the fields accept, \<open>run_as\<close> on a
  lambda module returns what its function returns for the converted arguments, as Python
  objects, a single one bare and several as a tuple, or raises what the function throws; of a
  function without results the call raises \<open>TypeError\<close>, after the run.  This holds for every
  property type with the fields of the one the module satisfies, also for those that it does not
  satisfy, as which C++ refuses to run it.\<close>

theorem python_runs_lambda:
  assumes "pt_inputs pycast pt = Inr fi" and "api_ok fi" and "pt_results pt = Inr fr" and "results_ok fr"
    and "make_lambda pycast pt f h = (Inr a, h1)" and "keeps h1 h2"
    and "pt_wf qt" and "pt_inputs pycast qt = Inr gi" and "api_ok gi" and "pt_results qt = Inr gr"
    and "ft_types gi = ft_types fi" and "map fst (ft_values gi) = map fst (ft_values fi)"
    and "ft_types gr = ft_types fr" and "map fst (ft_values gr) = map fst (ft_values fr)"
    and "ft_size gi \<le> length args" and "accepts gi (py_given (take (ft_size gi) args))"
    and "py_converts (ft_types gi) (take (ft_size gi) args) xs"
    and "\<And>ys. f xs = Inr ys \<Longrightarrow> returns_ok fr ys"
  shows "fst (py_run_as pycast (Suc n) a (Duck_typed (export_property_type pycast qt)) args h2) =
      (case f xs of Inl e \<Rightarrow> Inl e
       | Inr ys \<Rightarrow> if ys = [] then Inl (User_exception ''TypeError'')
           else bindR (mapR pycast ys) (\<lambda>zs. Inr (py_return zs))) \<and>
    (rt_name (pt_rtti qt) \<noteq> rt_name (pt_rtti pt) \<longrightarrow> mod_run_as pycast (Suc n) a qt cxx_args h2 =
      (Inl (runtime_error (''Module does not satisfy property type '' @ rt_name (pt_rtti qt))), h2))"
proof
  let ?api = "export_property_type pycast qt"
  have l: "lambda_at pycast pt f fi fr h2 a"
    using make_lambda_at [OF assms(1-3,5)] assms(6) by (rule lambda_at_keeps)
  obtain rv where rv: "pa_inputs ?api = Inr (unrefs (api_map gi))"
      "pa_wrap_inputs ?api (unrefs (api_map gi)) args = Inr rv" "full rv" "map fst rv = map fst (api_map gi)"
      "list_all2 (\<lambda>(k, v) x. holds rv k x) (ft_values gi) (take (ft_size gi) args)" "args = [] \<longrightarrow> rv = unrefs (api_map gi)"
    by (rule py_wrap_ok [OF assms(8,7,9,15,16)])
  have keys: "map fst (unrefs rv) = map fst (api_map fi)"
    unfolding keys_unref rv(4) api_map_def using assms(12) by (rule keys_insert_all) simp
  have "list_all2 (\<lambda>k x. holds rv k x) (map fst (ft_values gi)) (take (ft_size gi) args)"
    using rv(5) by (simp add: list.rel_map case_prod_unfold)
  then have held: "list_all2 (\<lambda>(k, v) x. holds (unrefs rv) k x) (ft_values fi) (take (ft_size gi) args)"
    unfolding assms(12) by (simp add: list.rel_map case_prod_unfold) (erule list.rel_mono_strong, rule holds_unref [unfolded case_prod_unfold])
  note run = lambda_run [OF l assms(1-4) full_unref [OF rv(3)] keys held
      py_converts_reads [OF assms(17), unfolded assms(11)] assms(18), of n]
  have "(if args \<noteq> [] then pa_wrap_inputs ?api (unrefs (api_map gi)) args else Inr (unrefs (api_map gi))) = Inr rv"
    using rv(2,6) by simp
  note call = py_call [OF rv(1) this rv(3), of pycast "Suc n" a h2]
  note ret = py_returned [OF assms(7,10,13,14)]
  show "fst (py_run_as pycast (Suc n) a (Duck_typed ?api) args h2) = (case f xs of Inl e \<Rightarrow> Inl e
       | Inr ys \<Rightarrow> if ys = [] then Inl (User_exception ''TypeError'')
           else bindR (mapR pycast ys) (\<lambda>zs. Inr (py_return zs)))"
    using run ret assms(18) unfolding call by (cases "f xs") (auto simp: returns_ok_def simp del: mod_run.simps)
  show "rt_name (pt_rtti qt) \<noteq> rt_name (pt_rtti pt) \<longrightarrow> mod_run_as pycast (Suc n) a qt cxx_args h2 =
      (Inl (runtime_error (''Module does not satisfy property type '' @ rt_name (pt_rtti qt))), h2)"
    using l by (auto simp: lambda_at_def leaf_def mod_run_as_def mod_run_as_by_def check_property_type'_def mod_types_def
        mod_at_def mp_property_types'_def mp_base_of_def bindS_def bindR_Inr_iff)
qed

definition py_number :: "int \<Rightarrow> cval" where
  "py_number i = CPy (Some (to_string i, [(''int'', CInt i)]))"

fun to_python :: "cval \<Rightarrow> cval res" where
  "to_python (CInt i) = Inr (py_number i)"
| "to_python v = Inl (User_exception ''TypeError'')"

text \<open>A property type that has the fields of another but not its name.\<close>

definition twice_pt :: property_type where
  "twice_pt = Property_type (mk_rtti ''Twice'') (pt_inputs' double_pt) (pt_results' double_pt) None"

lemma number_accepted:
  "accepts (pt_inputs' double_pt) (py_given [py_number x])"
  "py_converts (ft_types (pt_inputs' double_pt)) [py_number x] [CInt x]"
proof -
  have "type_check_call ''int'' False (py_any (py_number x))"
    by (simp add: type_check_call_def any_is_convertible_def py_any_def make_any_field_def is_convertible_const_def
        py_number_def py_is_convertible_const_def)
  then have "\<not> isl (mi_change (Arg_any (py_any (py_number x))) (fresh_input int_type))"
    using any_copy_solid [of "py_number x" By_value]
    by (simp add: mi_change_def mi_wrap_value_def py_any_def py_number_def fresh_input_def mi_change'_def int_type_def
        mip_set_value_def mip_defs mip_is_valid_def)
  then show "accepts (pt_inputs' double_pt) (py_given [py_number x])"
    by (simp add: accepts_def double_pt_def pt_cxx_arg_def arg_ok_def arg_val_def py_any_def py_number_def)
  show "py_converts (ft_types (pt_inputs' double_pt)) [py_number x] [CInt x]"
    by (simp add: py_converts_def double_pt_def int_type_def py_number_def ty_py_def ty_py_object_def)
qed

lemma twice_ok: "pt_wf twice_pt" "pt_wf double_pt" "pt_inputs pycast twice_pt = Inr (pt_inputs' double_pt)"
  "pt_results twice_pt = Inr (pt_results' double_pt)" "ft_size (pt_inputs' double_pt) = 1"
  by (simp_all add: twice_pt_def double_pt_def ft_size_def)

theorem python_arguments_witness:
  "\<exists>rv. bindR (pa_inputs (export_property_type Inr double_pt))
       (\<lambda>i. pa_wrap_inputs (export_property_type Inr double_pt) i [py_number 3, py_number 4]) = Inr rv \<and>
     pt_unwrap_inputs Inr double_pt rv = Inr [CInt 3]"
  using python_arguments [where pycast = Inr and args = "[py_number 3, py_number 4]" and xs = "[CInt 3]", OF twice_ok(2) double_ok(1,2)]
    number_accepted [of 3] twice_ok(5) by (auto simp: Let_def)

theorem python_runs_lambda_witness:
  "\<exists>a h1. make_lambda to_python double_pt double double_heap = (Inr a, h1) \<and>
     fst (py_run_as to_python (Suc 0) a (Duck_typed (export_property_type to_python twice_pt)) [py_number 21] h1) =
       Inr (Py_object (py_number 42)) \<and>
     fst (mod_run_as to_python (Suc 0) a twice_pt [Pa_value (CInt 21)] h1) =
       Inl (runtime_error ''Module does not satisfy property type Twice'')"
proof -
  have "\<not> isl (fst (make_lambda to_python double_pt double double_heap))" by code_simp
  then obtain a h1 where m: "make_lambda to_python double_pt double double_heap = (Inr a, h1)"
    by (cases "make_lambda to_python double_pt double double_heap"; cases "fst (make_lambda to_python double_pt double double_heap)") auto
  have f: "double [CInt 21] = Inr [CInt 42]" by simp
  have ok: "\<And>ys. double [CInt 21] = Inr ys \<Longrightarrow> returns_ok (pt_results' double_pt) ys" using double_ok(7) by simp
  have names: "rt_name (pt_rtti twice_pt) = ''Twice''" "rt_name (pt_rtti double_pt) = ''Double''"
    by (simp_all add: twice_pt_def double_pt_def)
  note run = python_runs_lambda [where args = "[py_number 21]" and xs = "[CInt 21]" and n = 0 and cxx_args = "[Pa_value (CInt 21)]",
      OF double_ok(1-4) m keeps_refl twice_ok(1,3) double_ok(2) twice_ok(4) HOL.refl HOL.refl HOL.refl HOL.refl]
  show ?thesis
    using run number_accepted [of 21] twice_ok(5) ok m unfolding f names
    by (auto simp: py_return_def simp del: py_run_as.simps)
qed

section \<open>Python-only property types\<close>

text \<open>
  What its author can make of one, with the fields that \<open>declare_input\<close> returns.
\<close>

inductive ppt_reach :: "py_property_type \<Rightarrow> bool" where
  new: "ppt_reach (ppt_new name)"
| input: "ppt_reach p \<Longrightarrow> ppt_declare_input key p = Inr p' \<Longrightarrow> ppt_reach p'"
| result: "ppt_reach p \<Longrightarrow> ppt_declare_result key p = Inr p' \<Longrightarrow> ppt_reach p'"
| described: "ppt_reach p \<Longrightarrow> ci_find key (ppt_inputs p) = Some i \<Longrightarrow>
    ppt_reach (p\<lparr>ppt_inputs := ci_set key (mi_set_description d i) (ppt_inputs p)\<rparr>)"
| flagged: "ppt_reach p \<Longrightarrow> ci_find key (ppt_inputs p) = Some i \<Longrightarrow>
    f \<in> {mi_make_optional, mi_make_required, mi_make_transparent, mi_make_opaque} \<Longrightarrow>
    ppt_reach (p\<lparr>ppt_inputs := ci_set key (f i) (ppt_inputs p)\<rparr>)"
| defaulted: "ppt_reach p \<Longrightarrow> ci_find key (ppt_inputs p) = Some i \<Longrightarrow> py_mi_set_default obj i = Inr i' \<Longrightarrow>
    is_py obj \<Longrightarrow> ppt_reach (p\<lparr>ppt_inputs := ci_set key i' (ppt_inputs p)\<rparr>)"

definition py_field :: "module_input \<Rightarrow> bool" where
  "py_field i \<longleftrightarrow> mip_type (mi_pimpl i) = Some (mk_rtti ty_py) \<and>
     (\<forall>(d, c) \<in> set (mip_checks (mi_pimpl i)). c = (\<lambda>v. Inr (type_check_call ty_py False v))) \<and>
     (\<forall>w. mip_value (mi_pimpl i) = Some w \<longrightarrow> py_has_value (aw_value w))"

definition ppt_inv :: "py_property_type \<Rightarrow> bool" where
  "ppt_inv p \<longleftrightarrow> om_wf ci_fold (ppt_inputs p) \<and>
     (\<forall>k i. ci_find k (ppt_inputs p) = Some i \<longrightarrow> py_field i \<and> ci_fold k \<in> ci_fold ` set (ppt_input_order p)) \<and>
     (\<forall>k \<in> set (ppt_input_order p). ci_find k (ppt_inputs p) \<noteq> None)"

lemma py_obj: "py_has_value x \<Longrightarrow> solid x \<and> is_py x \<and> py_unwrap ty_py_object x = Inr x \<and> py_unwrap ty_py x = Inr x \<and>
    type_check_call ty_py False (make_any_field q x)"
  by (cases x rule: py_has_value.cases) (auto simp: type_check_call_def any_is_convertible_def make_any_field_def
      is_convertible_const_def py_is_convertible_const_def)

lemma py_read: "py_has_value x \<Longrightarrow> any_cast_const pycast ty_py As_value (make_any_field q x) = Inr x"
  by (cases x rule: py_has_value.cases) (auto simp: any_cast_const_def make_any_field_def cast_const_def
      storing_python_object'_def is_convertible_const_def py_is_convertible_const_def)

lemma py_any_copy:
  assumes "is_py x" and "any_copy (py_any x) = Inr a"
  shows "py_has_value x \<and> a = py_any x"
proof -
  have "py_has_value x"
    using assms by (cases x rule: solid.cases) (auto simp: py_any_def any_copy_def make_any_field_def clone'_def
      as_python_wrapper'_def storing_python_object'_def is_convertible_const_def py_is_convertible_const_def)
  then show ?thesis using assms(2) py_obj [of x] any_copy_solid [of x By_value] by (simp add: py_any_def)
qed

lemma py_field_accepts:
  assumes "py_field i" and "py_has_value x"
  shows "run_checks (mip_checks (mi_pimpl i)) (make_any_field q x) = Inr True" and "mi_has_type i"
  using assms py_obj [OF assms(2), of q] by (auto simp: py_field_def run_checks_True_iff mi_has_type_def mip_has_type_def)

lemma py_field_value: "py_field i \<Longrightarrow> py_has_value x \<Longrightarrow> py_field (mi_upd (\<lambda>p. p\<lparr>mip_value := make_any_field q x\<rparr>) i)"
  by (auto simp: py_field_def mi_upd_def make_any_field_def)

lemma py_field_change:
  assumes "py_field i" and "py_has_value x"
  shows "mi_change (Arg_rvalue x) i = Inr (mi_upd (\<lambda>p. p\<lparr>mip_value := make_any_field By_value x\<rparr>) i)"
  using py_field_accepts(1) [OF assms, of By_value] py_field_accepts(2) [OF assms]
  by (simp add: mi_change_def mi_wrap_value_def mi_change'_Inr_iff)

lemma py_field_set_type:
  assumes "py_field i \<or> i = mi_new" and "mi_set_type (mk_rtti ty_py) False i = (Inr (), i')"
  shows "py_field i'"
  using assms(2)
proof (cases rule: mi_set_type_cases)
  case (accepted p)
  then have "p = (mi_pimpl i)\<lparr>mip_type := Some (mk_rtti ty_py), mip_checks := ci_emplace (type_check_str ty_py)
      (\<lambda>v. Inr (type_check_call ty_py False v)) (mip_checks (mi_pimpl i))\<rparr>"
    by (simp add: mip_add_check_Inr_iff)
  then show ?thesis
    using assms(1) accepted(2) by (auto simp: py_field_def mi_new_def mip_new_def om_emplace_def set_om_ins)
qed simp_all

lemma ppt_inv_set:
  assumes "ppt_inv p" and "py_field i" and "ci_fold key \<in> ci_fold ` set ks" and "set (ppt_input_order p) \<subseteq> set ks"
    and "set ks \<subseteq> insert key (set (ppt_input_order p))"
  shows "ppt_inv (p\<lparr>ppt_inputs := ci_set key i (ppt_inputs p), ppt_input_order := ks\<rparr>)"
  using assms image_mono [OF assms(4), of ci_fold] by (auto simp: ppt_inv_def om_find_set om_wf_set dest: subsetD)

lemma ppt_inv_field:
  assumes "ppt_inv p" and "ci_find key (ppt_inputs p) = Some i" and "py_field i'"
  shows "ppt_inv (p\<lparr>ppt_inputs := ci_set key i' (ppt_inputs p)\<rparr>)"
  using ppt_inv_set [OF assms(1,3), of key "ppt_input_order p"] assms(1,2) by (auto simp: ppt_inv_def)

lemma ppt_reach_inv: "ppt_reach p \<Longrightarrow> ppt_inv p"
proof (induction rule: ppt_reach.induct)
  case (new name)
  then show ?case by (simp add: ppt_inv_def ppt_new_def)
next
  case (input p key p')
  let ?i0 = "case ci_find key (ppt_inputs p) of None \<Rightarrow> mi_new | Some i \<Rightarrow> i"
  obtain i where i: "mi_set_type (mk_rtti ty_py) False ?i0 = (Inr (), i)"
      "p' = p\<lparr>ppt_inputs := ci_set key i (ppt_inputs p), ppt_input_order := ppt_input_order p @ [key]\<rparr>"
    using input.hyps(2) by (auto simp: ppt_declare_input_def split: prod.splits sum.splits)
  have "py_field ?i0 \<or> ?i0 = mi_new" using input.IH by (auto simp: ppt_inv_def split: option.split)
  then have "py_field i" using i(1) by (rule py_field_set_type)
  then show ?case unfolding i(2) by (rule ppt_inv_set [OF input.IH]) auto
next
  case (result p key p')
  then show ?case by (auto simp: ppt_declare_result_def ppt_inv_def split: prod.splits sum.splits)
next
  case (described p key i d)
  then have "py_field i" by (auto simp: ppt_inv_def)
  then have "py_field (mi_set_description d i)" by (auto simp: py_field_def mi_setter_defs)
  then show ?case using described by (intro ppt_inv_field)
next
  case (flagged p key i f)
  then have "py_field i" by (auto simp: ppt_inv_def)
  then have "py_field (f i)" using flagged.hyps(3) by (auto simp: py_field_def mi_setter_defs)
  then show ?case using flagged by (intro ppt_inv_field)
next
  case (defaulted p key i obj i')
  then have "py_field i" by (auto simp: ppt_inv_def)
  obtain a where "any_copy (py_any obj) = Inr a" "mi_change' a i = Inr i'"
    using defaulted.hyps(3) by (auto simp: py_mi_set_default_def mi_set_default_def mi_change_def mi_wrap_value_def bindR_Inr_iff)
  then have "py_has_value obj" "mi_change' (make_any_field By_value obj) i = Inr i'"
    using py_any_copy [OF defaulted.hyps(4)] by (auto simp: py_any_def)
  then have "py_field i'" using py_field_value [OF \<open>py_field i\<close>] by (auto simp: mi_change'_Inr_iff)
  then show ?case using defaulted by (intro ppt_inv_field)
qed

text \<open>The argument a field is left with: the last one for a declaration of it.\<close>

definition last_given :: "string list \<Rightarrow> cval list \<Rightarrow> string \<Rightarrow> cval option" where
  "last_given ks args k = map_of (rev (zip (map ci_fold ks) args)) (ci_fold k)"

lemma ppt_fold:
  "\<lbrakk>length args = length ks; list_all py_has_value args; \<forall>k i. ci_find k rv = Some i \<longrightarrow> py_field i;
    \<forall>k \<in> set ks. ci_find k rv \<noteq> None\<rbrakk> \<Longrightarrow>
   \<exists>rv'. foldR (\<lambda>(key, a). im_change key (Arg_rvalue a)) (zip ks args) rv = Inr rv' \<and> map fst rv' = map fst rv \<and>
     (\<forall>k. case last_given ks args k of None \<Rightarrow> ci_find k rv' = ci_find k rv | Some x \<Rightarrow> holds rv' k x)"
proof (induction ks arbitrary: args rv)
  case Nil
  then show ?case by (simp add: last_given_def)
next
  case (Cons k ks)
  obtain x xs where args: "args = x # xs" using Cons.prems(1) by (cases args) auto
  obtain i where i: "ci_find k rv = Some i" using Cons.prems(4) by auto
  have x: "py_field i" "py_has_value x" using i Cons.prems(2,3) by (auto simp: args)
  let ?i = "mi_upd (\<lambda>p. p\<lparr>mip_value := make_any_field By_value x\<rparr>) i"
  let ?rv = "ci_set k ?i rv"
  have ch: "im_change k (Arg_rvalue x) rv = Inr ?rv"
    using i py_field_change [OF x] by (simp add: im_change_def om_at_def)
  have fields: "\<forall>k i. ci_find k ?rv = Some i \<longrightarrow> py_field i"
    using Cons.prems(3) py_field_value [OF x] by (simp add: om_find_set)
  have "\<forall>k \<in> set ks. ci_find k ?rv \<noteq> None" using Cons.prems(4) by (simp add: om_find_set)
  then obtain rv' where rv': "foldR (\<lambda>(key, a). im_change key (Arg_rvalue a)) (zip ks xs) ?rv = Inr rv'"
      "map fst rv' = map fst ?rv"
      "\<And>k. case last_given ks xs k of None \<Rightarrow> ci_find k rv' = ci_find k ?rv | Some x \<Rightarrow> holds rv' k x"
    using Cons.IH [of xs ?rv] Cons.prems(1,2) fields by (auto simp: args)
  have "case last_given (k # ks) args k' of None \<Rightarrow> ci_find k' rv' = ci_find k' rv | Some x \<Rightarrow> holds rv' k' x" for k'
    using rv'(3) [of k'] by (auto simp: last_given_def args map_add_def om_find_set holds_def mi_upd_def split: option.splits)
  then show ?case using ch rv' keys_set [OF i] by (intro exI [of _ rv']) (simp add: args)
qed

lemma last_given_distinct:
  "distinct (map ci_fold ks) \<Longrightarrow> length args = length ks \<Longrightarrow> map (\<lambda>k. the (last_given ks args k)) ks = args"
proof (intro nth_equalityI; simp)
  fix i assume d: "distinct (map ci_fold ks)" "length args = length ks" "i < length ks"
  then have "(ci_fold (ks ! i), args ! i) \<in> set (rev (zip (map ci_fold ks) args))"
    by (auto simp: set_zip intro!: exI [of _ i])
  moreover have "distinct (map fst (rev (zip (map ci_fold ks) args)))" using d by (simp flip: rev_map)
  ultimately show "the (last_given ks args (ks ! i)) = args ! i" by (simp add: last_given_def map_of_is_SomeI)
qed

lemma last_given_Some:
  assumes "length args = length ks" and "list_all py_has_value args" and "ci_fold k \<in> ci_fold ` set ks"
  obtains x where "last_given ks args k = Some x" "py_has_value x"
proof -
  have "ci_fold k \<in> fst ` set (zip (map ci_fold ks) args)" using assms(1,3) by (simp flip: set_map)
  then obtain x where "last_given ks args k = Some x"
    by (cases "last_given ks args k") (auto simp: last_given_def map_of_eq_None_iff)
  moreover then have "x \<in> set args" by (auto simp: last_given_def dest!: map_of_SomeD set_zip_rightD)
  ultimately show ?thesis using assms(2) that by (auto simp: list_all_iff)
qed

lemma ppt_copy:
  assumes "ppt_reach p"
  shows "im_copy (ppt_inputs p) = Inr (unrefs (ppt_inputs p))"
    and "im_copy (unrefs (ppt_inputs p)) = Inr (unrefs (ppt_inputs p))"
    and "\<forall>k i. ci_find k (unrefs (ppt_inputs p)) = Some i \<longrightarrow> py_field i"
    and "\<forall>k \<in> set (ppt_input_order p). ci_find k (unrefs (ppt_inputs p)) \<noteq> None"
proof -
  note inv = ppt_reach_inv [OF assms, unfolded ppt_inv_def]
  have "py_field i" if "(k, i) \<in> set (ppt_inputs p)" for k i using om_find_wf [OF _ that, of ci_fold] inv by blast
  then have c: "copyable (ppt_inputs p)" unfolding copyable_iff py_field_def using py_obj by blast
  show "im_copy (ppt_inputs p) = Inr (unrefs (ppt_inputs p))" by (rule copy_copyable [OF c])
  show "im_copy (unrefs (ppt_inputs p)) = Inr (unrefs (ppt_inputs p))"
    using copy_copyable [OF copyable_unref [OF c]] by (simp add: comp_def case_prod_unfold)
  have "py_field (unref i)" if "py_field i" for i using that by (auto simp: py_field_def unref_def mi_upd_def)
  then show "\<forall>k i. ci_find k (unrefs (ppt_inputs p)) = Some i \<longrightarrow> py_field i"
    using inv by (auto simp: om_find_map)
  show "\<forall>k \<in> set (ppt_input_order p). ci_find k (unrefs (ppt_inputs p)) \<noteq> None"
    using inv by (auto simp: om_find_map)
qed

text \<open>The arguments in place, one for each declaration.\<close>

lemma ppt_wrapped:
  assumes "ppt_reach p" and "length args = length (ppt_input_order p)" and "list_all py_has_value args"
  obtains rv where "ppt_wrap_inputs p (unrefs (ppt_inputs p)) args = Inr rv" "full rv"
    "\<forall>k \<in> set (ppt_input_order p). holds rv k (the (last_given (ppt_input_order p) args k))"
proof -
  let ?ks = "ppt_input_order p" and ?m = "unrefs (ppt_inputs p)"
  obtain rv where rv: "foldR (\<lambda>(key, a). im_change key (Arg_rvalue a)) (zip ?ks args) ?m = Inr rv"
      "map fst rv = map fst ?m"
      "\<And>k. case last_given ?ks args k of None \<Rightarrow> ci_find k rv = ci_find k ?m | Some x \<Rightarrow> holds rv k x"
    using ppt_fold [OF assms(2,3) ppt_copy(3,4) [OF assms(1)]] by blast
  note inv = ppt_reach_inv [OF assms(1), unfolded ppt_inv_def]
  have given: "\<exists>x. last_given ?ks args k = Some x \<and> holds rv k x \<and> py_has_value x" if "ci_fold k \<in> ci_fold ` set ?ks" for k
    using last_given_Some [OF assms(2,3) that] rv(3) [of k] by (metis option.simps(5))
  have wf: "om_wf ci_fold rv" using inv om_wf_keys [OF rv(2) [unfolded keys_unref], of ci_fold] by simp
  have "\<exists>q x. mip_value (mi_pimpl i) = make_any_field q x \<and> solid x" if "(k, i) \<in> set rv" for k i
  proof -
    have "k \<in> fst ` set (ppt_inputs p)" using that rv(2) by (metis fst_conv image_eqI keys_unref set_map)
    then have "ci_fold k \<in> ci_fold ` set ?ks" using inv om_find_in_set by fastforce
    then show ?thesis using given [of k] om_find_wf [OF wf that] py_obj by (auto simp: holds_def)
  qed
  then have "full rv"
    by (force simp: full_def copyable_iff mi_has_value_def mip_has_value_def any_has_value_def make_any_field_def)
  then show ?thesis using rv(1) given assms(2) by (intro that [of rv]) (force simp: ppt_wrap_inputs_def)+
qed

text \<open>C29: A Python-only property type gives back the Python objects it wrapped.  However its fields
  were declared, described, flagged and given defaults, \<open>wrap_inputs\<close> on its own map of inputs
  throws for a wrong number of arguments; for as many Python objects as there were declarations it
  succeeds, the map is ready, and unwrapping it returns, for each declaration, the last argument
  given for its field.  These are the arguments if no field was declared twice; if one was, all its
  arguments but the last are lost.\<close>

theorem python_only_round_trip:
  assumes "ppt_reach p"
  shows "let api = export_python_only pycast p; ks = ppt_input_order p;
      wrapped = bindR (pa_inputs api) (\<lambda>inps. pa_wrap_inputs api inps args);
      given = map (\<lambda>k. the (last_given ks args k)) ks in
    (length args \<noteq> length ks \<longrightarrow> wrapped = Inl (runtime_error
       (''PythonOnlyPropertyType \"'' @ ppt_name p @ ''\": wrong number of positional inputs''))) \<and>
    (length args = length ks \<and> list_all py_has_value args \<longrightarrow>
      (\<exists>rv. wrapped = Inr rv \<and> list_all (\<lambda>(k, v). mi_ready v) rv \<and> pa_unwrap_inputs api rv = Inr (Some given))) \<and>
    (length args = length ks \<and> distinct (map ci_fold ks) \<longrightarrow> given = args)"
proof -
  let ?api = "export_python_only pycast p" and ?ks = "ppt_input_order p"
  let ?wrapped = "bindR (pa_inputs ?api) (\<lambda>inps. pa_wrap_inputs ?api inps args)"
  let ?given = "map (\<lambda>k. the (last_given ?ks args k)) ?ks"
  have w: "?wrapped = ppt_wrap_inputs p (unrefs (ppt_inputs p)) args"
    using ppt_copy(1,2) [OF assms] by (simp add: export_python_only_def)
  have "\<exists>rv. ?wrapped = Inr rv \<and> list_all (\<lambda>(k, v). mi_ready v) rv \<and> pa_unwrap_inputs ?api rv = Inr (Some ?given)"
    if ok: "length args = length ?ks" "list_all py_has_value args"
  proof -
    obtain rv where rv: "ppt_wrap_inputs p (unrefs (ppt_inputs p)) args = Inr rv" "full rv"
        "\<forall>k \<in> set ?ks. holds rv k (the (last_given ?ks args k))"
      by (rule ppt_wrapped [OF assms ok])
    have x: "py_has_value (the (last_given ?ks args k))" if "k \<in> set ?ks" for k
      by (rule last_given_Some [OF ok, of k]) (use that in auto)
    have "ppt_unwrap_inputs pycast p (unrefs rv) = Inr ?given"
      unfolding ppt_unwrap_inputs_def
    proof (rule mapR_map_Inr)
      fix k assume k: "k \<in> set ?ks"
      then obtain i q where "ci_find k (unrefs rv) = Some i"
          "mip_value (mi_pimpl i) = make_any_field q (the (last_given ?ks args k))"
        using holds_unref rv(3) unfolding holds_def by blast
      then show "bindR (ci_at k (unrefs rv)) (mi_value_const pycast ty_py As_value) = Inr (the (last_given ?ks args k))"
        using py_read [OF x [OF k]] by (simp add: om_at_def mi_value_const_def mi_get_def mip_get_value_def mip_defs
            make_any_field_def any_has_value_def)
    qed
    moreover have "py_unwrap_all ?given = Inr ?given"
      unfolding py_unwrap_all_def using x py_obj mapR_map_Inr [of ?given "py_unwrap ty_py_object" id] by auto
    ultimately show ?thesis
      using w rv(1) copy_full [OF rv(2)] full_ready [OF rv(2)] by (simp add: export_python_only_def)
  qed
  moreover have "length args \<noteq> length ?ks \<longrightarrow> ?wrapped = Inl (runtime_error
       (''PythonOnlyPropertyType \"'' @ ppt_name p @ ''\": wrong number of positional inputs''))"
    unfolding w by (simp add: ppt_wrap_inputs_def)
  ultimately show ?thesis unfolding Let_def using last_given_distinct by blast
qed

text \<open>A field declared under two spellings.\<close>

definition spelled_twice :: py_property_type where
  "spelled_twice = (let p1 = projr (ppt_declare_input ''x'' (ppt_new ''Pair''));
     p2 = projr (ppt_declare_input ''y'' p1) in projr (ppt_declare_input ''X'' p2))"

lemma spelled_twice_reach: "ppt_reach spelled_twice"
proof -
  let ?p1 = "projr (ppt_declare_input ''x'' (ppt_new ''Pair''))" and ?p2 = "\<lambda>p1. projr (ppt_declare_input ''y'' p1)"
  have "\<not> isl (ppt_declare_input ''x'' (ppt_new ''Pair''))" by code_simp
  then have 1: "ppt_reach ?p1" by (intro ppt_reach.input [OF ppt_reach.new projr_ok])
  have "\<not> isl (ppt_declare_input ''y'' ?p1)" by code_simp
  then have 2: "ppt_reach (?p2 ?p1)" by (intro ppt_reach.input [OF 1 projr_ok])
  have "\<not> isl (ppt_declare_input ''X'' (?p2 ?p1))" by code_simp
  then show ?thesis unfolding spelled_twice_def Let_def by (intro ppt_reach.input [OF 2 projr_ok])
qed

theorem python_only_round_trip_witness:
  "\<exists>rv. bindR (pa_inputs (export_python_only Inr spelled_twice))
       (\<lambda>i. pa_wrap_inputs (export_python_only Inr spelled_twice) i [py_number 1, py_number 2, py_number 3]) = Inr rv \<and>
     pa_unwrap_inputs (export_python_only Inr spelled_twice) rv = Inr (Some [py_number 3, py_number 2, py_number 3])"
proof -
  have "ppt_input_order spelled_twice = [''x'', ''y'', ''X'']" by code_simp
  moreover have "map (\<lambda>k. the (last_given [''x'', ''y'', ''X''] [py_number 1, py_number 2, py_number 3] k)) [''x'', ''y'', ''X''] =
      [py_number 3, py_number 2, py_number 3]" by code_simp
  ultimately show ?thesis
    using python_only_round_trip [OF spelled_twice_reach, of Inr "[py_number 1, py_number 2, py_number 3]"]
    by (auto simp: Let_def py_number_def)
qed

end
