(* ===== verification/Profiling.thy ===== *)
theory Profiling
  imports Module_Class
begin

text \<open>
  \<open>profile_info\<close>, the times of a module and of its submodules as text (\<open>ModulePIMPL::profile_info\<close>).
  What the timer of a module prints is a parameter, \<open>timer\<close>, indexed by the module's address:
  the class is third-party and its times are those of a clock.
\<close>

section \<open>The text\<close>

abbreviation nl :: char where "nl \<equiv> char_of (10::nat)"

text \<open>The lines \<open>std::getline\<close> reads from a stream.\<close>

fun getlines :: "string \<Rightarrow> string list" where
  "getlines [] = []"
| "getlines (c # s) = (let token = takeWhile (\<lambda>c. c \<noteq> nl) (c # s) in token # getlines (drop (length token) s))"

definition tab :: string where "tab = ''  ''"

fun profile_submods :: "(nat \<Rightarrow> string res) \<Rightarrow> submodule_map \<Rightarrow> string res" where
  "profile_submods info [] = Inr []"
| "profile_submods info ((key, r) # rs) =
     bindR (sr_clone r) (\<lambda>submod.
     bindR (srp_value submod) (\<lambda>c.
     bindR (info c) (\<lambda>submod_prof_info.
     bindR (profile_submods info rs) (\<lambda>rest.
     Inr (tab @ key @ newline @ concat (map (\<lambda>token. tab @ tab @ token @ newline) (getlines submod_prof_info)) @ rest)))))"

definition profile_step :: "(nat \<Rightarrow> string) \<Rightarrow> 'd heap \<Rightarrow> (nat \<Rightarrow> string res) \<Rightarrow> nat \<Rightarrow> string res" where
  "profile_step timer h info a =
     bindR (mod_at h a) (\<lambda>m. bindR (profile_submods info (mp_submods (mo_pimpl m))) (\<lambda>ss. Inr (timer a @ ss)))"

definition mod_profile_info :: "(nat \<Rightarrow> string) \<Rightarrow> nat \<Rightarrow> 'd heap \<Rightarrow> nat \<Rightarrow> string res" where
  "mod_profile_info timer n h = calls (profile_step timer h) n"

section \<open>Lemmas\<close>

lemma py_unwrap_fuel: "py_unwrap T v \<noteq> Inl Out_of_fuel"
  by (cases "(T, v)" rule: py_unwrap.cases) (auto split: option.splits)

lemma any_copy_fuel: "any_copy a \<noteq> Inl Out_of_fuel"
  by (cases a) (simp_all add: any_copy_def clone'_def as_python_wrapper'_def cast_const_def cast_error_def bindR_fuel
      py_unwrap_fuel)

lemma sr_clone_fuel: "sr_clone r \<noteq> Inl Out_of_fuel"
proof -
  have "mi_copy i \<noteq> Inl Out_of_fuel" for i
    by (simp add: mi_copy_def mip_clone_def bindR_fuel any_copy_fuel)
  then have "mapR (\<lambda>(k, v). bindR (mi_copy v) (\<lambda>v'. Inr (k, v'))) m \<noteq> Inl Out_of_fuel" for m :: input_map
    by (induction m) (auto simp: bindR_fuel)
  then show ?thesis by (simp add: sr_clone_def om_copy_def bindR_fuel)
qed

lemma clone_module: "sr_clone r = Inr r' \<Longrightarrow> sr_module r' = sr_module r"
  by (auto simp: sr_clone_def bindR_Inr_iff)

text \<open>Lines, each with its end.\<close>

definition unlines :: "string list \<Rightarrow> string" where
  "unlines ts = concat (map (\<lambda>t. t @ newline) ts)"

definition terminated :: "string \<Rightarrow> bool" where
  "terminated s \<longleftrightarrow> s = [] \<or> last s = nl"

lemma getlines_line: "nl \<notin> set t \<Longrightarrow> getlines (t @ newline @ s) = t # getlines s"
proof (cases t)
  case (Cons c t')
  assume "nl \<notin> set t"
  then have "takeWhile (\<lambda>c. c \<noteq> nl) (t @ newline @ s) = t" by (subst takeWhile_append2) (auto simp: newline_def)
  then show ?thesis by (simp add: Cons newline_def Let_def)
qed (simp add: newline_def Let_def)

lemma getlines_unlines: "\<forall>t \<in> set ts. nl \<notin> set t \<Longrightarrow> getlines (unlines ts) = ts"
  by (induction ts) (simp_all add: unlines_def getlines_line)

lemma unlines_getlines: "terminated s \<Longrightarrow> unlines (getlines s) = s"
proof (induction s rule: length_induct)
  case (1 s)
  show ?case
  proof (cases "s = []")
    case False
    then have "nl \<in> set s" using 1(2) last_in_set [OF False] by (simp add: terminated_def)
    then obtain t r where s: "s = t @ newline @ r" "nl \<notin> set t" by (auto simp: newline_def dest: split_list_first)
    then have "terminated r" "length r < length s" using 1(2) by (auto simp: terminated_def newline_def split: if_splits)
    then have "unlines (getlines r) = r" using 1(1) by blast
    then show ?thesis using getlines_line [OF s(2), of r] by (simp add: s(1) unlines_def)
  qed (simp add: unlines_def)
qed

lemma getlines_clean: "t \<in> set (getlines s) \<Longrightarrow> nl \<notin> set t"
  by (induction s rule: getlines.induct) (auto simp: Let_def dest: set_takeWhileD split: if_splits)


text \<open>The text depends on the submodules only.\<close>

lemma profile_submods_cong:
  "\<forall>k r c. (k, r) \<in> set rs \<longrightarrow> sr_module r = Some c \<longrightarrow> f c = g c \<Longrightarrow> profile_submods f rs = profile_submods g rs"
proof (induction rs)
  case (Cons p rs)
  obtain k r where p: "p = (k, r)" by (cases p)
  have rest: "profile_submods f rs = profile_submods g rs" using Cons by auto
  show ?case
  proof (cases "sr_clone r")
    case (Inr r')
    note r' = this
    show ?thesis
    proof (cases "srp_value r'")
      case (Inr c)
      then have "f c = g c" using Cons.prems clone_module [OF r'] by (auto simp: p)
      then show ?thesis by (simp add: p r' Inr rest)
    qed (simp add: p r')
  qed (simp add: p)
qed simp

lemma profile_submods_fuel:
  "\<forall>k r c. (k, r) \<in> set rs \<longrightarrow> sr_module r = Some c \<longrightarrow> f c \<noteq> Inl Out_of_fuel \<Longrightarrow>
    profile_submods f rs \<noteq> Inl Out_of_fuel"
proof (induction rs)
  case (Cons p rs)
  obtain k r where p: "p = (k, r)" by (cases p)
  have "profile_submods f rs \<noteq> Inl Out_of_fuel" using Cons by auto
  then show ?case
    using Cons.prems clone_module [of r] by (auto simp: p bindR_fuel sr_clone_fuel)
qed simp

interpretation profile_calls: call_graph "profile_step timer h" "submods_of h" for timer h
proof (unfold_locales, goal_cases)
  case (1 x f g)
  show ?case
  proof (cases "hp_mods h x")
    case (Some m)
    have "profile_submods f (mp_submods (mo_pimpl m)) = profile_submods g (mp_submods (mo_pimpl m))"
      using 1 submods_ofI [OF Some] by (intro profile_submods_cong) blast
    then show ?thesis by (simp add: profile_step_def mod_at_def Some)
  qed (simp add: profile_step_def mod_at_def)
next
  case (2 x f)
  show ?case
  proof (cases "hp_mods h x")
    case (Some m)
    have "profile_submods f (mp_submods (mo_pimpl m)) \<noteq> Inl Out_of_fuel"
      using 2 submods_ofI [OF Some] by (intro profile_submods_fuel) blast
    then show ?thesis by (simp add: profile_step_def mod_at_def Some bindR_fuel)
  qed (simp add: profile_step_def mod_at_def)
qed

section \<open>The outline\<close>

text \<open>What the text should be: the lines of a module at a depth, below them the names of its submodules and their
  lines, two levels deeper.\<close>

fun outline :: "(nat \<Rightarrow> string) \<Rightarrow> nat \<Rightarrow> 'd heap \<Rightarrow> nat \<Rightarrow> (nat \<times> string) list" where
  "outline timer 0 h a = []"
| "outline timer (Suc n) h a = map (Pair 0) (getlines (timer a)) @
     (case hp_mods h a of None \<Rightarrow> []
      | Some m \<Rightarrow> concat (map (\<lambda>(k, r). (1, k) # (case sr_module r of None \<Rightarrow> []
          | Some c \<Rightarrow> map (\<lambda>(d, t). (d + 2, t)) (outline timer n h c))) (mp_submods (mo_pimpl m))))"

definition indented :: "nat \<times> string \<Rightarrow> string" where
  "indented x = concat (replicate (fst x) tab) @ snd x"

definition filled :: "'d heap \<Rightarrow> nat \<Rightarrow> bool" where
  "filled h a \<longleftrightarrow> (\<forall>b m k r. reaches h a b \<longrightarrow> hp_mods h b = Some m \<longrightarrow> (k, r) \<in> set (mp_submods (mo_pimpl m)) \<longrightarrow>
     sr_module r \<noteq> None)"

text \<open>Modules with names of one line, requests that can be copied and timers that end their lines.\<close>

definition tidy :: "(nat \<Rightarrow> string) \<Rightarrow> 'd heap \<Rightarrow> nat \<Rightarrow> bool" where
  "tidy timer h a \<longleftrightarrow> (\<forall>b. reaches h a b \<longrightarrow> terminated (timer b) \<and> (\<exists>m. hp_mods h b = Some m \<and>
     (\<forall>(k, r) \<in> set (mp_submods (mo_pimpl m)). nl \<notin> set k \<and> \<not> isl (sr_clone r))))"

lemma filled_iff: "hp_mods h a = Some m \<Longrightarrow> filled h a \<longleftrightarrow>
    (\<forall>(k, r) \<in> set (mp_submods (mo_pimpl m)). \<exists>c. sr_module r = Some c \<and> filled h c)"
proof
  assume m: "hp_mods h a = Some m" and f: "filled h a"
  have "\<exists>c. sr_module r = Some c \<and> filled h c" if kr: "(k, r) \<in> set (mp_submods (mo_pimpl m))" for k r
  proof -
    obtain c where c: "sr_module r = Some c" using f m kr reaches.refl [of h a] unfolding filled_def by blast
    have "reaches h a b" if "reaches h c b" for b by (rule reaches.step [OF submod_ofI [OF m kr c] that])
    then show ?thesis using f c unfolding filled_def by blast
  qed
  then show "\<forall>(k, r) \<in> set (mp_submods (mo_pimpl m)). \<exists>c. sr_module r = Some c \<and> filled h c" by blast
next
  assume m: "hp_mods h a = Some m" and all: "\<forall>(k, r) \<in> set (mp_submods (mo_pimpl m)). \<exists>c. sr_module r = Some c \<and> filled h c"
  show "filled h a"
    unfolding filled_def
  proof (intro allI impI)
    fix b m' k r assume b: "reaches h a b" "hp_mods h b = Some m'" "(k, r) \<in> set (mp_submods (mo_pimpl m'))"
    from b(1) show "sr_module r \<noteq> None"
    proof (cases rule: reaches.cases)
      case refl
      then show ?thesis using b m all by auto
    next
      case (step r' c)
      then have "filled h c" using m all by (auto simp: submod_of_def)
      then show ?thesis using step(2) b(2,3) unfolding filled_def by blast
    qed
  qed
qed

lemma unlines_append [simp]: "unlines (ts @ us) = unlines ts @ unlines us"
  by (simp add: unlines_def)

lemma nl_not_tab: "nl \<notin> set tab"
  by code_simp

lemma indented_deeper:
  "concat (map (\<lambda>token. tab @ tab @ token @ newline) (map indented xs)) = unlines (map indented (map (\<lambda>(d, t). (d + 2, t)) xs))"
  by (induction xs) (auto simp: unlines_def indented_def)

lemma outline_clean:
  "tidy timer h a \<Longrightarrow> (d, t) \<in> set (outline timer n h a) \<Longrightarrow> nl \<notin> set t"
proof (induction n arbitrary: a d)
  case (Suc n)
  obtain m where m: "hp_mods h a = Some m" "\<forall>(k, r) \<in> set (mp_submods (mo_pimpl m)). nl \<notin> set k \<and> \<not> isl (sr_clone r)"
    using Suc.prems(1) reaches.refl [of h a] unfolding tidy_def by blast
  have "tidy timer h c" if "(k, r) \<in> set (mp_submods (mo_pimpl m))" "sr_module r = Some c" for k r c
    using Suc.prems(1) reaches.step [OF submod_ofI [OF m(1) that]] unfolding tidy_def by blast
  then show ?case
    using Suc.prems(2) m getlines_clean Suc.IH by (fastforce split: option.splits)
qed simp

text \<open>One request after another.\<close>

lemma profile_submods_outline:
  assumes "\<forall>(k, r) \<in> set rs. \<not> isl (sr_clone r) \<and> (\<forall>c. sr_module r = Some c \<longrightarrow>
      info c = (if good c then Inr (unlines (map indented (lay c))) else Inl (runtime_error ''Submodule is not ready'')) \<and>
      (\<forall>(d, t) \<in> set (lay c). nl \<notin> set t))"
  shows "profile_submods info rs =
    (if \<forall>(k, r) \<in> set rs. \<exists>c. sr_module r = Some c \<and> good c
     then Inr (unlines (map indented (concat (map (\<lambda>(k, r). (1, k) # (case sr_module r of None \<Rightarrow> []
          | Some c \<Rightarrow> map (\<lambda>(d, t). (d + 2, t)) (lay c))) rs))))
     else Inl (runtime_error ''Submodule is not ready''))"
  using assms
proof (induction rs)
  case (Cons p rs)
  obtain k r where p: "p = (k, r)" by (cases p)
  have "\<not> isl (sr_clone r)" using Cons.prems by (simp add: p)
  then obtain r' where clone: "sr_clone r = Inr r'" by (cases "sr_clone r") auto
  note r' = clone clone_module [OF clone]
  show ?case
  proof (cases "sr_module r")
    case None
    then show ?thesis using r' by (simp add: p srp_value_def sr_has_defs)
  next
    case (Some c)
    have "\<forall>t \<in> set (map indented (lay c)). nl \<notin> set t"
      using Cons.prems nl_not_tab by (auto simp: p Some indented_def)
    note lines = getlines_unlines [OF this]
    have v: "srp_value r' = Inr c" using r' Some by simp
    show ?thesis
    proof (cases "good c")
      case True
      have i: "info c = Inr (unlines (map indented (lay c)))" using Cons.prems True by (auto simp: p Some)
      have "profile_submods info (p # rs) = bindR (profile_submods info rs) (\<lambda>rest. Inr (tab @ k @ newline @
          unlines (map indented (map (\<lambda>(d, t). (d + 2, t)) (lay c))) @ rest))"
        unfolding p profile_submods.simps r'(1) v i bindR_simps lines indented_deeper ..
      moreover have "unlines (indented (Suc 0, k) # ts) = tab @ k @ newline @ unlines ts" for ts
        by (simp add: unlines_def indented_def)
      moreover note Cons.IH
      ultimately show ?thesis using Cons.prems True by (auto simp: p Some simp del: profile_submods.simps)
    next
      case False
      have "info c = Inl (runtime_error ''Submodule is not ready'')" using Cons.prems False by (auto simp: p Some)
      then show ?thesis using r' False Some by (simp add: p v)
    qed
  qed
qed (simp add: unlines_def)

section \<open>Properties\<close>

text \<open>C38: The profile of a module is an outline of its submodules.  When no module reaches itself
  through its submodules, \<open>profile_info\<close> returns or throws whatever the fuel above the height; it throws
  exactly when some request below the module, direct or not, holds no module.  Otherwise the text has
  the lines of the module's own timer, then for each request its name, one level deeper, and the lines
  of the profile of the module it holds, two levels deeper, if names are of one line and timers end their lines.\<close>

theorem profile_outline:
  assumes "ranked h rank" and "rank a < n" and "tidy timer h a"
  shows "mod_profile_info timer n h a =
    (if filled h a then Inr (unlines (map indented (outline timer n h a)))
     else Inl (runtime_error ''Submodule is not ready''))"
  using assms(2,3) unfolding mod_profile_info_def
proof (induction n arbitrary: a)
  case (Suc n)
  obtain m where m: "hp_mods h a = Some m" "\<forall>(k, r) \<in> set (mp_submods (mo_pimpl m)). nl \<notin> set k \<and> \<not> isl (sr_clone r)"
      "terminated (timer a)"
    using Suc.prems(2) reaches.refl [of h a] unfolding tidy_def by blast
  have below: "tidy timer h c" "rank c < n" if "(k, r) \<in> set (mp_submods (mo_pimpl m))" "sr_module r = Some c" for k r c
  proof -
    have c: "submod_of h a r c" by (rule submod_ofI [OF m(1) that])
    show "tidy timer h c" using Suc.prems(2) reaches.step [OF c] unfolding tidy_def by blast
    show "rank c < n" using Suc.prems(1) assms(1) c unfolding ranked_def by fastforce
  qed
  have "\<forall>(k, r) \<in> set (mp_submods (mo_pimpl m)). \<not> isl (sr_clone r) \<and> (\<forall>c. sr_module r = Some c \<longrightarrow>
      calls (profile_step timer h) n c = (if filled h c then Inr (unlines (map indented (outline timer n h c)))
        else Inl (runtime_error ''Submodule is not ready'')) \<and>
      (\<forall>(d, t) \<in> set (outline timer n h c). nl \<notin> set t))"
    using m(2) Suc.IH [OF below(2,1)] outline_clean [OF below(1)] by blast
  note subs = profile_submods_outline [OF this]
  have "map indented (map (Pair 0) (getlines (timer a))) = getlines (timer a)" by (simp add: indented_def comp_def)
  then have "timer a = unlines (map indented (map (Pair 0) (getlines (timer a))))" using unlines_getlines [OF m(3)] by simp
  moreover have "calls (profile_step timer h) (Suc n) a =
      bindR (profile_submods (calls (profile_step timer h) n) (mp_submods (mo_pimpl m))) (\<lambda>ss. Inr (timer a @ ss))"
    unfolding calls.simps profile_step_def [of timer h _ a] by (simp add: mod_at_def m(1))
  ultimately show ?case using subs by (simp add: m(1) filled_iff [OF m(1)])
qed simp

text \<open>Two modules whose timers print one line each.\<close>

definition two_times :: "nat \<Rightarrow> string" where
  "two_times a = (if a = 0 then ''3 ms'' else ''1 ms'') @ newline"

theorem profile_outline_witness:
  "mod_profile_info two_times 2 pair_heap 0 = Inr (unlines [''3 ms'', ''  Energy'', ''    1 ms''])"
proof -
  have r: "ranked pair_heap (\<lambda>a. if a = 0 then 1 else 0)"
    by (auto simp: ranked_def submod_of_def pair_heap_def mp_new_def split: if_splits)
  have at: "b = 0 \<or> b = 1" if "reaches pair_heap 0 b" for b using that pair_heap_reaches by simp
  have "\<not> isl (sr_clone \<lparr>sr_desc = None, sr_type = Some (mk_rtti ''Energy''), sr_inputs = [], sr_module = Some 1\<rparr>)"
    "nl \<notin> set ''Energy''" by code_simp+
  then have "tidy two_times pair_heap 0"
    unfolding tidy_def using at by (fastforce simp: terminated_def two_times_def newline_def pair_heap_def mp_new_def)
  moreover have "filled pair_heap 0" unfolding filled_def using at by (fastforce simp: pair_heap_def mp_new_def)
  moreover have "map indented (outline two_times 2 pair_heap 0) = [''3 ms'', ''  Energy'', ''    1 ms'']" by code_simp
  ultimately show ?thesis using profile_outline [OF r, of 0 2 two_times] by simp
qed

end
