(* ===== verification/Spec2Isabelle.thy ===== *)
theory Spec2Isabelle
  imports Long_Term_Storage Default_Filling Printing Run_Termination Replaced_Modules Python_Interface Profiling
begin

text \<open>
  PluginPlay: a framework that builds programs from modules.

  A \<^emph>\<open>module\<close> is an algorithm of a developer with named inputs, named results and requests for
  submodules.  A \<^emph>\<open>property type\<close> is an API: the inputs and results, in order, with which a module
  can be run.  A user fetches modules by key from a \<^emph>\<open>module manager\<close>, binds inputs and
  submodules and runs them; the first run locks a module and everything it uses, and results are memoized
  in a cache under the inputs they were computed from.

  \<^bold>\<open>The parts of the program and the theories that model them\<close> (paths are under
  \<open>src/cxx/include/pluginplay\<close> and \<open>src/cxx/src/pluginplay\<close>; every theory imports those before it that it calls):

  \<^item> \<open>Prelude\<close>: results and state-passing operations that may throw (\<open>bindR\<close>, \<open>bindS\<close>, \<open>forS\<close>),
    maps as sorted association lists with a key normaliser (\<open>om_\<close>), case folding and decimal printing; the locale
    \<open>frame_rule\<close> and the collection \<open>frames\<close> carry a reflexive and transitive relation between states
    (what an operation may change) through a whole operation.
  \<^item> \<open>Values\<close>: \<open>types.hpp\<close>. C++ values tagged with their class, Python objects with what they convert to,
    the exceptions of the source as the datatype \<open>exn\<close>, \<open>noexcept\<close> as an operator that turns an exception
    into \<open>Std_terminate\<close>, \<open>std::map\<close> and \<open>CaseInsensitiveMap\<close> as instances of the locale \<open>assoc_container\<close>.
  \<^item> \<open>Any_Field\<close>: \<open>any/\<close> and \<open>python/python_wrapper.hpp\<close>. The type-erased value and how it is held.
  \<^item> \<open>Bounds_Checks\<close>, \<open>Module_Input\<close>, \<open>Module_Result\<close>: \<open>fields/\<close>. A field's record is the members of
    its PIMPL; an inductive relation says what states its public operations reach.
  \<^item> \<open>Property_Type\<close>: \<open>property_type/\<close>. Field tuples, inheritance of APIs, wrapping arguments into
    maps of fields and unwrapping them, APIs declared in Python.
  \<^item> \<open>Database\<close>, \<open>Proxy_Maps\<close>, \<open>Module_Cache\<close>, \<open>Rocks_DB\<close>, \<open>Long_Term_Storage\<close>: \<open>cache/\<close> and \<open>config/\<close>. \<open>DatabaseAPI\<close> is a record of
    operations over a memory, a layer is a function between such records; the factory stacks them as the code does.
    The locale \<open>database\<close> states what a database promises its client, and every layer
    is an interpretation of it.
  \<^item> \<open>Module_Base\<close>, \<open>Submodule_Request\<close>, \<open>Module_Class\<close>, \<open>Module_Run\<close>, \<open>Memoization\<close>, \<open>Run_Termination\<close>,
    \<open>Lambda_Modules\<close>, \<open>Profiling\<close>: \<open>submodule_request\<close> and \<open>module/\<close>. Modules and implementations are objects of a heap, a \<open>shared_ptr\<close> is an address. \<open>Module_Run\<close> has
    the run of a module and of the lambda and facade modules; the developer's algorithm is a value of the
    type \<open>alg\<close>, which can call submodules, use its cache, throw or return.
  \<^item> \<open>Module_Manager\<close>, \<open>Manager_Properties\<close>, \<open>Default_Filling\<close>, \<open>Replaced_Modules\<close>: \<open>module_manager/\<close>. The state is the
    manager with the heap; an inductive step relation has a constructor for every call.
  \<^item> \<open>Printing\<close>: \<open>printing/\<close>. The pages of modules and the graph of their submodules.
  \<^item> \<open>Python_Interface\<close>: \<open>python/\<close>, \<open>property_type/macros.hpp\<close> and the \<open>export_\<close> files. A property type is
    seen by Python as the record of its methods (\<open>py_api\<close>); calls from Python are composed of these
    and of the operations of the other theories.

  \<^bold>\<open>What the lemmas show.\<close>  Fields: a bound value has the declared class and passes every check;
  failed operations leave what the code leaves.  Caches: through all their layers the memo tables
  refine one map per module from input maps to result maps, which no other client of the store can disturb; long-term
  stores round-trip, with the exceptions stated, but caches do not look into them.  Modules: which inputs a run uses, that it locks exactly what it
  reaches, changes nothing else, that a second run returns the first one's results, and that a lambda module
  is the function it was made from, also when Python calls it.  Manager: its
  invariant over all call sequences, what adding, copying and retrieving do, and when
  retrieving returns a module that is ready.  Where the code does not do what its documentation or its own
  other parts say, the behaviour of the code is proved and recorded as a finding.

  \<^bold>\<open>Fuel.\<close>  A module may reach itself through its submodules, and the code then recurses without end. The
  operations that walk submodules (\<open>mod_ready\<close>, \<open>mod_lock\<close>, \<open>mod_run\<close> and so on), \<open>mm_at\<close> and
  \<open>print_submods\<close> therefore take a bound on the depth of calls, and \<open>Out_of_fuel\<close> is a result no
  exception of the program equals; \<open>catchS\<close> and \<open>noexceptR\<close> let it through.  On heaps without such a
  circle a depth above the height of the module is enough: the walks then give an answer of the program, the
  same for every larger bound, and \<open>at\<close> returns if defaults cover the requests.

  \<^bold>\<open>Parameters\<close> stand for code outside the repository: \<open>pycast\<close> for the conversions of pybind11, \<open>archive\<close> for
  cereal, \<open>rocks_lib\<close> and \<open>db_open\<close> for RocksDB, \<open>cw_gen\<close> for the UUIDs of boost, \<open>demangle\<close> and \<open>fort\<close> for the
  demangler and the tables.  What is assumed of them is named in the hypotheses.

  \<^bold>\<open>Not modelled\<close>: moved-from objects; what timers measure; creating directories; word
  wrapping; compile-time predicates; the bindings that give a C++ function to Python unchanged, and how pybind11 converts values;
  concurrency, which the source does not have.
\<close>

end
